theory Spec2Isabelle
  imports Complex_Main "HOL-Library.Signed_Division"
begin

section \<open>The map viewport of the client (mapview.cpp)\<close>

text \<open>
  The development embeds \<^verbatim>\<open>src/client/mapview.cpp\<close>: the member functions of
  \<^verbatim>\<open>MapView\<close> become functions on a record of its data members, the calls that leave
  the class (logger, draw pool, painter, light view, virtual hooks) are appended to a
  trace, and the world (\<^verbatim>\<open>g_map\<close>, \<^verbatim>\<open>g_graphics\<close>, the creatures) is a record of
  query functions handed to every operation that reads it.

  C++ integers are \<open>int\<close>; a conversion to an unsigned type is written out as a
  remainder (\<open>u8\<close>, \<open>u16\<close>, \<open>u32\<close>) and one to a 32-bit \<^verbatim>\<open>int\<close> as \<open>s32\<close>.
  Signed overflow of \<^verbatim>\<open>int\<close> arithmetic (undefined in C++) is not modelled.
  The division and remainder of C++ truncate towards zero: \<open>sdiv\<close> and \<open>smod\<close>.
\<close>

subsection \<open>Integer conversions\<close>

definition u8 :: "int \<Rightarrow> int" where
  "u8 v = v mod 256"

definition u16 :: "int \<Rightarrow> int" where
  "u16 v = v mod 65536"

definition u32 :: "int \<Rightarrow> int" where
  "u32 v = v mod 4294967296"

definition s32 :: "int \<Rightarrow> int" where
  "s32 v = (v + 2147483648) mod 4294967296 - 2147483648"

definition clamp :: "int \<Rightarrow> int \<Rightarrow> int \<Rightarrow> int" where
  \<comment> \<open>\<^verbatim>\<open>stdext::clamp<int>(x, min, max)\<close>: \<^verbatim>\<open>std::max(min, std::min(x, max))\<close>.\<close>
  "clamp v lo hi = max lo (min v hi)"

subsection \<open>Constants of the \<^verbatim>\<open>Otc\<close> namespace\<close>

text \<open>
  Modelled from the spec: \<^verbatim>\<open>const.h\<close> is not among the sources. The spec names a
  base tile size in pixels, a highest floor index \<^verbatim>\<open>MAX_Z\<close>, a sea-floor constant, an
  underground-floor constant and an underground range; the values are the client's.
\<close>

definition TILE_PIXELS :: int where "TILE_PIXELS = 32"
definition MAX_Z :: int where "MAX_Z = 15"
definition SEA_FLOOR :: int where "SEA_FLOOR = 7"
definition UNDERGROUND_FLOOR :: int where "UNDERGROUND_FLOOR = 8"
definition AWARE_UNDEGROUND_FLOOR_RANGE :: int where "AWARE_UNDEGROUND_FLOOR_RANGE = 2"
definition UINT8_MAX :: int where "UINT8_MAX = 255"

text \<open>The view areas of the anonymous enum at the top of the file.\<close>

definition NEAR_VIEW_AREA :: int where "NEAR_VIEW_AREA = 32 * 32"
definition MID_VIEW_AREA :: int where "MID_VIEW_AREA = 64 * 64"
definition FAR_VIEW_AREA :: int where "FAR_VIEW_AREA = 128 * 128"

subsection \<open>Positions, points, sizes, rectangles\<close>

text \<open>
  Modelled from the spec: \<^verbatim>\<open>position.h\<close> is not among the sources. A position is an
  integer \<open>(x, y, z)\<close> world coordinate whose \<open>z\<close> is the floor index, bounded by
  \<open>[0, MAX_Z]\<close>; the default-constructed position is the one invalid position.
  \<open>up\<close> moves one floor up; \<open>coveredUp\<close> is the floor-to-floor projective shift (one
  tile diagonally per floor). Both refuse (and leave the position as it is) when
  the result would leave the world.
\<close>

record Position =
  pos_x :: int
  pos_y :: int
  pos_z :: int

definition Position0 :: Position where
  \<comment> \<open>\<^verbatim>\<open>Position()\<close>\<close>
  "Position0 = \<lparr>pos_x = 65535, pos_y = 65535, pos_z = 255\<rparr>"

definition isValid :: "Position \<Rightarrow> bool" where
  "isValid p = (\<not> (pos_x p = 65535 \<and> pos_y p = 65535 \<and> pos_z p = 255))"

definition translated :: "Position \<Rightarrow> int \<Rightarrow> int \<Rightarrow> Position" where
  "translated p dx dy = p\<lparr>pos_x := pos_x p + dx, pos_y := pos_y p + dy\<rparr>"

definition up :: "Position \<Rightarrow> int \<Rightarrow> bool \<times> Position" where
  "up p n =
     (let nz = pos_z p - n
      in if 0 \<le> nz \<and> nz \<le> MAX_Z then (True, p\<lparr>pos_z := nz\<rparr>) else (False, p))"

definition coveredUp :: "Position \<Rightarrow> int \<Rightarrow> bool \<times> Position" where
  "coveredUp p n =
     (let nx = pos_x p + n; ny = pos_y p + n; nz = pos_z p - n
      in if 0 \<le> nx \<and> nx \<le> 65535 \<and> 0 \<le> ny \<and> ny \<le> 65535 \<and> 0 \<le> nz \<and> nz \<le> MAX_Z
         then (True, \<lparr>pos_x = nx, pos_y = ny, pos_z = nz\<rparr>) else (False, p))"

text \<open>
  Modelled from the spec: \<^verbatim>\<open>point.h\<close>, \<^verbatim>\<open>size.h\<close> and \<^verbatim>\<open>rect.h\<close> are not among the
  sources. \<^verbatim>\<open>Size(n)\<close> and \<^verbatim>\<open>Point(n)\<close> have both components \<open>n\<close>; sizes add and
  scale componentwise; \<^verbatim>\<open>a < b\<close> on sizes holds when either component is smaller;
  \<^verbatim>\<open>Rect()\<close> is the null rectangle.
\<close>

record Point =
  pt_x :: int
  pt_y :: int

record Size =
  width :: int
  height :: int

record Rect =
  rect_x :: int
  rect_y :: int
  rect_size :: Size

definition Point1 :: "int \<Rightarrow> Point" where
  "Point1 n = \<lparr>pt_x = n, pt_y = n\<rparr>"

definition Size1 :: "int \<Rightarrow> Size" where
  "Size1 n = \<lparr>width = n, height = n\<rparr>"

definition size_add :: "Size \<Rightarrow> Size \<Rightarrow> Size" where
  "size_add a b = \<lparr>width = width a + width b, height = height a + height b\<rparr>"

definition size_sub :: "Size \<Rightarrow> Size \<Rightarrow> Size" where
  "size_sub a b = \<lparr>width = width a - width b, height = height a - height b\<rparr>"

definition size_mul :: "Size \<Rightarrow> int \<Rightarrow> Size" where
  "size_mul a k = \<lparr>width = width a * k, height = height a * k\<rparr>"

definition size_div :: "Size \<Rightarrow> int \<Rightarrow> Size" where
  "size_div a k = \<lparr>width = width a sdiv k, height = height a sdiv k\<rparr>"

definition size_less :: "Size \<Rightarrow> Size \<Rightarrow> bool" where
  "size_less a b = (width a < width b \<or> height a < height b)"

definition area :: "Size \<Rightarrow> int" where
  "area a = width a * height a"

definition toPoint :: "Size \<Rightarrow> Point" where
  "toPoint a = \<lparr>pt_x = width a, pt_y = height a\<rparr>"

definition Rect0 :: Rect where
  \<comment> \<open>\<^verbatim>\<open>Rect()\<close>\<close>
  "Rect0 = \<lparr>rect_x = 0, rect_y = 0, rect_size = \<lparr>width = 0, height = 0\<rparr>\<rparr>"

subsection \<open>Tiles, creatures and the world\<close>

text \<open>
  Modelled from the spec: the tile, creature, map and graphics classes are
  collaborators outside the sources. A tile is its capability set; a creature,
  a shader, a missile and a text are identified by a number; the world answers the
  queries the viewport makes. \<open>posInRange\<close> is \<^verbatim>\<open>Position::isInRange\<close> and
  \<open>mouseShift last cam mouse\<close> is
  \<^verbatim>\<open>mouse.translatedToDirection(last.getDirectionFromPosition(cam))\<close>, both taken
  as parameters.
\<close>

type_synonym Creature = nat
type_synonym Shader = nat
type_synonym Missile = nat

record Ground =
  isTranslucent :: bool
  ground_isTopGround :: bool

record Tile =
  getPosition :: Position
  isDrawable :: bool
  hasGround :: bool
  hasGroundBorderToDraw :: bool
  hasBottomOrTopToDraw :: bool
  hasLight :: bool
  isCompletelyCovered :: "int \<Rightarrow> bool"
  limitsFloorsView :: "bool \<Rightarrow> bool"
  getCreatures :: "Creature list"
  getGround :: "Ground option"
  isTopGround :: bool

record AwareRange =
  ar_top :: int
  ar_right :: int
  ar_bottom :: int
  ar_left :: int

record StaticText =
  st_messageNone :: bool
  st_position :: Position

record World =
  getTile :: "Position \<Rightarrow> Tile option"
  isLookPossible :: "Position \<Rightarrow> bool"
  creaturePosition :: "Creature \<Rightarrow> Position"
  posInRange :: "Position \<Rightarrow> Position \<Rightarrow> int \<Rightarrow> int \<Rightarrow> int \<Rightarrow> int \<Rightarrow> bool \<Rightarrow> bool"
  mouseShift :: "Position \<Rightarrow> Position \<Rightarrow> Position \<Rightarrow> Position"
  getAwareRange :: AwareRange
  getMaxTextureSize :: int
  getFloorMissiles :: "int \<Rightarrow> Missile list"
  getStaticTexts :: "StaticText list"
  getAnimatedTexts :: "Position list"
  useShaders :: bool

subsection \<open>The viewport's state\<close>

datatype ViewMode = NEAR_VIEW | MID_VIEW | FAR_VIEW | HUGE_VIEW

fun viewModeRank :: "ViewMode \<Rightarrow> nat" where
  "viewModeRank NEAR_VIEW = 0"
| "viewModeRank MID_VIEW = 1"
| "viewModeRank FAR_VIEW = 2"
| "viewModeRank HUGE_VIEW = 3"

datatype PoolType = MAP | CREATURE_INFORMATION | TEXT

record MapList =
  grounds :: "Tile list"
  borders :: "Tile list"
  bottomTops :: "Tile list"

definition MapList_clear :: MapList where
  "MapList_clear = \<lparr>grounds = [], borders = [], bottomTops = []\<rparr>"

datatype Event =
    TraceError string
  | OnMouseMove Position bool
  | OnPositionChange Position Position
  | OnFloorChange int int
  | SetGlobalLight
  | OnAddVisibleTileList Tile
  | PoolResize Size
  | LightViewResize
  | UsePool PoolType
  | AddFilledRect
  | LightSetFloor int
  | LightSetShade Position bool
  | OnFloorDrawingStart int
  | DrawGround Tile
  | DrawGroundBorder Tile
  | DrawTile Tile
  | DrawMissile Missile
  | FloorShadow
  | OnFloorDrawingEnd int
  | DrawCrosshair Position
  | DrawInformation Creature bool bool bool
  | LightViewDraw Rect
  | DrawStaticText Position
  | DrawAnimatedText Position
  | ShaderSetPosition Shader Position
  | BindShader Shader
  | PainterSetOpacity real
  | PainterResetShaderProgram
  | PainterResetOpacity

text \<open>
  The data members of \<^verbatim>\<open>MapView\<close> that the functions below read or write
  (declared in \<^verbatim>\<open>mapview.h\<close>, which is not among the sources), and the trace.
  Left out are the members that only feed rendering geometry: the scale factor, the
  source rectangle and stretch factors of the rectangle cache, the per-direction
  viewport cache and the highlighted tile. The fade timer is the clock reading at
  its last restart; times are real numbers.
\<close>

record MapView =
  m_mustUpdateVisibleTilesCache :: bool
  m_mustUpdateVisibleCreaturesCache :: bool
  m_lastCameraPosition :: Position
  m_mousePosition :: Position
  m_cachedFirstVisibleFloor :: int
  m_cachedLastVisibleFloor :: int
  m_floorMin :: int
  m_floorMax :: int
  m_cachedVisibleTiles :: "int \<Rightarrow> MapList"
  m_visibleCreatures :: "Creature list"
  m_visibleDimension :: Size
  m_drawDimension :: Size
  m_optimizedSize :: Size
  m_tileSize :: int
  m_renderScale :: int
  m_virtualCenterOffset :: Point
  m_visibleCenterOffset :: Point
  m_rectDimension :: Rect
  m_viewMode :: ViewMode
  m_autoViewMode :: bool
  m_multifloor :: bool
  m_awareRange :: AwareRange
  m_rectCache_rect :: Rect
  m_lockedFirstVisibleFloor :: int
  m_follow :: bool
  m_followingCreature :: "Creature option"
  m_customCameraPosition :: Position
  m_moveOffset :: Point
  m_shader :: "Shader option"
  m_nextShader :: "Shader option"
  m_shaderSwitchDone :: bool
  m_fadeInTime :: real
  m_fadeOutTime :: real
  m_fadeTimer :: real
  m_drawLights :: bool
  m_drawNames :: bool
  m_drawHealthBars :: bool
  m_drawManaBar :: bool
  m_drawTexts :: bool
  m_shadowFloorIntensity :: real
  m_crosshairTexture :: "nat option"
  trace :: "Event list"

definition emit :: "Event list \<Rightarrow> MapView \<Rightarrow> MapView" where
  "emit es s = s\<lparr>trace := trace s @ es\<rparr>"

subsection \<open>Camera\<close>

definition isFollowingCreature :: "MapView \<Rightarrow> bool" where
  "isFollowingCreature s = (m_followingCreature s \<noteq> None \<and> m_follow s)"

definition getCameraPosition :: "World \<Rightarrow> MapView \<Rightarrow> Position" where
  "getCameraPosition w s =
     (case m_followingCreature s of
        Some c \<Rightarrow> if m_follow s then creaturePosition w c else m_customCameraPosition s
      | None \<Rightarrow> m_customCameraPosition s)"

definition requestVisibleTilesCacheUpdate :: "MapView \<Rightarrow> MapView" where
  "requestVisibleTilesCacheUpdate s = s\<lparr>m_mustUpdateVisibleTilesCache := True\<rparr>"

definition followCreature :: "Creature option \<Rightarrow> MapView \<Rightarrow> MapView" where
  "followCreature creature s =
     requestVisibleTilesCacheUpdate
       (s\<lparr>m_follow := True, m_followingCreature := creature,
          m_lastCameraPosition := Position0\<rparr>)"

definition setCameraPosition :: "Position \<Rightarrow> MapView \<Rightarrow> MapView" where
  "setCameraPosition pos s =
     requestVisibleTilesCacheUpdate (s\<lparr>m_follow := False, m_customCameraPosition := pos\<rparr>)"

definition onCameraMove :: "MapView \<Rightarrow> MapView" where
  \<comment> \<open>The choice of \<^verbatim>\<open>m_viewport\<close> while following a creature is outside the state.\<close>
  "onCameraMove s = s\<lparr>m_rectCache_rect := Rect0\<rparr>"

definition move :: "int \<Rightarrow> int \<Rightarrow> MapView \<Rightarrow> MapView" where
  "move x y s =
     (let ox = pt_x (m_moveOffset s) + x;
          oy = pt_y (m_moveOffset s) + y;
          tmpx = ox sdiv TILE_PIXELS;
          cam1 = (if tmpx \<noteq> 0
                  then (m_customCameraPosition s)\<lparr>pos_x := pos_x (m_customCameraPosition s) + tmpx\<rparr>
                  else m_customCameraPosition s);
          ox1 = (if tmpx \<noteq> 0 then ox smod TILE_PIXELS else ox);
          tmpy = oy sdiv TILE_PIXELS;
          cam2 = (if tmpy \<noteq> 0 then cam1\<lparr>pos_y := pos_y cam1 + tmpy\<rparr> else cam1);
          oy1 = (if tmpy \<noteq> 0 then oy smod TILE_PIXELS else oy);
          requestTilesUpdate = (tmpx \<noteq> 0 \<or> tmpy \<noteq> 0);
          s1 = s\<lparr>m_moveOffset := \<lparr>pt_x = ox1, pt_y = oy1\<rparr>,
                 m_customCameraPosition := cam2,
                 m_rectCache_rect := Rect0\<rparr>;
          s2 = (if requestTilesUpdate then requestVisibleTilesCacheUpdate s1 else s1)
      in onCameraMove s2)"

definition lockFirstVisibleFloor :: "int \<Rightarrow> MapView \<Rightarrow> MapView" where
  "lockFirstVisibleFloor firstVisibleFloor s =
     requestVisibleTilesCacheUpdate (s\<lparr>m_lockedFirstVisibleFloor := u8 firstVisibleFloor\<rparr>)"

definition unlockFirstVisibleFloor :: "MapView \<Rightarrow> MapView" where
  "unlockFirstVisibleFloor s =
     requestVisibleTilesCacheUpdate (s\<lparr>m_lockedFirstVisibleFloor := UINT8_MAX\<rparr>)"

subsection \<open>Geometry\<close>

definition updateLight :: "MapView \<Rightarrow> MapView" where
  \<comment> \<open>The ambient light handed to the light view is not part of the state.\<close>
  "updateLight s = (if \<not> m_drawLights s then s else emit [SetGlobalLight] s)"

text \<open>
  The tile size is \<^verbatim>\<open>TILE_PIXELS * (float(m_renderScale) / 100)\<close> truncated to 8 bits.
  For an 8-bit render scale the product is exact or at least 1/25 away from an
  integer, so the truncation is \<open>(TILE_PIXELS * m_renderScale) div 100\<close>.
  \<^verbatim>\<open>updateViewportDirectionCache\<close> writes only the per-direction viewport cache.
\<close>

definition updateGeometry :: "World \<Rightarrow> Size \<Rightarrow> Size \<Rightarrow> MapView \<Rightarrow> MapView" where
  "updateGeometry w visibleDimension optimizedSize s =
     (let tileSize = u8 ((TILE_PIXELS * m_renderScale s) div 100);
          drawDimension = size_add visibleDimension (Size1 3);
          bufferSize = size_mul drawDimension tileSize
      in if width bufferSize > getMaxTextureSize w \<or> height bufferSize > getMaxTextureSize w
         then emit [TraceError ''reached max zoom out''] s
         else
           let virtualCenterOffset = toPoint (size_sub (size_div drawDimension 2) (Size1 1));
               visibleCenterOffset = virtualCenterOffset;
               viewMode =
                 (if m_autoViewMode s
                  then (if tileSize \<ge> TILE_PIXELS \<and> area visibleDimension \<le> NEAR_VIEW_AREA
                        then NEAR_VIEW
                        else if tileSize \<ge> 16 \<and> area visibleDimension \<le> MID_VIEW_AREA
                        then MID_VIEW
                        else if tileSize \<ge> 8 \<and> area visibleDimension \<le> FAR_VIEW_AREA
                        then FAR_VIEW
                        else HUGE_VIEW)
                  else m_viewMode s);
               multifloor =
                 (if m_autoViewMode s then viewModeRank viewMode < viewModeRank FAR_VIEW
                  else m_multifloor s);
               s1 = s\<lparr>m_multifloor := multifloor,
                      m_viewMode := viewMode,
                      m_visibleDimension := visibleDimension,
                      m_drawDimension := drawDimension,
                      m_tileSize := tileSize,
                      m_virtualCenterOffset := virtualCenterOffset,
                      m_visibleCenterOffset := visibleCenterOffset,
                      m_optimizedSize := optimizedSize,
                      m_rectDimension := \<lparr>rect_x = 0, rect_y = 0, rect_size = bufferSize\<rparr>\<rparr>;
               s2 = emit [PoolResize bufferSize] s1;
               s3 = (if m_drawLights s2 then emit [LightViewResize] s2 else s2);
               left = min (u16 (ar_left (getAwareRange w))) (u16 (width drawDimension sdiv 2 - 1));
               top = min (u16 (ar_top (getAwareRange w))) (u16 (height drawDimension sdiv 2 - 1));
               s4 = s3\<lparr>m_awareRange :=
                        \<lparr>ar_top = top, ar_right = left + 1, ar_bottom = top + 1, ar_left = left\<rparr>,
                      m_rectCache_rect := Rect0\<rparr>
           in requestVisibleTilesCacheUpdate s4)"

definition setVisibleDimension :: "World \<Rightarrow> Size \<Rightarrow> MapView \<Rightarrow> MapView" where
  "setVisibleDimension w visibleDimension s =
     (if visibleDimension = m_visibleDimension s then s
      else if width visibleDimension smod 2 \<noteq> 1 \<or> height visibleDimension smod 2 \<noteq> 1
      then emit [TraceError ''visible dimension must be odd''] s
      else if size_less visibleDimension (Size1 3)
      then emit [TraceError ''reach max zoom in''] s
      else updateGeometry w visibleDimension (m_optimizedSize s) s)"

definition setViewMode :: "ViewMode \<Rightarrow> MapView \<Rightarrow> MapView" where
  "setViewMode viewMode s = requestVisibleTilesCacheUpdate (s\<lparr>m_viewMode := viewMode\<rparr>)"

definition setAutoViewMode :: "World \<Rightarrow> bool \<Rightarrow> MapView \<Rightarrow> MapView" where
  "setAutoViewMode w enable s =
     (let s1 = s\<lparr>m_autoViewMode := enable\<rparr>
      in if enable then updateGeometry w (m_visibleDimension s1) (m_optimizedSize s1) s1 else s1)"

definition optimizeForSize :: "World \<Rightarrow> Size \<Rightarrow> MapView \<Rightarrow> MapView" where
  "optimizeForSize w visibleSize s = updateGeometry w (m_visibleDimension s) visibleSize s"

definition setRenderScale :: "World \<Rightarrow> int \<Rightarrow> MapView \<Rightarrow> MapView" where
  "setRenderScale w scale s =
     (let s1 = s\<lparr>m_renderScale := u8 scale\<rparr>
      in updateLight (updateGeometry w (m_visibleDimension s1) (m_optimizedSize s1) s1))"

subsection \<open>Visible floors\<close>

text \<open>
  The inner \<^verbatim>\<open>while\<close> of \<^verbatim>\<open>calcFirstVisibleFloor\<close>: both positions step one floor up
  (the covered one diagonally) while that is possible and the upper floor is not
  above \<open>firstFloor\<close>; the first tile that limits the view sets \<open>firstFloor\<close> to the
  floor below it and ends the loop.
\<close>

function scanUp :: "World \<Rightarrow> bool \<Rightarrow> int \<Rightarrow> Position \<Rightarrow> Position \<Rightarrow> int" where
  "scanUp w isLook firstFloor coveredPos upperPos =
     (if \<not> fst (coveredUp coveredPos 1) then firstFloor
      else if \<not> fst (up upperPos 1) then firstFloor
      else if \<not> (pos_z (snd (up upperPos 1)) \<ge> firstFloor) then firstFloor
      else if (case getTile w (snd (up upperPos 1)) of
                 None \<Rightarrow> False | Some tile \<Rightarrow> limitsFloorsView tile (\<not> isLook))
      then u8 (pos_z (snd (up upperPos 1)) + 1)
      else if (case getTile w (snd (coveredUp coveredPos 1)) of
                 None \<Rightarrow> False | Some tile \<Rightarrow> limitsFloorsView tile isLook)
      then u8 (pos_z (snd (coveredUp coveredPos 1)) + 1)
      else scanUp w isLook firstFloor (snd (coveredUp coveredPos 1)) (snd (up upperPos 1)))"
  by pat_completeness auto
termination
  by (relation "measure (\<lambda>(w, isLook, firstFloor, coveredPos, upperPos). nat (pos_z upperPos))")
     (auto simp: up_def Let_def split: if_splits)

definition neighbours :: "(int \<times> int) list" where
  \<comment> \<open>The 3x3 loop around the camera: \<open>ix\<close> outside, \<open>iy\<close> inside.\<close>
  "neighbours = [(-1, -1), (-1, 0), (-1, 1), (0, -1), (0, 0), (0, 1), (1, -1), (1, 0), (1, 1)]"

definition checkNeighbour :: "World \<Rightarrow> Position \<Rightarrow> int \<times> int \<Rightarrow> int \<Rightarrow> int" where
  \<comment> \<open>One pass of the loop body, under the loops' condition \<^verbatim>\<open>firstFloor < cameraPosition.z\<close>.\<close>
  "checkNeighbour w cameraPosition n firstFloor =
     (if \<not> (firstFloor < pos_z cameraPosition) then firstFloor
      else
        let ix = fst n; iy = snd n; pos = translated cameraPosition ix iy
        in if (ix = 0 \<and> iy = 0) \<or> (\<bar>ix\<bar> \<noteq> \<bar>iy\<bar> \<and> isLookPossible w pos)
           then scanUp w (isLookPossible w pos) firstFloor pos pos
           else firstFloor)"

definition calcFirstVisibleFloor :: "World \<Rightarrow> MapView \<Rightarrow> int" where
  "calcFirstVisibleFloor w s =
     (let z =
        (if m_lockedFirstVisibleFloor s \<noteq> UINT8_MAX then m_lockedFirstVisibleFloor s
         else
           let cameraPosition = getCameraPosition w s
           in if isValid cameraPosition
              then (if \<not> m_multifloor s then u8 (pos_z cameraPosition)
                    else
                      let firstFloor =
                            (if pos_z cameraPosition > SEA_FLOOR
                             then max (u8 (pos_z cameraPosition - AWARE_UNDEGROUND_FLOOR_RANGE))
                                      (u8 UNDERGROUND_FLOOR)
                             else 0)
                      in fold (checkNeighbour w cameraPosition) neighbours firstFloor)
              else SEA_FLOOR)
      in u8 (clamp z 0 MAX_Z))"

definition calcLastVisibleFloor :: "World \<Rightarrow> MapView \<Rightarrow> int" where
  "calcLastVisibleFloor w s =
     (if \<not> m_multifloor s then calcFirstVisibleFloor w s
      else
        let cameraPosition = getCameraPosition w s;
            z0 = (if isValid cameraPosition
                  then (if pos_z cameraPosition > SEA_FLOOR
                        then u8 (pos_z cameraPosition + AWARE_UNDEGROUND_FLOOR_RANGE)
                        else SEA_FLOOR)
                  else SEA_FLOOR);
            z1 = (if m_lockedFirstVisibleFloor s \<noteq> UINT8_MAX
                  then u8 (max (m_lockedFirstVisibleFloor s) z0) else z0)
        in u8 (clamp z1 0 MAX_Z))"

subsection \<open>The visibility cache\<close>

definition onFloorChange :: "int \<Rightarrow> int \<Rightarrow> MapView \<Rightarrow> MapView" where
  "onFloorChange newFloor previousFloor s =
     updateLight
       ((emit [OnFloorChange newFloor previousFloor] s)\<lparr>m_mustUpdateVisibleCreaturesCache := True\<rparr>)"

definition cameraChanged :: "World \<Rightarrow> Position \<Rightarrow> MapView \<Rightarrow> MapView" where
  \<comment> \<open>The body of \<^verbatim>\<open>if(m_lastCameraPosition != cameraPosition)\<close>; of \<^verbatim>\<open>onMouseMove\<close>
      and \<^verbatim>\<open>onPositionChange\<close> the trace keeps the call.\<close>
  "cameraChanged w cameraPosition s =
     (let lastPos = m_lastCameraPosition s;
          s1 = (if isValid (m_mousePosition s)
                then
                  let mp = (if pos_z cameraPosition = pos_z lastPos
                            then mouseShift w lastPos cameraPosition (m_mousePosition s)
                            else (m_mousePosition s)
                                   \<lparr>pos_z := pos_z (m_mousePosition s)
                                              + (pos_z cameraPosition - pos_z lastPos)\<rparr>)
                  in emit [OnMouseMove mp True] (s\<lparr>m_mousePosition := mp\<rparr>)
                else s);
          s2 = emit [OnPositionChange cameraPosition lastPos] s1
      in if pos_z lastPos \<noteq> pos_z cameraPosition
         then onFloorChange (u8 (pos_z cameraPosition)) (u8 (pos_z lastPos)) s2
         else s2)"

text \<open>
  \<^verbatim>\<open>do { m_cachedVisibleTiles[m_floorMin].clear(); } while(++m_floorMin <= m_floorMax);\<close>
  on floor bounds inside the array (the caller checks them), where the 8-bit counter
  cannot wrap.
\<close>

function clearFloors :: "int \<Rightarrow> int \<Rightarrow> (int \<Rightarrow> MapList) \<Rightarrow> (int \<Rightarrow> MapList)" where
  "clearFloors floorMin floorMax tiles =
     (let tiles1 = tiles(floorMin := MapList_clear)
      in if floorMin + 1 \<le> floorMax then clearFloors (floorMin + 1) floorMax tiles1 else tiles1)"
  by pat_completeness auto
termination
  by (relation "measure (\<lambda>(floorMin, floorMax, tiles). nat (floorMax - floorMin))") auto

definition isInRange :: "World \<Rightarrow> MapView \<Rightarrow> Position \<Rightarrow> bool \<Rightarrow> bool" where
  "isInRange w s pos ignoreZ =
     posInRange w (getCameraPosition w s) pos
       (ar_left (m_awareRange s) - 1) (ar_right (m_awareRange s) - 2)
       (ar_top (m_awareRange s) - 1) (ar_bottom (m_awareRange s) - 2) ignoreZ"

definition tilePosAt :: "MapView \<Rightarrow> Position \<Rightarrow> int \<Rightarrow> int \<Rightarrow> int \<Rightarrow> Position" where
  \<comment> \<open>The position of grid cell \<open>(ix, iy)\<close> on floor \<open>iz\<close>; a refused \<open>coveredUp\<close> leaves
      the position on the camera's floor.\<close>
  "tilePosAt s cameraPosition iz ix iy =
     snd (coveredUp
            (translated cameraPosition (ix - pt_x (m_virtualCenterOffset s))
                                       (iy - pt_y (m_virtualCenterOffset s)))
            (pos_z cameraPosition - iz))"

definition addVisibleTile :: "int \<Rightarrow> Tile \<Rightarrow> MapView \<Rightarrow> MapView" where
  \<comment> \<open>The tail of the loop body, for a tile that is not culled.\<close>
  "addVisibleTile iz tile s =
     (let floor0 = m_cachedVisibleTiles s iz;
          floor1 = (if hasGround tile then floor0\<lparr>grounds := grounds floor0 @ [tile]\<rparr> else floor0);
          floor2 = (if hasGroundBorderToDraw tile
                    then floor1\<lparr>borders := borders floor1 @ [tile]\<rparr> else floor1);
          floor3 = (if hasBottomOrTopToDraw tile
                    then floor2\<lparr>bottomTops := bottomTops floor2 @ [tile]\<rparr> else floor2);
          s1 = emit [OnAddVisibleTileList tile]
                 (s\<lparr>m_cachedVisibleTiles := (m_cachedVisibleTiles s)(iz := floor3)\<rparr>)
      in if iz < m_floorMin s1 then s1\<lparr>m_floorMin := iz\<rparr>
         else if iz > m_floorMax s1 then s1\<lparr>m_floorMax := iz\<rparr>
         else s1)"

definition visitCell :: "World \<Rightarrow> Position \<Rightarrow> int \<Rightarrow> int \<Rightarrow> int \<Rightarrow> MapView \<Rightarrow> MapView" where
  "visitCell w cameraPosition iz ix iy s =
     (let tilePos = tilePosAt s cameraPosition iz ix iy
      in case getTile w tilePos of
           None \<Rightarrow> s
         | Some tile \<Rightarrow>
             if \<not> isDrawable tile then s
             else
               let s1 = (if m_mustUpdateVisibleCreaturesCache s
                            \<and> isInRange w s tilePos False \<and> getCreatures tile \<noteq> []
                         then s\<lparr>m_visibleCreatures :=
                                  m_visibleCreatures s @ rev (getCreatures tile)\<rparr>
                         else s)
               in if isCompletelyCovered tile (m_cachedFirstVisibleFloor s1) \<and> \<not> hasLight tile
                  then s1
                  else addVisibleTile iz tile s1)"

text \<open>
  The three nested loops of the sweep, with the loop body as a parameter. The
  draw dimension, the number of diagonals and the first floor are read once: the
  body does not write them. \<^verbatim>\<open>std::max<uint32>(diagonal - height, 0)\<close> compares
  its arguments as unsigned 32-bit values, and \<open>iy\<close> and \<open>ix\<close> are \<^verbatim>\<open>int\<close>.
\<close>

function sweepDiagonal :: "(int \<Rightarrow> int \<Rightarrow> 's \<Rightarrow> 's) \<Rightarrow> int \<Rightarrow> int \<Rightarrow> int \<Rightarrow> 's \<Rightarrow> 's" where
  "sweepDiagonal body w iy ix s =
     (if iy \<ge> 0 \<and> ix < w then sweepDiagonal body w (iy - 1) (ix + 1) (body ix iy s) else s)"
  by pat_completeness auto
termination
  by (relation "measure (\<lambda>(body, w, iy, ix, s). nat (iy + 1))") auto

function sweepDiagonals ::
  "(int \<Rightarrow> int \<Rightarrow> 's \<Rightarrow> 's) \<Rightarrow> Size \<Rightarrow> int \<Rightarrow> int \<Rightarrow> 's \<Rightarrow> 's" where
  "sweepDiagonals body drawDim numDiagonals diagonal s =
     (if diagonal < numDiagonals
      then
        let advance = max (u32 (diagonal - height drawDim)) (u32 0);
            iy = s32 (diagonal - advance);
            ix = s32 advance
        in sweepDiagonals body drawDim numDiagonals (diagonal + 1)
             (sweepDiagonal body (width drawDim) iy ix s)
      else s)"
  by pat_completeness auto
termination
  by (relation "measure (\<lambda>(body, drawDim, numDiagonals, diagonal, s). nat (numDiagonals - diagonal))")
     auto

function sweepFloors ::
  "(int \<Rightarrow> int \<Rightarrow> int \<Rightarrow> 's \<Rightarrow> 's) \<Rightarrow> Size \<Rightarrow> int \<Rightarrow> int \<Rightarrow> 's \<Rightarrow> 's" where
  "sweepFloors body drawDim firstFloor iz s =
     (if iz \<ge> firstFloor
      then sweepFloors body drawDim firstFloor (iz - 1)
             (sweepDiagonals (body iz) drawDim (u32 (width drawDim + height drawDim - 1)) 0 s)
      else s)"
  by pat_completeness auto
termination
  by (relation "measure (\<lambda>(body, drawDim, firstFloor, iz, s). nat (iz - firstFloor + 1))") auto

text \<open>
  \<^verbatim>\<open>m_cachedVisibleTiles\<close> is an array of \<open>MAX_Z + 1\<close> floors. Clearing a floor outside
  it is undefined behaviour: the result \<open>None\<close>.
\<close>

definition updateVisibleTilesCache :: "World \<Rightarrow> MapView \<Rightarrow> MapView option" where
  "updateVisibleTilesCache w s =
     (let cameraPosition = getCameraPosition w s
      in if \<not> isValid cameraPosition then Some s
         else
           let s1 = s\<lparr>m_mustUpdateVisibleTilesCache := False\<rparr>;
               s2 = (if m_lastCameraPosition s1 \<noteq> cameraPosition
                     then cameraChanged w cameraPosition s1 else s1);
               cachedFirstVisibleFloor = calcFirstVisibleFloor w s2;
               cachedLastVisibleFloor0 = calcLastVisibleFloor w s2;
               cachedLastVisibleFloor =
                 (if cachedLastVisibleFloor0 < cachedFirstVisibleFloor
                  then cachedFirstVisibleFloor else cachedLastVisibleFloor0);
               s3 = s2\<lparr>m_lastCameraPosition := cameraPosition,
                       m_cachedFirstVisibleFloor := cachedFirstVisibleFloor,
                       m_cachedLastVisibleFloor := cachedLastVisibleFloor\<rparr>
           in if \<not> (0 \<le> m_floorMin s3 \<and> m_floorMin s3 \<le> MAX_Z \<and> m_floorMax s3 \<le> MAX_Z)
              then None
              else
                let s4 = s3\<lparr>m_cachedVisibleTiles :=
                             clearFloors (m_floorMin s3) (m_floorMax s3) (m_cachedVisibleTiles s3)\<rparr>;
                    s5 = s4\<lparr>m_floorMin := u8 (pos_z cameraPosition),
                            m_floorMax := u8 (pos_z cameraPosition)\<rparr>;
                    s6 = (if m_mustUpdateVisibleCreaturesCache s5
                          then s5\<lparr>m_visibleCreatures := []\<rparr> else s5);
                    s7 = sweepFloors (visitCell w cameraPosition) (m_drawDimension s6)
                           (m_cachedFirstVisibleFloor s6) (m_cachedLastVisibleFloor s6) s6
                in Some (s7\<lparr>m_mustUpdateVisibleCreaturesCache := False,
                             m_mustUpdateVisibleTilesCache := False\<rparr>))"

subsection \<open>Drawing\<close>

definition shadeGround :: "World \<Rightarrow> Tile \<Rightarrow> Event list" where
  \<comment> \<open>The light view's shading for one ground tile of the floor above; the flag of
      \<open>LightSetShade\<close> says whether the point was moved up-left by one tile.\<close>
  "shadeGround w tile =
     (case getGround tile of
        None \<Rightarrow> []
      | Some ground \<Rightarrow>
          if isTranslucent ground then []
          else if ground_isTopGround ground
          then
            (if list_ex (\<lambda>pos. case getTile w pos of
                                  None \<Rightarrow> False
                                | Some nextDownTile \<Rightarrow>
                                    hasGround nextDownTile \<and> \<not> isTopGround nextDownTile)
                        [translated (getPosition tile) 0 1, translated (getPosition tile) 1 0]
             then [LightSetShade (getPosition tile) False] else [])
            @ [LightSetShade (getPosition tile) True]
          else [LightSetShade (getPosition tile) False])"

definition drawOneFloor :: "World \<Rightarrow> MapView \<Rightarrow> Position \<Rightarrow> int \<Rightarrow> Event list" where
  "drawOneFloor w s cameraPosition z =
     (if m_drawLights s \<and> z - 1 \<ge> m_floorMin s
      then LightSetFloor (z - 1)
           # concat (map (shadeGround w) (grounds (m_cachedVisibleTiles s (z - 1))))
      else [])
     @ [OnFloorDrawingStart z]
     @ (if m_drawLights s then [LightSetFloor z] else [])
     @ map DrawGround (grounds (m_cachedVisibleTiles s z))
     @ map DrawGroundBorder (borders (m_cachedVisibleTiles s z))
     @ map DrawTile (bottomTops (m_cachedVisibleTiles s z))
     @ map DrawMissile (getFloorMissiles w z)
     @ (if m_shadowFloorIntensity s > 0 \<and> z = pos_z cameraPosition + 1 then [AddFilledRect, FloorShadow]
        else [])
     @ [OnFloorDrawingEnd z]"

definition drawFloorCalls :: "World \<Rightarrow> MapView \<Rightarrow> Event list" where
  \<comment> \<open>The calls of \<^verbatim>\<open>drawFloor\<close>, in order: the map pool, the black background, the
      floors from \<^verbatim>\<open>m_floorMax\<close> down to \<^verbatim>\<open>m_floorMin\<close>, the crosshair.\<close>
  "drawFloorCalls w s =
     [UsePool MAP, AddFilledRect]
     @ concat (map (drawOneFloor w s (getCameraPosition w s)) (rev [m_floorMin s..m_floorMax s]))
     @ (if m_crosshairTexture s \<noteq> None \<and> isValid (m_mousePosition s)
        then [DrawCrosshair (m_mousePosition s)] else [])"

text \<open>
  Reading a floor outside the array \<^verbatim>\<open>m_cachedVisibleTiles\<close> is undefined behaviour:
  the result \<open>None\<close>.
\<close>

definition drawFloor :: "World \<Rightarrow> MapView \<Rightarrow> MapView option" where
  "drawFloor w s =
     (if m_floorMin s \<le> m_floorMax s \<and> \<not> (0 \<le> m_floorMin s \<and> m_floorMax s \<le> MAX_Z) then None
      else Some (emit (drawFloorCalls w s) s))"

definition drawCreatureInformation :: "MapView \<Rightarrow> MapView" where
  "drawCreatureInformation s =
     (if \<not> m_drawNames s \<and> \<not> m_drawHealthBars s \<and> \<not> m_drawManaBar s then s
      else emit
             (UsePool CREATURE_INFORMATION
              # map (\<lambda>creature. DrawInformation creature (m_drawNames s) (m_drawHealthBars s)
                                   (m_drawManaBar s))
                    (m_visibleCreatures s))
             s)"

definition drawText :: "World \<Rightarrow> MapView \<Rightarrow> MapView" where
  "drawText w s =
     (if \<not> m_drawTexts s \<or> (getStaticTexts w = [] \<and> getAnimatedTexts w = []) then s
      else
        let cameraPosition = getCameraPosition w s
        in emit
             (UsePool TEXT
              # map (\<lambda>staticText. DrawStaticText (st_position staticText))
                    (filter (\<lambda>staticText. \<not> st_messageNone staticText
                                \<and> pos_z (st_position staticText) = pos_z cameraPosition)
                            (getStaticTexts w))
              @ map DrawAnimatedText
                    (filter (\<lambda>pos. pos_z pos = pos_z cameraPosition) (getAnimatedTexts w)))
             s)"

definition draw :: "World \<Rightarrow> Rect \<Rightarrow> MapView \<Rightarrow> MapView option" where
  "draw w rect s =
     (case (if m_mustUpdateVisibleTilesCache s then updateVisibleTilesCache w s else Some s) of
        None \<Rightarrow> None
      | Some s1 \<Rightarrow>
          let s2 = (if m_rectCache_rect s1 \<noteq> rect then s1\<lparr>m_rectCache_rect := rect\<rparr> else s1)
          in case drawFloor w s2 of
               None \<Rightarrow> None
             | Some s3 \<Rightarrow>
                 if \<not> isValid (getCameraPosition w s3) then Some s3
                 else
                   let s4 = drawCreatureInformation s3;
                       s5 = (if m_drawLights s4 then emit [LightViewDraw rect] s4 else s4)
                   in Some (drawText w s5))"

subsection \<open>Shader fading\<close>

text \<open>
  The fade timer is read against the clock \<open>now\<close> of the frame, a real number;
  \<^verbatim>\<open>restart\<close> stores \<open>now\<close>. The float arithmetic of the source is read as exact
  arithmetic. Binding the shader and its uniforms is one trace entry.
\<close>

definition setShader ::
  "World \<Rightarrow> real \<Rightarrow> Shader option \<Rightarrow> real \<Rightarrow> real \<Rightarrow> MapView \<Rightarrow> MapView" where
  "setShader w now shader fadein fadeout s =
     (if m_shader s = shader then s
      else
        let s1 = (if fadeout > 0 \<and> m_shader s \<noteq> None
                  then s\<lparr>m_nextShader := shader, m_shaderSwitchDone := False\<rparr>
                  else s\<lparr>m_shader := shader, m_nextShader := None, m_shaderSwitchDone := True\<rparr>);
            s2 = s1\<lparr>m_fadeTimer := now, m_fadeInTime := fadein, m_fadeOutTime := fadeout\<rparr>
        in case shader of
             None \<Rightarrow> s2
           | Some sh \<Rightarrow> emit [ShaderSetPosition sh (getCameraPosition w s2)] s2)"

definition fadeOutOpacity :: "real \<Rightarrow> MapView \<Rightarrow> real" where
  \<comment> \<open>\<^verbatim>\<open>fadeOpacity\<close> after the first \<^verbatim>\<open>if\<close> of the \<^verbatim>\<open>onBeforeDraw\<close> callback.\<close>
  "fadeOutOpacity now s =
     (if \<not> m_shaderSwitchDone s \<and> m_fadeOutTime s > 0
      then 1 - (now - m_fadeTimer s) / m_fadeOutTime s else 1)"

definition onBeforeDraw :: "World \<Rightarrow> real \<Rightarrow> MapView \<Rightarrow> MapView" where
  "onBeforeDraw w now s =
     (let fadeOpacity0 = fadeOutOpacity now s;
          s1 = (if \<not> m_shaderSwitchDone s \<and> m_fadeOutTime s > 0 \<and> fadeOpacity0 < 0
                then s\<lparr>m_shader := m_nextShader s, m_nextShader := None,
                       m_shaderSwitchDone := True, m_fadeTimer := now\<rparr>
                else s);
          fadeOpacity = (if m_shaderSwitchDone s1 \<and> m_shader s1 \<noteq> None \<and> m_fadeInTime s1 > 0
                         then min ((now - m_fadeTimer s1) / m_fadeInTime s1) 1
                         else fadeOpacity0);
          s2 = (case m_shader s1 of
                  None \<Rightarrow> s1
                | Some sh \<Rightarrow> if useShaders w then emit [BindShader sh] s1 else s1)
      in emit [PainterSetOpacity fadeOpacity] s2)"

definition onAfterDraw :: "MapView \<Rightarrow> MapView" where
  "onAfterDraw s = emit [PainterResetShaderProgram, PainterResetOpacity] s"

definition frameAt :: "World \<Rightarrow> real \<Rightarrow> MapView \<Rightarrow> MapView" where
  \<comment> \<open>One drawing of the map pool at clock \<open>now\<close>: the two callbacks around it.\<close>
  "frameAt w now s = onAfterDraw (onBeforeDraw w now s)"

definition drawFrames :: "World \<Rightarrow> real list \<Rightarrow> MapView \<Rightarrow> MapView" where
  \<comment> \<open>The frames drawn at the given clock readings, one after another.\<close>
  "drawFrames w frameTimes s = fold (frameAt w) frameTimes s"

definition frameOpacity :: "World \<Rightarrow> real \<Rightarrow> MapView \<Rightarrow> real" where
  \<comment> \<open>The opacity handed to the painter by the frame drawn at \<open>now\<close>.\<close>
  "frameOpacity w now s =
     (case last (trace (onBeforeDraw w now s)) of PainterSetOpacity v \<Rightarrow> v | _ \<Rightarrow> 1)"

subsection \<open>Read-outs used by the statements\<close>

definition exceedsMaxTexture :: "World \<Rightarrow> MapView \<Rightarrow> Size \<Rightarrow> bool" where
  \<comment> \<open>The rejection test of \<^verbatim>\<open>updateGeometry\<close>: the buffer of the draw dimension, in
      pixels, against the backend's largest texture.\<close>
  "exceedsMaxTexture w s visibleDimension =
     (let tileSize = u8 ((TILE_PIXELS * m_renderScale s) div 100);
          bufferSize = size_mul (size_add visibleDimension (Size1 3)) tileSize
      in width bufferSize > getMaxTextureSize w \<or> height bufferSize > getMaxTextureSize w)"

definition geometry :: "MapView \<Rightarrow> Size \<times> Size \<times> int \<times> ViewMode \<times> AwareRange" where
  "geometry s =
     (m_visibleDimension s, m_drawDimension s, m_tileSize s, m_viewMode s, m_awareRange s)"

definition acceptedDimension :: "Size \<Rightarrow> bool" where
  \<comment> \<open>A visible dimension that passes both tests of \<open>setVisibleDimension\<close>.\<close>
  "acceptedDimension d =
     (width d smod 2 = 1 \<and> height d smod 2 = 1 \<and> \<not> size_less d (Size1 3))"

definition bucketTiles :: "MapView \<Rightarrow> int \<Rightarrow> Tile set" where
  \<comment> \<open>The tiles in the three buckets of floor \<open>z\<close>.\<close>
  "bucketTiles s z =
     set (grounds (m_cachedVisibleTiles s z)) \<union> set (borders (m_cachedVisibleTiles s z))
     \<union> set (bottomTops (m_cachedVisibleTiles s z))"

definition cacheInv :: "MapView \<Rightarrow> bool" where
  \<comment> \<open>The floor bounds lie in the array and every floor outside them is empty.\<close>
  "cacheInv s =
     (0 \<le> m_floorMin s \<and> m_floorMin s \<le> m_floorMax s \<and> m_floorMax s \<le> MAX_Z
      \<and> (\<forall>z. z < m_floorMin s \<or> m_floorMax s < z \<longrightarrow> m_cachedVisibleTiles s z = MapList_clear))"

definition floorBoundsInArray :: "MapView \<Rightarrow> bool" where
  \<comment> \<open>The test of \<open>updateVisibleTilesCache\<close> before it clears the floors.\<close>
  "floorBoundsInArray s = (0 \<le> m_floorMin s \<and> m_floorMin s \<le> MAX_Z \<and> m_floorMax s \<le> MAX_Z)"

definition sweepFrame :: "MapView \<Rightarrow> MapView" where
  \<comment> \<open>The state without the members that the sweep writes.\<close>
  "sweepFrame s =
     s\<lparr>m_visibleCreatures := [], m_cachedVisibleTiles := (\<lambda>z. MapList_clear),
       m_floorMin := 0, m_floorMax := 0, trace := []\<rparr>"

definition sweepStart :: "World \<Rightarrow> MapView \<Rightarrow> MapView" where
  \<comment> \<open>The state of \<open>updateVisibleTilesCache\<close> when its loops begin.\<close>
  "sweepStart w s =
     (let cameraPosition = getCameraPosition w s;
          s1 = s\<lparr>m_mustUpdateVisibleTilesCache := False\<rparr>;
          s2 = (if m_lastCameraPosition s1 \<noteq> cameraPosition
                then cameraChanged w cameraPosition s1 else s1);
          cachedFirstVisibleFloor = calcFirstVisibleFloor w s2;
          cachedLastVisibleFloor0 = calcLastVisibleFloor w s2;
          cachedLastVisibleFloor =
            (if cachedLastVisibleFloor0 < cachedFirstVisibleFloor
             then cachedFirstVisibleFloor else cachedLastVisibleFloor0);
          s3 = s2\<lparr>m_lastCameraPosition := cameraPosition,
                  m_cachedFirstVisibleFloor := cachedFirstVisibleFloor,
                  m_cachedLastVisibleFloor := cachedLastVisibleFloor\<rparr>;
          s4 = s3\<lparr>m_cachedVisibleTiles :=
                    clearFloors (m_floorMin s3) (m_floorMax s3) (m_cachedVisibleTiles s3)\<rparr>;
          s5 = s4\<lparr>m_floorMin := u8 (pos_z cameraPosition),
                  m_floorMax := u8 (pos_z cameraPosition)\<rparr>
      in if m_mustUpdateVisibleCreaturesCache s5 then s5\<lparr>m_visibleCreatures := []\<rparr> else s5)"

definition sweepCells :: "Size \<Rightarrow> int \<Rightarrow> int \<Rightarrow> (int \<times> int \<times> int) list" where
  \<comment> \<open>The cells \<open>(iz, ix, iy)\<close> in the order in which the sweep visits them.\<close>
  "sweepCells drawDim firstFloor lastFloor =
     sweepFloors (\<lambda>iz ix iy acc. acc @ [(iz, ix, iy)]) drawDim firstFloor lastFloor []"

definition cellCreatures :: "World \<Rightarrow> MapView \<Rightarrow> int \<times> int \<times> int \<Rightarrow> Creature list" where
  \<comment> \<open>The creatures a cell contributes: those of its tile, topmost first, when the
      tile is drawable and in range.\<close>
  "cellCreatures w s c =
     (case c of (iz, ix, iy) \<Rightarrow>
        (case getTile w (tilePosAt s (getCameraPosition w s) iz ix iy) of
           None \<Rightarrow> []
         | Some tile \<Rightarrow>
             if isDrawable tile \<and> isInRange w s (tilePosAt s (getCameraPosition w s) iz ix iy) False
             then rev (getCreatures tile) else []))"

definition overlayPasses :: "World \<Rightarrow> Rect \<Rightarrow> MapView \<Rightarrow> MapView" where
  \<comment> \<open>The three passes of \<open>draw\<close> after the floor pass: creature information, light,
      text.\<close>
  "overlayPasses w rect s =
     drawText w
       (if m_drawLights (drawCreatureInformation s)
        then emit [LightViewDraw rect] (drawCreatureInformation s)
        else drawCreatureInformation s)"

fun isOverlayEvent :: "Event \<Rightarrow> bool" where
  "isOverlayEvent (UsePool CREATURE_INFORMATION) = True"
| "isOverlayEvent (UsePool TEXT) = True"
| "isOverlayEvent (DrawInformation c n h m) = True"
| "isOverlayEvent (LightViewDraw r) = True"
| "isOverlayEvent (DrawStaticText p) = True"
| "isOverlayEvent (DrawAnimatedText p) = True"
| "isOverlayEvent e = False"

fun isPositionChange :: "Event \<Rightarrow> bool" where
  "isPositionChange (OnPositionChange p q) = True"
| "isPositionChange e = False"

fun isRefreshEvent :: "Event \<Rightarrow> bool" where
  \<comment> \<open>The calls of \<open>onFloorChange\<close> and of the light update it makes.\<close>
  "isRefreshEvent (OnFloorChange newFloor previousFloor) = True"
| "isRefreshEvent SetGlobalLight = True"
| "isRefreshEvent e = False"

subsection \<open>Example data\<close>

definition exampleTile :: Tile where
  "exampleTile =
     \<lparr>getPosition = \<lparr>pos_x = 100, pos_y = 100, pos_z = 7\<rparr>, isDrawable = True, hasGround = True,
      hasGroundBorderToDraw = False, hasBottomOrTopToDraw = True, hasLight = False,
      isCompletelyCovered = (\<lambda>z. False), limitsFloorsView = (\<lambda>b. False),
      getCreatures = [1], getGround = Some \<lparr>isTranslucent = False, ground_isTopGround = False\<rparr>,
      isTopGround = False\<rparr>"

definition coveredTile :: Tile where
  "coveredTile =
     \<lparr>getPosition = \<lparr>pos_x = 101, pos_y = 100, pos_z = 7\<rparr>, isDrawable = True, hasGround = True,
      hasGroundBorderToDraw = False, hasBottomOrTopToDraw = False, hasLight = False,
      isCompletelyCovered = (\<lambda>z. True), limitsFloorsView = (\<lambda>b. False),
      getCreatures = [2, 3], getGround = Some \<lparr>isTranslucent = False, ground_isTopGround = False\<rparr>,
      isTopGround = False\<rparr>"

definition exampleWorld :: World where
  "exampleWorld =
     \<lparr>getTile = (\<lambda>p. if p = \<lparr>pos_x = 100, pos_y = 100, pos_z = 7\<rparr> then Some exampleTile
                     else if p = \<lparr>pos_x = 101, pos_y = 100, pos_z = 7\<rparr> then Some coveredTile
                     else None),
      isLookPossible = (\<lambda>p. True),
      creaturePosition = (\<lambda>c. \<lparr>pos_x = 100, pos_y = 100, pos_z = 7\<rparr>),
      posInRange = (\<lambda>c p l r t b i. True),
      mouseShift = (\<lambda>l c m. m),
      getAwareRange = \<lparr>ar_top = 6, ar_right = 9, ar_bottom = 7, ar_left = 8\<rparr>,
      getMaxTextureSize = 4096,
      getFloorMissiles = (\<lambda>z. []),
      getStaticTexts = [],
      getAnimatedTexts = [],
      useShaders = True\<rparr>"

definition exampleView :: MapView where
  \<comment> \<open>A 15x11 viewport at full zoom with the camera fixed at \<open>(100, 100, 7)\<close>.\<close>
  "exampleView =
     \<lparr>m_mustUpdateVisibleTilesCache = True,
      m_mustUpdateVisibleCreaturesCache = True,
      m_lastCameraPosition = \<lparr>pos_x = 100, pos_y = 100, pos_z = 7\<rparr>,
      m_mousePosition = Position0,
      m_cachedFirstVisibleFloor = 0,
      m_cachedLastVisibleFloor = 7,
      m_floorMin = 7,
      m_floorMax = 7,
      m_cachedVisibleTiles = (\<lambda>z. MapList_clear),
      m_visibleCreatures = [],
      m_visibleDimension = \<lparr>width = 15, height = 11\<rparr>,
      m_drawDimension = \<lparr>width = 18, height = 14\<rparr>,
      m_optimizedSize = \<lparr>width = 576, height = 448\<rparr>,
      m_tileSize = 32,
      m_renderScale = 100,
      m_virtualCenterOffset = \<lparr>pt_x = 8, pt_y = 6\<rparr>,
      m_visibleCenterOffset = \<lparr>pt_x = 8, pt_y = 6\<rparr>,
      m_rectDimension = \<lparr>rect_x = 0, rect_y = 0, rect_size = \<lparr>width = 576, height = 448\<rparr>\<rparr>,
      m_viewMode = NEAR_VIEW,
      m_autoViewMode = True,
      m_multifloor = True,
      m_awareRange = \<lparr>ar_top = 6, ar_right = 9, ar_bottom = 7, ar_left = 8\<rparr>,
      m_rectCache_rect = Rect0,
      m_lockedFirstVisibleFloor = 255,
      m_follow = False,
      m_followingCreature = None,
      m_customCameraPosition = \<lparr>pos_x = 100, pos_y = 100, pos_z = 7\<rparr>,
      m_moveOffset = \<lparr>pt_x = 0, pt_y = 0\<rparr>,
      m_shader = Some 0,
      m_nextShader = None,
      m_shaderSwitchDone = True,
      m_fadeInTime = 0,
      m_fadeOutTime = 0,
      m_fadeTimer = 0,
      m_drawLights = False,
      m_drawNames = True,
      m_drawHealthBars = True,
      m_drawManaBar = True,
      m_drawTexts = True,
      m_shadowFloorIntensity = 0,
      m_crosshairTexture = None,
      trace = []\<rparr>"

definition followingView :: MapView where
  \<comment> \<open>The example viewport while it follows creature 1.\<close>
  "followingView = exampleView\<lparr>m_follow := True, m_followingCreature := Some 1\<rparr>"

definition litView :: MapView where
  \<comment> \<open>The example viewport with the light pass on.\<close>
  "litView = exampleView\<lparr>m_drawLights := True\<rparr>"

definition farWorld :: World where
  \<comment> \<open>The example world with creature 4 standing far away on the same floor.\<close>
  "farWorld =
     exampleWorld\<lparr>creaturePosition :=
       (\<lambda>c. if c = 4 then \<lparr>pos_x = 5000, pos_y = 5000, pos_z = 7\<rparr>
            else \<lparr>pos_x = 100, pos_y = 100, pos_z = 7\<rparr>)\<rparr>"

definition unknownWorld :: World where
  \<comment> \<open>The example world while the position of its creatures is not known.\<close>
  "unknownWorld = exampleWorld\<lparr>creaturePosition := (\<lambda>c. Position0)\<rparr>"

section \<open>Camera panning\<close>

lemma sdiv_mult_TILE: "(k * TILE_PIXELS) sdiv TILE_PIXELS = k"
  by (simp add: signed_divide_int_def TILE_PIXELS_def abs_mult sgn_mult mult_sgn_abs)

lemma smod_mult_TILE: "(k * TILE_PIXELS) smod TILE_PIXELS = 0"
  by (simp add: signed_modulo_int_def TILE_PIXELS_def abs_mult)

lemma sdiv_neg_mult_TILE: "(- (k * TILE_PIXELS)) sdiv TILE_PIXELS = - k"
  using sdiv_mult_TILE [of "- k"] by simp

lemma smod_neg_mult_TILE: "(- (k * TILE_PIXELS)) smod TILE_PIXELS = 0"
  using smod_mult_TILE [of "- k"] by simp

lemma sdiv_smod_TILE: "(a sdiv TILE_PIXELS) * TILE_PIXELS + a smod TILE_PIXELS = a"
proof -
  define q where "q = \<bar>a\<bar> div 32"
  define r where "r = \<bar>a\<bar> mod 32"
  have e: "q * 32 + r = \<bar>a\<bar>" by (simp add: q_def r_def)
  have "sgn a * (q * 32 + r) = a" unfolding e by (rule mult_sgn_abs)
  then have "sgn a * q * 32 + sgn a * r = a" by (simp add: algebra_simps)
  then show ?thesis
    by (simp add: signed_divide_int_def signed_modulo_int_def TILE_PIXELS_def q_def r_def)
qed

lemma sdiv_zero_smod_TILE: "a sdiv TILE_PIXELS = 0 \<Longrightarrow> a smod TILE_PIXELS = a"
  using sdiv_smod_TILE [of a] by simp

lemma zero_sdiv_TILE: "(0::int) sdiv TILE_PIXELS = 0"
  by (simp add: signed_divide_int_def)

lemma zero_smod_TILE: "(0::int) smod TILE_PIXELS = 0"
  by (simp add: signed_modulo_int_def)

lemma move_camera_x:
  "pos_x (m_customCameraPosition (move x y s))
     = pos_x (m_customCameraPosition s) + (pt_x (m_moveOffset s) + x) sdiv TILE_PIXELS"
  by (simp add: move_def Let_def onCameraMove_def requestVisibleTilesCacheUpdate_def)

lemma move_offset_x:
  "pt_x (m_moveOffset (move x y s)) = (pt_x (m_moveOffset s) + x) smod TILE_PIXELS"
  by (simp add: move_def Let_def onCameraMove_def requestVisibleTilesCacheUpdate_def
      sdiv_zero_smod_TILE)

lemma move_camera_y:
  "pos_y (m_customCameraPosition (move x y s))
     = pos_y (m_customCameraPosition s) + (pt_y (m_moveOffset s) + y) sdiv TILE_PIXELS"
  by (simp add: move_def Let_def onCameraMove_def requestVisibleTilesCacheUpdate_def)

lemma move_offset_y:
  "pt_y (m_moveOffset (move x y s)) = (pt_y (m_moveOffset s) + y) smod TILE_PIXELS"
  by (simp add: move_def Let_def onCameraMove_def requestVisibleTilesCacheUpdate_def
      sdiv_zero_smod_TILE)

lemma move_camera_z:
  "pos_z (m_customCameraPosition (move x y s)) = pos_z (m_customCameraPosition s)"
  by (simp add: move_def Let_def onCameraMove_def requestVisibleTilesCacheUpdate_def)

lemma move_request:
  "m_mustUpdateVisibleTilesCache (move x y s) =
     (m_mustUpdateVisibleTilesCache s
      \<or> (pt_x (m_moveOffset s) + x) sdiv TILE_PIXELS \<noteq> 0
      \<or> (pt_y (m_moveOffset s) + y) sdiv TILE_PIXELS \<noteq> 0)"
  by (simp add: move_def Let_def onCameraMove_def requestVisibleTilesCacheUpdate_def)

lemma move_roundtrip:
  assumes "m_moveOffset s = \<lparr>pt_x = 0, pt_y = 0\<rparr>"
  shows "m_customCameraPosition (move (- (k * TILE_PIXELS)) 0 (move (k * TILE_PIXELS) 0 s))
           = m_customCameraPosition s
       \<and> m_moveOffset (move (- (k * TILE_PIXELS)) 0 (move (k * TILE_PIXELS) 0 s))
           = \<lparr>pt_x = 0, pt_y = 0\<rparr>"
proof -
  define s1 where "s1 = move (k * TILE_PIXELS) 0 s"
  define s2 where "s2 = move (- (k * TILE_PIXELS)) 0 s1"
  have ox1: "pt_x (m_moveOffset s1) = 0"
    using assms by (simp add: s1_def move_offset_x smod_mult_TILE)
  have oy1: "pt_y (m_moveOffset s1) = 0"
    using assms by (simp add: s1_def move_offset_y zero_smod_TILE)
  have cx1: "pos_x (m_customCameraPosition s1) = pos_x (m_customCameraPosition s) + k"
    using assms by (simp add: s1_def move_camera_x sdiv_mult_TILE)
  have cy1: "pos_y (m_customCameraPosition s1) = pos_y (m_customCameraPosition s)"
    using assms by (simp add: s1_def move_camera_y zero_sdiv_TILE)
  have cz1: "pos_z (m_customCameraPosition s1) = pos_z (m_customCameraPosition s)"
    by (simp add: s1_def move_camera_z)
  have ox2: "pt_x (m_moveOffset s2) = 0"
    by (simp add: s2_def move_offset_x ox1 smod_neg_mult_TILE smod_mult_TILE)
  have oy2: "pt_y (m_moveOffset s2) = 0"
    by (simp add: s2_def move_offset_y oy1 zero_smod_TILE)
  have cx2: "pos_x (m_customCameraPosition s2) = pos_x (m_customCameraPosition s)"
    by (simp add: s2_def move_camera_x ox1 cx1 sdiv_neg_mult_TILE sdiv_mult_TILE)
  have cy2: "pos_y (m_customCameraPosition s2) = pos_y (m_customCameraPosition s)"
    by (simp add: s2_def move_camera_y oy1 cy1 zero_sdiv_TILE)
  have cz2: "pos_z (m_customCameraPosition s2) = pos_z (m_customCameraPosition s)"
    by (simp add: s2_def move_camera_z cz1)
  have "m_customCameraPosition s2 = m_customCameraPosition s"
    using cx2 cy2 cz2 by (simp add: Position.equality)
  moreover have "m_moveOffset s2 = \<lparr>pt_x = 0, pt_y = 0\<rparr>"
    using ox2 oy2 by (simp add: Point.equality)
  ultimately show ?thesis by (simp add: s1_def s2_def)
qed

text \<open>
  Claim C9. Every call of \<open>move\<close> adds the pixels to the accumulated offset, moves
  the fixed camera by the whole tiles in the sum (the truncated quotient by the tile
  size) and keeps the remainder as the new offset, asking for a cache update exactly
  when a tile was committed; so pixels are conserved on both axes. From a zero
  offset, \<open>move (k * TILE_PIXELS) 0\<close> followed by \<open>move (- k * TILE_PIXELS) 0\<close> brings the
  fixed camera back to its position and leaves the offset zero.
\<close>

theorem move_commits_whole_tiles_and_returns:
  "pos_x (m_customCameraPosition (move x y s))
     = pos_x (m_customCameraPosition s) + (pt_x (m_moveOffset s) + x) sdiv TILE_PIXELS
   \<and> pt_x (m_moveOffset (move x y s)) = (pt_x (m_moveOffset s) + x) smod TILE_PIXELS
   \<and> pos_y (m_customCameraPosition (move x y s))
     = pos_y (m_customCameraPosition s) + (pt_y (m_moveOffset s) + y) sdiv TILE_PIXELS
   \<and> pt_y (m_moveOffset (move x y s)) = (pt_y (m_moveOffset s) + y) smod TILE_PIXELS
   \<and> pos_x (m_customCameraPosition (move x y s)) * TILE_PIXELS + pt_x (m_moveOffset (move x y s))
     = pos_x (m_customCameraPosition s) * TILE_PIXELS + pt_x (m_moveOffset s) + x
   \<and> pos_y (m_customCameraPosition (move x y s)) * TILE_PIXELS + pt_y (m_moveOffset (move x y s))
     = pos_y (m_customCameraPosition s) * TILE_PIXELS + pt_y (m_moveOffset s) + y
   \<and> m_mustUpdateVisibleTilesCache (move x y s)
     = (m_mustUpdateVisibleTilesCache s
        \<or> (pt_x (m_moveOffset s) + x) sdiv TILE_PIXELS \<noteq> 0
        \<or> (pt_y (m_moveOffset s) + y) sdiv TILE_PIXELS \<noteq> 0)
   \<and> (m_moveOffset s = \<lparr>pt_x = 0, pt_y = 0\<rparr> \<longrightarrow>
        m_customCameraPosition (move (- (k * TILE_PIXELS)) 0 (move (k * TILE_PIXELS) 0 s))
          = m_customCameraPosition s
        \<and> m_moveOffset (move (- (k * TILE_PIXELS)) 0 (move (k * TILE_PIXELS) 0 s))
          = \<lparr>pt_x = 0, pt_y = 0\<rparr>)"
proof -
  have px: "pos_x (m_customCameraPosition (move x y s)) * TILE_PIXELS
              + pt_x (m_moveOffset (move x y s))
            = pos_x (m_customCameraPosition s) * TILE_PIXELS + pt_x (m_moveOffset s) + x"
    using sdiv_smod_TILE [of "pt_x (m_moveOffset s) + x"]
    by (simp add: move_camera_x move_offset_x algebra_simps)
  have py: "pos_y (m_customCameraPosition (move x y s)) * TILE_PIXELS
              + pt_y (m_moveOffset (move x y s))
            = pos_y (m_customCameraPosition s) * TILE_PIXELS + pt_y (m_moveOffset s) + y"
    using sdiv_smod_TILE [of "pt_y (m_moveOffset s) + y"]
    by (simp add: move_camera_y move_offset_y algebra_simps)
  show ?thesis
    using px py move_roundtrip [of s k]
    by (simp only: move_camera_x move_offset_x move_camera_y move_offset_y move_request) simp
qed

theorem move_commits_whole_tiles_and_returns_witness:
  "m_moveOffset exampleView = \<lparr>pt_x = 0, pt_y = 0\<rparr>
   \<and> m_customCameraPosition (move 96 0 exampleView) = \<lparr>pos_x = 103, pos_y = 100, pos_z = 7\<rparr>
   \<and> m_customCameraPosition (move (- 96) 0 (move 96 0 exampleView))
       = \<lparr>pos_x = 100, pos_y = 100, pos_z = 7\<rparr>
   \<and> m_moveOffset (move (- 96) 0 (move 96 0 exampleView)) = \<lparr>pt_x = 0, pt_y = 0\<rparr>"
proof -
  have o: "m_moveOffset exampleView = \<lparr>pt_x = 0, pt_y = 0\<rparr>"
    by (simp add: exampleView_def)
  have k: "3 * TILE_PIXELS = 96"
    by (simp add: TILE_PIXELS_def)
  have c: "m_customCameraPosition exampleView = \<lparr>pos_x = 100, pos_y = 100, pos_z = 7\<rparr>"
    by (simp add: exampleView_def)
  have one: "m_customCameraPosition (move 96 0 exampleView)
               = \<lparr>pos_x = 103, pos_y = 100, pos_z = 7\<rparr>"
    by (simp add: move_def Let_def onCameraMove_def requestVisibleTilesCacheUpdate_def
        exampleView_def TILE_PIXELS_def signed_divide_int_def signed_modulo_int_def)
  show ?thesis
    using move_commits_whole_tiles_and_returns [of 96 0 exampleView 3] o one
    by (simp add: k c)
qed

section \<open>Geometry updates\<close>

lemma updateGeometry_rejected:
  "exceedsMaxTexture w s d \<Longrightarrow>
   updateGeometry w d opt s = emit [TraceError ''reached max zoom out''] s"
  by (simp add: updateGeometry_def exceedsMaxTexture_def Let_def)

lemma geometry_emit: "geometry (emit es s) = geometry s"
  by (simp add: geometry_def emit_def)

lemma smod_2_not_1: "(a smod 2 \<noteq> 1) = (even a \<or> a < 0)" for a :: int
  by (auto simp add: signed_modulo_int_def sgn_if abs_if)

lemma exampleView_accepts:
  "\<not> exceedsMaxTexture exampleWorld exampleView \<lparr>width = 15, height = 11\<rparr>"
  by (simp add: exceedsMaxTexture_def exampleWorld_def exampleView_def Let_def u8_def
      TILE_PIXELS_def size_mul_def size_add_def Size1_def)

lemma updateGeometry_visibleDimension:
  "m_visibleDimension (updateGeometry w d opt s)
     = (if exceedsMaxTexture w s d then m_visibleDimension s else d)"
  by (simp add: updateGeometry_def exceedsMaxTexture_def Let_def
      requestVisibleTilesCacheUpdate_def emit_def)

lemma setVisibleDimension_keeps_accepted:
  "acceptedDimension (m_visibleDimension s) \<Longrightarrow>
   acceptedDimension (m_visibleDimension (setVisibleDimension w d s))"
  by (simp add: setVisibleDimension_def updateGeometry_visibleDimension acceptedDimension_def
      emit_def)

lemma accepted_not_rejected:
  "acceptedDimension d \<Longrightarrow>
   \<not> (even (width d) \<or> even (height d) \<or> width d < 3 \<or> height d < 3)"
  using smod_2_not_1 [of "width d"] smod_2_not_1 [of "height d"]
  by (auto simp add: acceptedDimension_def size_less_def Size1_def)

text \<open>
  Claim C4. A visible dimension with an even side, with a side below 3, or whose
  draw buffer exceeds the largest texture is rejected by \<open>setVisibleDimension\<close>: the
  visible dimension, the draw dimension, the tile size, the view mode and the aware
  range stay the prior ones, and, the request being for another dimension than the
  current one, the call appends one error to the trace and changes nothing else.
  \<open>updateGeometry\<close> itself rejects a buffer that is too large in the same way. (A
  request for the current dimension returns at once; the current dimension is one
  that passed the first two tests whenever the previous one was, by
  \<open>setVisibleDimension_keeps_accepted\<close>.)
\<close>

theorem geometry_update_rejected:
  "(even (width d) \<or> even (height d) \<or> width d < 3 \<or> height d < 3
      \<or> exceedsMaxTexture w s d \<longrightarrow>
    geometry (setVisibleDimension w d s) = geometry s
    \<and> (d \<noteq> m_visibleDimension s \<longrightarrow>
         setVisibleDimension w d s
           = emit [TraceError
                    (if width d smod 2 \<noteq> 1 \<or> height d smod 2 \<noteq> 1
                     then ''visible dimension must be odd''
                     else if size_less d (Size1 3) then ''reach max zoom in''
                     else ''reached max zoom out'')] s))
   \<and> (exceedsMaxTexture w s d \<longrightarrow>
        updateGeometry w d opt s = emit [TraceError ''reached max zoom out''] s
        \<and> geometry (updateGeometry w d opt s) = geometry s)"
proof -
  have a: "even (width d) \<or> even (height d) \<Longrightarrow>
           width d smod 2 \<noteq> 1 \<or> height d smod 2 \<noteq> 1"
    by (simp add: smod_2_not_1) blast
  have b: "width d < 3 \<or> height d < 3 \<Longrightarrow> size_less d (Size1 3)"
    by (simp add: size_less_def Size1_def)
  have eq: "setVisibleDimension w d s
              = emit [TraceError
                       (if width d smod 2 \<noteq> 1 \<or> height d smod 2 \<noteq> 1
                        then ''visible dimension must be odd''
                        else if size_less d (Size1 3) then ''reach max zoom in''
                        else ''reached max zoom out'')] s"
    if "even (width d) \<or> even (height d) \<or> width d < 3 \<or> height d < 3
          \<or> exceedsMaxTexture w s d" and "d \<noteq> m_visibleDimension s"
    using that a b
    by (auto simp add: setVisibleDimension_def updateGeometry_rejected)
  have same: "geometry (setVisibleDimension w d s) = geometry s"
    if r: "even (width d) \<or> even (height d) \<or> width d < 3 \<or> height d < 3
          \<or> exceedsMaxTexture w s d"
  proof (cases "d = m_visibleDimension s")
    case True
    then show ?thesis by (simp add: setVisibleDimension_def)
  next
    case False
    then show ?thesis using eq [OF r False] by (simp add: geometry_emit)
  qed
  show ?thesis
    using eq same by (auto simp add: geometry_emit updateGeometry_rejected)
qed

lemma exampleView_rejects_wide:
  "exceedsMaxTexture exampleWorld exampleView \<lparr>width = 201, height = 11\<rparr>"
  by (simp add: exceedsMaxTexture_def exampleWorld_def exampleView_def Let_def u8_def
      TILE_PIXELS_def size_mul_def size_add_def Size1_def)

theorem geometry_update_rejected_witness:
  "\<lparr>width = 16, height = 11\<rparr> \<noteq> m_visibleDimension exampleView
   \<and> even (width \<lparr>width = 16, height = 11\<rparr>)
   \<and> setVisibleDimension exampleWorld \<lparr>width = 16, height = 11\<rparr> exampleView
       = emit [TraceError ''visible dimension must be odd''] exampleView
   \<and> geometry (setVisibleDimension exampleWorld \<lparr>width = 16, height = 11\<rparr> exampleView)
       = geometry exampleView
   \<and> setVisibleDimension exampleWorld \<lparr>width = 1, height = 1\<rparr> exampleView
       = emit [TraceError ''reach max zoom in''] exampleView
   \<and> exceedsMaxTexture exampleWorld exampleView \<lparr>width = 201, height = 11\<rparr>
   \<and> setVisibleDimension exampleWorld \<lparr>width = 201, height = 11\<rparr> exampleView
       = emit [TraceError ''reached max zoom out''] exampleView
   \<and> updateGeometry exampleWorld \<lparr>width = 201, height = 11\<rparr> \<lparr>width = 576, height = 448\<rparr>
        exampleView
       = emit [TraceError ''reached max zoom out''] exampleView"
proof -
  have v: "m_visibleDimension exampleView = \<lparr>width = 15, height = 11\<rparr>"
    by (simp add: exampleView_def)
  show ?thesis
    using geometry_update_rejected [of "\<lparr>width = 16, height = 11\<rparr>" exampleWorld exampleView
        "\<lparr>width = 576, height = 448\<rparr>"]
      geometry_update_rejected [of "\<lparr>width = 1, height = 1\<rparr>" exampleWorld exampleView
        "\<lparr>width = 576, height = 448\<rparr>"]
      geometry_update_rejected [of "\<lparr>width = 201, height = 11\<rparr>" exampleWorld exampleView
        "\<lparr>width = 576, height = 448\<rparr>"]
      exampleView_rejects_wide
    by (simp add: v signed_modulo_int_def geometry_emit size_less_def Size1_def)
qed

text \<open>
  Claim C5, as the code has it. For every visible dimension that \<open>updateGeometry\<close>
  accepts, the draw dimension is the visible dimension plus 3 tiles on each axis
  (not 2), and the visible dimension is stored as given.
\<close>

theorem draw_dimension_is_visible_plus_three:
  assumes "\<not> exceedsMaxTexture w s d"
  shows "m_drawDimension (updateGeometry w d opt s)
           = \<lparr>width = width d + 3, height = height d + 3\<rparr>
         \<and> m_visibleDimension (updateGeometry w d opt s) = d"
  using assms
  by (simp add: updateGeometry_def exceedsMaxTexture_def Let_def
      requestVisibleTilesCacheUpdate_def emit_def size_add_def Size1_def)

theorem draw_dimension_is_visible_plus_three_witness:
  "\<not> exceedsMaxTexture exampleWorld exampleView \<lparr>width = 15, height = 11\<rparr>
   \<and> m_drawDimension (updateGeometry exampleWorld \<lparr>width = 15, height = 11\<rparr>
                        \<lparr>width = 576, height = 448\<rparr> exampleView)
       = \<lparr>width = 18, height = 14\<rparr>"
  using exampleView_accepts
    draw_dimension_is_visible_plus_three [OF exampleView_accepts, of "\<lparr>width = 576, height = 448\<rparr>"]
  by simp

text \<open>
  The claim as stated fails: the accepted 15x11 viewport gets the draw dimension
  18x14, which is not 15x11 plus 2 on each axis (nor plus 2 on each side).
\<close>

theorem draw_dimension_two_tile_margin_counterexample:
  "\<not> exceedsMaxTexture exampleWorld exampleView \<lparr>width = 15, height = 11\<rparr>
   \<and> m_drawDimension (updateGeometry exampleWorld \<lparr>width = 15, height = 11\<rparr>
                        \<lparr>width = 576, height = 448\<rparr> exampleView)
       \<noteq> size_add \<lparr>width = 15, height = 11\<rparr> (Size1 2)
   \<and> m_drawDimension (updateGeometry exampleWorld \<lparr>width = 15, height = 11\<rparr>
                        \<lparr>width = 576, height = 448\<rparr> exampleView)
       \<noteq> size_add \<lparr>width = 15, height = 11\<rparr> (Size1 4)"
  using exampleView_accepts
  by (simp add: updateGeometry_def exceedsMaxTexture_def Let_def
      requestVisibleTilesCacheUpdate_def emit_def size_add_def Size1_def)

text \<open>
  Claim C8. With the automatic view mode on, an accepted \<open>updateGeometry\<close> selects
  the near view when the tile size is at least the base tile size and the visible
  area at most 32x32 tiles, else the mid view when the tile size is at least 16 and
  the area at most 64x64, else the far view when the tile size is at least 8 and
  the area at most 128x128, else the huge view; and multi-floor rendering is on
  exactly for the near and the mid view.
\<close>

theorem auto_view_mode_thresholds:
  assumes "m_autoViewMode s" and "\<not> exceedsMaxTexture w s d"
  shows "m_viewMode (updateGeometry w d opt s) =
           (if m_tileSize (updateGeometry w d opt s) \<ge> TILE_PIXELS \<and> area d \<le> 32 * 32
            then NEAR_VIEW
            else if m_tileSize (updateGeometry w d opt s) \<ge> 16 \<and> area d \<le> 64 * 64
            then MID_VIEW
            else if m_tileSize (updateGeometry w d opt s) \<ge> 8 \<and> area d \<le> 128 * 128
            then FAR_VIEW
            else HUGE_VIEW)
         \<and> m_multifloor (updateGeometry w d opt s)
             = (m_viewMode (updateGeometry w d opt s) = NEAR_VIEW
                \<or> m_viewMode (updateGeometry w d opt s) = MID_VIEW)
         \<and> m_tileSize (updateGeometry w d opt s) = u8 ((TILE_PIXELS * m_renderScale s) div 100)"
  using assms
  by (simp add: updateGeometry_def exceedsMaxTexture_def Let_def
      requestVisibleTilesCacheUpdate_def emit_def
      NEAR_VIEW_AREA_def MID_VIEW_AREA_def FAR_VIEW_AREA_def)

theorem auto_view_mode_thresholds_witness:
  "m_autoViewMode exampleView
   \<and> \<not> exceedsMaxTexture exampleWorld exampleView \<lparr>width = 15, height = 11\<rparr>
   \<and> m_viewMode (updateGeometry exampleWorld \<lparr>width = 15, height = 11\<rparr>
                   \<lparr>width = 576, height = 448\<rparr> exampleView) = NEAR_VIEW
   \<and> m_multifloor (updateGeometry exampleWorld \<lparr>width = 15, height = 11\<rparr>
                     \<lparr>width = 576, height = 448\<rparr> exampleView)"
proof -
  have a: "m_autoViewMode exampleView"
    by (simp add: exampleView_def)
  have r: "m_renderScale exampleView = 100"
    by (simp add: exampleView_def)
  show ?thesis
    using a exampleView_accepts
      auto_view_mode_thresholds [OF a exampleView_accepts, of "\<lparr>width = 576, height = 448\<rparr>"]
    by (simp add: r u8_def TILE_PIXELS_def area_def)
qed

section \<open>The sweep of the visibility cache\<close>

text \<open>
  Invariants of the three loops, a relation between two runs of them, and the sweep
  as a fold over the cells it visits.
\<close>

declare scanUp.simps [simp del] clearFloors.simps [simp del] sweepDiagonal.simps [simp del]
  sweepDiagonals.simps [simp del] sweepFloors.simps [simp del]

lemma sweepDiagonal_inv:
  "P s \<Longrightarrow> (\<And>ix iy s. P s \<Longrightarrow> P (body ix iy s)) \<Longrightarrow> P (sweepDiagonal body w iy ix s)"
proof (induction body w iy ix s rule: sweepDiagonal.induct)
  case (1 body w iy ix s)
  show ?case
  proof (cases "iy \<ge> 0 \<and> ix < w")
    case True
    have "P (body ix iy s)" using "1.prems" by blast
    then have "P (sweepDiagonal body w (iy - 1) (ix + 1) (body ix iy s))"
      using "1.IH" [OF True] "1.prems"(2) by blast
    then show ?thesis
      using True by (subst sweepDiagonal.simps) simp
  next
    case False
    then show ?thesis
      using "1.prems"(1) by (subst sweepDiagonal.simps) auto
  qed
qed

lemma sweepDiagonals_inv:
  "P s \<Longrightarrow> (\<And>ix iy s. P s \<Longrightarrow> P (body ix iy s)) \<Longrightarrow> P (sweepDiagonals body drawDim n d s)"
proof (induction body drawDim n d s rule: sweepDiagonals.induct)
  case (1 body drawDim numDiagonals diagonal s)
  show ?case
  proof (cases "diagonal < numDiagonals")
    case True
    define s' where "s' = sweepDiagonal body (width drawDim)
               (s32 (diagonal - max (u32 (diagonal - height drawDim)) (u32 0)))
               (s32 (max (u32 (diagonal - height drawDim)) (u32 0))) s"
    have "P s'"
      unfolding s'_def using "1.prems" by (rule sweepDiagonal_inv)
    then have "P (sweepDiagonals body drawDim numDiagonals (diagonal + 1) s')"
      using "1.IH" [OF True refl refl refl] "1.prems"(2) unfolding s'_def by blast
    then show ?thesis
      using True by (subst sweepDiagonals.simps) (simp add: Let_def s'_def)
  next
    case False
    then show ?thesis
      using "1.prems"(1) by (subst sweepDiagonals.simps) simp
  qed
qed

lemma sweepFloors_inv_aux:
  "P s \<Longrightarrow> iz \<le> lastFloor \<Longrightarrow>
   (\<And>iz ix iy s. firstFloor \<le> iz \<Longrightarrow> iz \<le> lastFloor \<Longrightarrow> P s \<Longrightarrow> P (body iz ix iy s)) \<Longrightarrow>
   P (sweepFloors body drawDim firstFloor iz s)"
proof (induction body drawDim firstFloor iz s rule: sweepFloors.induct)
  case (1 body drawDim firstFloor iz s)
  show ?case
  proof (cases "iz \<ge> firstFloor")
    case True
    define s' where "s' = sweepDiagonals (body iz) drawDim (u32 (width drawDim + height drawDim - 1)) 0 s"
    have "P s'"
      unfolding s'_def using "1.prems"(1)
    proof (rule sweepDiagonals_inv)
      fix ix iy t assume "P t"
      then show "P (body iz ix iy t)" using "1.prems"(3) [OF True "1.prems"(2)] by blast
    qed
    then have "P (sweepFloors body drawDim firstFloor (iz - 1) s')"
      using "1.IH" [OF True] "1.prems"(2,3) unfolding s'_def by force
    then show ?thesis
      using True by (subst sweepFloors.simps) (simp add: s'_def)
  next
    case False
    then show ?thesis
      using "1.prems"(1) by (subst sweepFloors.simps) simp
  qed
qed

lemma sweepFloors_inv:
  assumes "P s" and "\<And>iz ix iy s. firstFloor \<le> iz \<Longrightarrow> iz \<le> lastFloor \<Longrightarrow> P s \<Longrightarrow> P (body iz ix iy s)"
  shows "P (sweepFloors body drawDim firstFloor lastFloor s)"
  using assms(1) order_refl assms(2) by (rule sweepFloors_inv_aux)



lemma sweepDiagonal_rel:
  "R s a \<Longrightarrow> (\<And>ix iy s a. R s a \<Longrightarrow> R (b1 ix iy s) (b2 ix iy a)) \<Longrightarrow>
   R (sweepDiagonal b1 w iy ix s) (sweepDiagonal b2 w iy ix a)"
proof (induction b1 w iy ix s arbitrary: a rule: sweepDiagonal.induct)
  case (1 b1 w iy ix s)
  show ?case
  proof (cases "iy \<ge> 0 \<and> ix < w")
    case True
    have "R (b1 ix iy s) (b2 ix iy a)" using "1.prems" by blast
    then have "R (sweepDiagonal b1 w (iy - 1) (ix + 1) (b1 ix iy s))
                 (sweepDiagonal b2 w (iy - 1) (ix + 1) (b2 ix iy a))"
      using "1.IH" [OF True] "1.prems"(2) by blast
    then show ?thesis
      using True
      by (simp add: sweepDiagonal.simps [of b1 w iy ix s] sweepDiagonal.simps [of b2 w iy ix a])
  next
    case False
    then show ?thesis
      using "1.prems"(1)
      by (auto simp add: sweepDiagonal.simps [of b1 w iy ix s] sweepDiagonal.simps [of b2 w iy ix a])
  qed
qed

lemma sweepDiagonals_rel:
  "R s a \<Longrightarrow> (\<And>ix iy s a. R s a \<Longrightarrow> R (b1 ix iy s) (b2 ix iy a)) \<Longrightarrow>
   R (sweepDiagonals b1 drawDim n d s) (sweepDiagonals b2 drawDim n d a)"
proof (induction b1 drawDim n d s arbitrary: a rule: sweepDiagonals.induct)
  case (1 b1 drawDim numDiagonals diagonal s)
  show ?case
  proof (cases "diagonal < numDiagonals")
    case True
    define iy where "iy = s32 (diagonal - max (u32 (diagonal - height drawDim)) (u32 0))"
    define ix where "ix = s32 (max (u32 (diagonal - height drawDim)) (u32 0))"
    define s' where "s' = sweepDiagonal b1 (width drawDim) iy ix s"
    define a' where "a' = sweepDiagonal b2 (width drawDim) iy ix a"
    have "R s' a'"
      unfolding s'_def a'_def using "1.prems" by (rule sweepDiagonal_rel)
    then have "R (sweepDiagonals b1 drawDim numDiagonals (diagonal + 1) s')
                 (sweepDiagonals b2 drawDim numDiagonals (diagonal + 1) a')"
      using "1.IH" [OF True refl refl refl] "1.prems"(2) unfolding s'_def iy_def ix_def by blast
    then show ?thesis
      using True
      by (simp add: sweepDiagonals.simps [of b1 drawDim numDiagonals diagonal s]
          sweepDiagonals.simps [of b2 drawDim numDiagonals diagonal a]
          Let_def s'_def a'_def iy_def ix_def)
  next
    case False
    then show ?thesis
      using "1.prems"(1)
      by (simp add: sweepDiagonals.simps [of b1 drawDim numDiagonals diagonal s]
          sweepDiagonals.simps [of b2 drawDim numDiagonals diagonal a])
  qed
qed

lemma sweepFloors_rel:
  "R s a \<Longrightarrow> (\<And>iz ix iy s a. R s a \<Longrightarrow> R (b1 iz ix iy s) (b2 iz ix iy a)) \<Longrightarrow>
   R (sweepFloors b1 drawDim firstFloor iz s) (sweepFloors b2 drawDim firstFloor iz a)"
proof (induction b1 drawDim firstFloor iz s arbitrary: a rule: sweepFloors.induct)
  case (1 b1 drawDim firstFloor iz s)
  show ?case
  proof (cases "iz \<ge> firstFloor")
    case True
    define n where "n = u32 (width drawDim + height drawDim - 1)"
    define s' where "s' = sweepDiagonals (b1 iz) drawDim n 0 s"
    define a' where "a' = sweepDiagonals (b2 iz) drawDim n 0 a"
    have "R s' a'"
      unfolding s'_def a'_def using "1.prems"(1)
    proof (rule sweepDiagonals_rel)
      fix ix iy t b assume "R t b"
      then show "R (b1 iz ix iy t) (b2 iz ix iy b)" using "1.prems"(2) by blast
    qed
    then have "R (sweepFloors b1 drawDim firstFloor (iz - 1) s')
                 (sweepFloors b2 drawDim firstFloor (iz - 1) a')"
      using "1.IH" [OF True] "1.prems"(2) unfolding s'_def n_def by blast
    then show ?thesis
      using True
      by (simp add: sweepFloors.simps [of b1 drawDim firstFloor iz s]
          sweepFloors.simps [of b2 drawDim firstFloor iz a] s'_def a'_def n_def)
  next
    case False
    then show ?thesis
      using "1.prems"(1)
      by (simp add: sweepFloors.simps [of b1 drawDim firstFloor iz s]
          sweepFloors.simps [of b2 drawDim firstFloor iz a])
  qed
qed

lemma sweepFloors_fold:
  "sweepFloors body drawDim firstFloor lastFloor s
     = fold (\<lambda>(iz, ix, iy). body iz ix iy) (sweepCells drawDim firstFloor lastFloor) s"
proof -
  define R where "R = (\<lambda>t (acc :: (int \<times> int \<times> int) list). t = fold (\<lambda>(iz, ix, iy). body iz ix iy) acc s)"
  have "R (sweepFloors body drawDim firstFloor lastFloor s)
          (sweepFloors (\<lambda>iz ix iy acc. acc @ [(iz, ix, iy)]) drawDim firstFloor lastFloor [])"
  proof (rule sweepFloors_rel)
    show "R s []" by (simp add: R_def)
  next
    fix iz ix iy t acc assume "R t acc"
    then show "R (body iz ix iy t) (acc @ [(iz, ix, iy)])" by (simp add: R_def)
  qed
  then show ?thesis by (simp add: R_def sweepCells_def)
qed


lemma cameraChanged_fields:
  "m_floorMin (cameraChanged w cam s) = m_floorMin s"
  "m_floorMax (cameraChanged w cam s) = m_floorMax s"
  "m_cachedVisibleTiles (cameraChanged w cam s) = m_cachedVisibleTiles s"
  "m_follow (cameraChanged w cam s) = m_follow s"
  "m_followingCreature (cameraChanged w cam s) = m_followingCreature s"
  "m_customCameraPosition (cameraChanged w cam s) = m_customCameraPosition s"
  "m_lockedFirstVisibleFloor (cameraChanged w cam s) = m_lockedFirstVisibleFloor s"
  "m_multifloor (cameraChanged w cam s) = m_multifloor s"
  "m_awareRange (cameraChanged w cam s) = m_awareRange s"
  "m_virtualCenterOffset (cameraChanged w cam s) = m_virtualCenterOffset s"
  "m_drawDimension (cameraChanged w cam s) = m_drawDimension s"
  "m_visibleCreatures (cameraChanged w cam s) = m_visibleCreatures s"
  "m_lastCameraPosition (cameraChanged w cam s) = m_lastCameraPosition s"
  by (simp_all add: cameraChanged_def onFloorChange_def updateLight_def emit_def Let_def)

lemma cameraChanged_flag:
  "m_mustUpdateVisibleCreaturesCache (cameraChanged w cam s)
     = (m_mustUpdateVisibleCreaturesCache s \<or> pos_z (m_lastCameraPosition s) \<noteq> pos_z cam)"
  by (simp add: cameraChanged_def onFloorChange_def updateLight_def emit_def Let_def)

lemma cameraChanged_positionChange:
  "filter isPositionChange (trace (cameraChanged w cam s))
     = filter isPositionChange (trace s) @ [OnPositionChange cam (m_lastCameraPosition s)]"
  by (simp add: cameraChanged_def onFloorChange_def updateLight_def emit_def Let_def)

lemma getCameraPosition_cong:
  "m_follow s' = m_follow s \<Longrightarrow> m_followingCreature s' = m_followingCreature s \<Longrightarrow>
   m_customCameraPosition s' = m_customCameraPosition s \<Longrightarrow>
   getCameraPosition w s' = getCameraPosition w s"
  by (simp add: getCameraPosition_def split: option.splits)

lemma updateVisibleTilesCache_invalid:
  "\<not> isValid (getCameraPosition w s) \<Longrightarrow> updateVisibleTilesCache w s = Some s"
  by (simp add: updateVisibleTilesCache_def)

lemma updateVisibleTilesCache_valid:
  assumes "isValid (getCameraPosition w s)"
  shows "updateVisibleTilesCache w s =
           (if \<not> floorBoundsInArray s then None
            else Some ((sweepFloors (visitCell w (getCameraPosition w s))
                          (m_drawDimension (sweepStart w s))
                          (m_cachedFirstVisibleFloor (sweepStart w s))
                          (m_cachedLastVisibleFloor (sweepStart w s)) (sweepStart w s))
                       \<lparr>m_mustUpdateVisibleCreaturesCache := False,
                        m_mustUpdateVisibleTilesCache := False\<rparr>))"
  using assms
  by (simp add: updateVisibleTilesCache_def sweepStart_def floorBoundsInArray_def Let_def
      cameraChanged_fields)


lemma sweepFrame_eqD:
  assumes "sweepFrame u = sweepFrame v"
  shows "m_mustUpdateVisibleCreaturesCache u = m_mustUpdateVisibleCreaturesCache v"
    and "m_mustUpdateVisibleTilesCache u = m_mustUpdateVisibleTilesCache v"
    and "m_follow u = m_follow v"
    and "m_followingCreature u = m_followingCreature v"
    and "m_customCameraPosition u = m_customCameraPosition v"
    and "m_awareRange u = m_awareRange v"
    and "m_virtualCenterOffset u = m_virtualCenterOffset v"
    and "m_drawDimension u = m_drawDimension v"
    and "m_cachedFirstVisibleFloor u = m_cachedFirstVisibleFloor v"
    and "m_cachedLastVisibleFloor u = m_cachedLastVisibleFloor v"
    and "m_lastCameraPosition u = m_lastCameraPosition v"
  using arg_cong [OF assms, of m_mustUpdateVisibleCreaturesCache]
    arg_cong [OF assms, of m_mustUpdateVisibleTilesCache]
    arg_cong [OF assms, of m_follow]
    arg_cong [OF assms, of m_followingCreature]
    arg_cong [OF assms, of m_customCameraPosition]
    arg_cong [OF assms, of m_awareRange]
    arg_cong [OF assms, of m_virtualCenterOffset]
    arg_cong [OF assms, of m_drawDimension]
    arg_cong [OF assms, of m_cachedFirstVisibleFloor]
    arg_cong [OF assms, of m_cachedLastVisibleFloor]
    arg_cong [OF assms, of m_lastCameraPosition]
  by (simp_all add: sweepFrame_def)

lemma visitCell_frame: "sweepFrame (visitCell w cam iz ix iy s) = sweepFrame s"
  by (simp add: visitCell_def addVisibleTile_def emit_def sweepFrame_def Let_def
      split: option.splits)

lemma sweep_frame:
  "sweepFrame (sweepFloors (visitCell w cam) drawDim firstFloor lastFloor s) = sweepFrame s"
  by (rule sweepFloors_inv [where P = "\<lambda>t. sweepFrame t = sweepFrame s"])
     (simp_all add: visitCell_frame)

lemma visitCell_creatures:
  "m_visibleCreatures (visitCell w cam iz ix iy s)
     = m_visibleCreatures s
       @ (case getTile w (tilePosAt s cam iz ix iy) of
            None \<Rightarrow> []
          | Some tile \<Rightarrow>
              if isDrawable tile \<and> m_mustUpdateVisibleCreaturesCache s
                 \<and> isInRange w s (tilePosAt s cam iz ix iy) False
              then rev (getCreatures tile) else [])"
  by (simp add: visitCell_def addVisibleTile_def emit_def Let_def split: option.splits)

lemma visitCell_positionChange:
  "filter isPositionChange (trace (visitCell w cam iz ix iy s)) = filter isPositionChange (trace s)"
  by (simp add: visitCell_def addVisibleTile_def emit_def Let_def split: option.splits)

lemma visitCell_bounds:
  assumes "m_floorMin s \<le> m_floorMax s" "lo \<le> m_floorMin s" "m_floorMax s \<le> hi" "lo \<le> iz" "iz \<le> hi"
  shows "m_floorMin (visitCell w cam iz ix iy s) \<le> m_floorMax (visitCell w cam iz ix iy s)
       \<and> lo \<le> m_floorMin (visitCell w cam iz ix iy s) \<and> m_floorMax (visitCell w cam iz ix iy s) \<le> hi"
  using assms
  by (simp add: visitCell_def addVisibleTile_def emit_def Let_def split: option.splits)

lemma visitCell_outside_empty:
  assumes "m_floorMin s \<le> m_floorMax s"
    and "\<forall>z. z < m_floorMin s \<or> m_floorMax s < z \<longrightarrow> m_cachedVisibleTiles s z = MapList_clear"
  shows "\<forall>z. z < m_floorMin (visitCell w cam iz ix iy s) \<or> m_floorMax (visitCell w cam iz ix iy s) < z
           \<longrightarrow> m_cachedVisibleTiles (visitCell w cam iz ix iy s) z = MapList_clear"
  using assms
  by (simp add: visitCell_def addVisibleTile_def emit_def Let_def split: option.splits)

lemma visitCell_culled:
  assumes "\<forall>z. \<forall>t \<in> bucketTiles s z. \<not> (isCompletelyCovered t (m_cachedFirstVisibleFloor s) \<and> \<not> hasLight t)"
  shows "\<forall>z. \<forall>t \<in> bucketTiles (visitCell w cam iz ix iy s) z.
            \<not> (isCompletelyCovered t (m_cachedFirstVisibleFloor s) \<and> \<not> hasLight t)"
  using assms
  by (auto simp add: visitCell_def addVisibleTile_def emit_def Let_def bucketTiles_def split: option.splits if_splits)

section \<open>Visible floors\<close>

lemma scanUp_bound:
  "0 \<le> firstFloor \<Longrightarrow> firstFloor \<le> zc \<Longrightarrow> pos_z coveredPos \<le> zc \<Longrightarrow> pos_z upperPos \<le> zc \<Longrightarrow>
   0 \<le> scanUp w isLook firstFloor coveredPos upperPos
   \<and> scanUp w isLook firstFloor coveredPos upperPos \<le> zc"
proof (induction w isLook firstFloor coveredPos upperPos rule: scanUp.induct)
  case (1 w isLook firstFloor coveredPos upperPos)
  have cu: "fst (coveredUp coveredPos 1) \<Longrightarrow>
            0 \<le> pos_z (snd (coveredUp coveredPos 1)) \<and> pos_z (snd (coveredUp coveredPos 1)) \<le> MAX_Z
            \<and> pos_z (snd (coveredUp coveredPos 1)) = pos_z coveredPos - 1"
    by (simp add: coveredUp_def Let_def split: if_splits)
  have uu: "fst (up upperPos 1) \<Longrightarrow>
            0 \<le> pos_z (snd (up upperPos 1)) \<and> pos_z (snd (up upperPos 1)) \<le> MAX_Z
            \<and> pos_z (snd (up upperPos 1)) = pos_z upperPos - 1"
    by (simp add: up_def Let_def split: if_splits)
  show ?case
    apply (subst scanUp.simps)
    apply (subst (2) scanUp.simps)
    using "1.prems" "1.IH" cu uu
    by (auto simp add: u8_def MAX_Z_def)
qed

lemma checkNeighbour_bound:
  "0 \<le> firstFloor \<Longrightarrow> firstFloor \<le> pos_z cam \<Longrightarrow>
   0 \<le> checkNeighbour w cam n firstFloor \<and> checkNeighbour w cam n firstFloor \<le> pos_z cam"
  using scanUp_bound [of firstFloor "pos_z cam" "translated cam (fst n) (snd n)" "translated cam (fst n) (snd n)"]
  by (simp add: checkNeighbour_def Let_def translated_def)

lemma fold_checkNeighbour_bound:
  "0 \<le> firstFloor \<Longrightarrow> firstFloor \<le> pos_z cam \<Longrightarrow>
   0 \<le> fold (checkNeighbour w cam) ns firstFloor \<and> fold (checkNeighbour w cam) ns firstFloor \<le> pos_z cam"
proof (induction ns arbitrary: firstFloor)
  case Nil
  then show ?case by simp
next
  case (Cons n ns)
  then show ?case using checkNeighbour_bound [of firstFloor cam w n] by simp
qed

lemma calcFirstVisibleFloor_range:
  "0 \<le> calcFirstVisibleFloor w s \<and> calcFirstVisibleFloor w s \<le> MAX_Z"
  by (simp add: calcFirstVisibleFloor_def Let_def u8_def clamp_def MAX_Z_def)

lemma calcLastVisibleFloor_range:
  "0 \<le> calcLastVisibleFloor w s \<and> calcLastVisibleFloor w s \<le> MAX_Z"
  using calcFirstVisibleFloor_range [of w s]
  by (simp add: calcLastVisibleFloor_def Let_def u8_def clamp_def MAX_Z_def)

lemma u8_clamp: "u8 (clamp v 0 MAX_Z) = clamp v 0 MAX_Z"
  by (simp add: u8_def clamp_def MAX_Z_def)

lemma calcFirst_le_calcLast:
  assumes cam: "isValid (getCameraPosition w s) \<longrightarrow>
                  0 \<le> pos_z (getCameraPosition w s) \<and> pos_z (getCameraPosition w s) \<le> MAX_Z"
    and lock: "0 \<le> m_lockedFirstVisibleFloor s" "m_lockedFirstVisibleFloor s \<le> 255"
  shows "calcFirstVisibleFloor w s \<le> calcLastVisibleFloor w s"
proof (cases "m_multifloor s")
  case False
  then show ?thesis by (simp add: calcLastVisibleFloor_def)
next
  case True
  note mf = True
  show ?thesis
  proof (cases "m_lockedFirstVisibleFloor s \<noteq> UINT8_MAX")
    case True
    then show ?thesis
      using mf lock cam
      by (auto simp add: calcFirstVisibleFloor_def calcLastVisibleFloor_def Let_def u8_def clamp_def
          MAX_Z_def SEA_FLOOR_def AWARE_UNDEGROUND_FLOOR_RANGE_def UINT8_MAX_def)
  next
    case False
    note nolock = False
    show ?thesis
    proof (cases "isValid (getCameraPosition w s)")
      case False
      then show ?thesis
        using mf nolock
        by (simp add: calcFirstVisibleFloor_def calcLastVisibleFloor_def Let_def u8_def clamp_def
            MAX_Z_def SEA_FLOOR_def)
    next
      case True
      define z where "z = pos_z (getCameraPosition w s)"
      define f0 where "f0 = (if z > SEA_FLOOR then max (u8 (z - AWARE_UNDEGROUND_FLOOR_RANGE)) (u8 UNDERGROUND_FLOOR) else 0)"
      define f where "f = fold (checkNeighbour w (getCameraPosition w s)) neighbours f0"
      have zr: "0 \<le> z" "z \<le> 15" using cam True by (simp_all add: z_def MAX_Z_def)
      have f0: "0 \<le> f0" "f0 \<le> z"
        using zr by (auto simp add: f0_def u8_def SEA_FLOOR_def AWARE_UNDEGROUND_FLOOR_RANGE_def UNDERGROUND_FLOOR_def)
      have fb: "0 \<le> f \<and> f \<le> z"
        unfolding f_def z_def using f0 fold_checkNeighbour_bound [of f0 "getCameraPosition w s" w neighbours]
        by (simp add: z_def)
      have "calcFirstVisibleFloor w s = u8 (clamp f 0 MAX_Z)"
        using mf nolock True
        by (simp add: calcFirstVisibleFloor_def Let_def f_def f0_def z_def)
      then have first: "calcFirstVisibleFloor w s = f"
        using fb zr by (simp add: u8_def clamp_def MAX_Z_def)
      have "calcLastVisibleFloor w s
              = u8 (clamp (if z > SEA_FLOOR then u8 (z + AWARE_UNDEGROUND_FLOOR_RANGE) else SEA_FLOOR) 0 MAX_Z)"
        using mf nolock True
        by (simp add: calcLastVisibleFloor_def Let_def z_def)
      then have last: "calcLastVisibleFloor w s = (if z > SEA_FLOOR then min (z + 2) 15 else 7)"
        using zr
        by (simp add: u8_def clamp_def MAX_Z_def SEA_FLOOR_def AWARE_UNDEGROUND_FLOOR_RANGE_def)
      show ?thesis
        using first last fb zr by (simp add: SEA_FLOOR_def)
    qed
  qed
qed

section \<open>The cache rebuild\<close>

lemma clearFloors_apply:
  "clearFloors a b f z = (if z = a \<or> (a \<le> z \<and> z \<le> b) then MapList_clear else f z)"
proof (induction a b f rule: clearFloors.induct)
  case (1 floorMin floorMax tiles)
  show ?case
  proof (cases "floorMin + 1 \<le> floorMax")
    case True
    then show ?thesis
      using "1.IH" [OF refl True]
      by (subst clearFloors.simps) (auto simp add: Let_def fun_upd_def)
  next
    case False
    then show ?thesis
      by (subst clearFloors.simps) (auto simp add: Let_def)
  qed
qed

lemma sweepStart_fields:
  "m_follow (sweepStart w s) = m_follow s"
  "m_followingCreature (sweepStart w s) = m_followingCreature s"
  "m_customCameraPosition (sweepStart w s) = m_customCameraPosition s"
  "m_awareRange (sweepStart w s) = m_awareRange s"
  "m_virtualCenterOffset (sweepStart w s) = m_virtualCenterOffset s"
  "m_drawDimension (sweepStart w s) = m_drawDimension s"
  "m_floorMin (sweepStart w s) = u8 (pos_z (getCameraPosition w s))"
  "m_floorMax (sweepStart w s) = u8 (pos_z (getCameraPosition w s))"
  "m_cachedVisibleTiles (sweepStart w s)
     = clearFloors (m_floorMin s) (m_floorMax s) (m_cachedVisibleTiles s)"
  "m_lastCameraPosition (sweepStart w s) = getCameraPosition w s"
  by (simp_all add: sweepStart_def Let_def cameraChanged_fields)

lemma sweepStart_camera: "getCameraPosition w (sweepStart w s) = getCameraPosition w s"
  by (rule getCameraPosition_cong) (simp_all add: sweepStart_fields)

lemma sweepStart_flag:
  "m_mustUpdateVisibleCreaturesCache (sweepStart w s)
     = (m_mustUpdateVisibleCreaturesCache s
        \<or> (m_lastCameraPosition s \<noteq> getCameraPosition w s
           \<and> pos_z (m_lastCameraPosition s) \<noteq> pos_z (getCameraPosition w s)))"
  by (simp add: sweepStart_def Let_def cameraChanged_flag)

lemma sweepStart_creatures:
  "m_visibleCreatures (sweepStart w s)
     = (if m_mustUpdateVisibleCreaturesCache (sweepStart w s) then [] else m_visibleCreatures s)"
  by (simp add: sweepStart_def Let_def cameraChanged_flag cameraChanged_fields)

lemma sweepStart_positionChange:
  "filter isPositionChange (trace (sweepStart w s))
     = filter isPositionChange (trace s)
       @ (if m_lastCameraPosition s \<noteq> getCameraPosition w s
          then [OnPositionChange (getCameraPosition w s) (m_lastCameraPosition s)] else [])"
  by (simp add: sweepStart_def Let_def cameraChanged_positionChange)

lemma sweepStart_floors:
  "0 \<le> m_cachedFirstVisibleFloor (sweepStart w s)
   \<and> m_cachedFirstVisibleFloor (sweepStart w s) \<le> m_cachedLastVisibleFloor (sweepStart w s)
   \<and> m_cachedLastVisibleFloor (sweepStart w s) \<le> MAX_Z"
proof -
  define s2 where "s2 = (if m_lastCameraPosition s \<noteq> getCameraPosition w s
        then cameraChanged w (getCameraPosition w s) (s\<lparr>m_mustUpdateVisibleTilesCache := False\<rparr>)
        else s\<lparr>m_mustUpdateVisibleTilesCache := False\<rparr>)"
  have f: "m_cachedFirstVisibleFloor (sweepStart w s) = calcFirstVisibleFloor w s2"
    by (simp add: sweepStart_def Let_def s2_def)
  have l: "m_cachedLastVisibleFloor (sweepStart w s)
             = (if calcLastVisibleFloor w s2 < calcFirstVisibleFloor w s2
                then calcFirstVisibleFloor w s2 else calcLastVisibleFloor w s2)"
    by (simp add: sweepStart_def Let_def s2_def)
  show ?thesis
    using calcFirstVisibleFloor_range [of w s2] calcLastVisibleFloor_range [of w s2]
    by (simp add: f l)
qed


lemma sweepStart_empty:
  assumes "cacheInv s"
  shows "m_cachedVisibleTiles (sweepStart w s) z = MapList_clear"
  using assms by (auto simp add: sweepStart_fields clearFloors_apply cacheInv_def)

lemma bucketTiles_clear: "m_cachedVisibleTiles s z = MapList_clear \<Longrightarrow> bucketTiles s z = {}"
  by (simp add: bucketTiles_def MapList_clear_def)

lemma u8_floor: "0 \<le> z \<Longrightarrow> z \<le> MAX_Z \<Longrightarrow> u8 z = z"
  by (simp add: u8_def MAX_Z_def)

lemma sweep_bounds:
  assumes "m_floorMin s \<le> m_floorMax s" "lo \<le> m_floorMin s" "m_floorMax s \<le> hi"
    "lo \<le> firstFloor" "lastFloor \<le> hi"
  shows "m_floorMin (sweepFloors (visitCell w cam) drawDim firstFloor lastFloor s)
           \<le> m_floorMax (sweepFloors (visitCell w cam) drawDim firstFloor lastFloor s)
       \<and> lo \<le> m_floorMin (sweepFloors (visitCell w cam) drawDim firstFloor lastFloor s)
       \<and> m_floorMax (sweepFloors (visitCell w cam) drawDim firstFloor lastFloor s) \<le> hi"
proof (rule sweepFloors_inv [where P = "\<lambda>t::MapView. m_floorMin t \<le> m_floorMax t \<and> lo \<le> m_floorMin t \<and> m_floorMax t \<le> hi"])
  show "m_floorMin s \<le> m_floorMax s \<and> lo \<le> m_floorMin s \<and> m_floorMax s \<le> hi"
    using assms by simp
next
  fix iz ix iy and t :: MapView
  assume "firstFloor \<le> iz" "iz \<le> lastFloor"
    and "m_floorMin t \<le> m_floorMax t \<and> lo \<le> m_floorMin t \<and> m_floorMax t \<le> hi"
  then show "m_floorMin (visitCell w cam iz ix iy t) \<le> m_floorMax (visitCell w cam iz ix iy t)
       \<and> lo \<le> m_floorMin (visitCell w cam iz ix iy t) \<and> m_floorMax (visitCell w cam iz ix iy t) \<le> hi"
    using assms(4,5) by (intro visitCell_bounds) simp_all
qed

lemma sweep_outside_empty:
  assumes "m_floorMin s \<le> m_floorMax s"
    and "\<forall>z. z < m_floorMin s \<or> m_floorMax s < z \<longrightarrow> m_cachedVisibleTiles s z = MapList_clear"
  shows "\<forall>z. z < m_floorMin (sweepFloors (visitCell w cam) drawDim firstFloor lastFloor s)
              \<or> m_floorMax (sweepFloors (visitCell w cam) drawDim firstFloor lastFloor s) < z
           \<longrightarrow> m_cachedVisibleTiles (sweepFloors (visitCell w cam) drawDim firstFloor lastFloor s) z
                 = MapList_clear"
proof -
  define P where "P = (\<lambda>t::MapView. m_floorMin t \<le> m_floorMax t
     \<and> (\<forall>z. z < m_floorMin t \<or> m_floorMax t < z \<longrightarrow> m_cachedVisibleTiles t z = MapList_clear))"
  have "P (sweepFloors (visitCell w cam) drawDim firstFloor lastFloor s)"
  proof (rule sweepFloors_inv)
    show "P s" using assms by (simp add: P_def)
  next
    fix iz ix iy and t :: MapView
    assume p: "P t"
    have "m_floorMin (visitCell w cam iz ix iy t) \<le> m_floorMax (visitCell w cam iz ix iy t)"
      using p visitCell_bounds [of t "min iz (m_floorMin t)" "max iz (m_floorMax t)" iz w cam ix iy]
      by (simp add: P_def)
    then show "P (visitCell w cam iz ix iy t)"
      using p visitCell_outside_empty [of t w cam iz ix iy] by (simp add: P_def)
  qed
  then show ?thesis by (simp add: P_def)
qed

lemma sweep_culled:
  assumes "\<forall>z. \<forall>t \<in> bucketTiles s z. \<not> (isCompletelyCovered t (m_cachedFirstVisibleFloor s) \<and> \<not> hasLight t)"
  shows "\<forall>z. \<forall>t \<in> bucketTiles (sweepFloors (visitCell w cam) drawDim firstFloor lastFloor s) z.
            \<not> (isCompletelyCovered t (m_cachedFirstVisibleFloor s) \<and> \<not> hasLight t)"
proof -
  define P where "P = (\<lambda>u. sweepFrame u = sweepFrame s
     \<and> (\<forall>z. \<forall>t \<in> bucketTiles u z. \<not> (isCompletelyCovered t (m_cachedFirstVisibleFloor s) \<and> \<not> hasLight t)))"
  have "P (sweepFloors (visitCell w cam) drawDim firstFloor lastFloor s)"
  proof (rule sweepFloors_inv)
    show "P s" using assms by (simp add: P_def)
  next
    fix iz ix iy u
    assume p: "P u"
    then have f: "m_cachedFirstVisibleFloor u = m_cachedFirstVisibleFloor s"
      using sweepFrame_eqD(9) [of u s] by (simp add: P_def)
    show "P (visitCell w cam iz ix iy u)"
      using p visitCell_culled [of u w cam iz ix iy] by (simp add: P_def visitCell_frame f)
  qed
  then show ?thesis by (simp add: P_def)
qed

lemma sweep_positionChange:
  "filter isPositionChange (trace (sweepFloors (visitCell w cam) drawDim firstFloor lastFloor s))
     = filter isPositionChange (trace s)"
  by (rule sweepFloors_inv [where P = "\<lambda>t::MapView. filter isPositionChange (trace t) = filter isPositionChange (trace s)"])
     (simp_all add: visitCell_positionChange)

lemma cacheInv_bounds: "cacheInv s \<Longrightarrow> floorBoundsInArray s"
  by (simp add: cacheInv_def floorBoundsInArray_def)

lemma updateVisibleTilesCache_camera:
  assumes "updateVisibleTilesCache w s = Some s'"
  shows "getCameraPosition w' s' = getCameraPosition w' s"
proof (cases "isValid (getCameraPosition w s)")
  case False
  then show ?thesis using assms by (simp add: updateVisibleTilesCache_invalid)
next
  case True
  define t where "t = sweepFloors (visitCell w (getCameraPosition w s)) (m_drawDimension (sweepStart w s))
                    (m_cachedFirstVisibleFloor (sweepStart w s))
                    (m_cachedLastVisibleFloor (sweepStart w s)) (sweepStart w s)"
  have s': "s' = t\<lparr>m_mustUpdateVisibleCreaturesCache := False, m_mustUpdateVisibleTilesCache := False\<rparr>"
    using assms True by (simp add: updateVisibleTilesCache_valid t_def split: if_splits)
  have fr: "sweepFrame t = sweepFrame (sweepStart w s)"
    by (simp add: t_def sweep_frame)
  have "m_follow t = m_follow s" "m_followingCreature t = m_followingCreature s"
    "m_customCameraPosition t = m_customCameraPosition s"
    using sweepFrame_eqD [OF fr] by (simp_all add: sweepStart_fields)
  then show ?thesis
    by (intro getCameraPosition_cong) (simp_all add: s')
qed

lemma updateVisibleTilesCache_bounds:
  assumes valid: "isValid (getCameraPosition w s)" and inArray: "floorBoundsInArray s"
    and z: "0 \<le> pos_z (getCameraPosition w s)" "pos_z (getCameraPosition w s) \<le> MAX_Z"
  shows "\<exists>s'. updateVisibleTilesCache w s = Some s'
               \<and> 0 \<le> m_floorMin s' \<and> m_floorMin s' \<le> m_floorMax s' \<and> m_floorMax s' \<le> MAX_Z
               \<and> 0 \<le> m_cachedFirstVisibleFloor s'
               \<and> m_cachedFirstVisibleFloor s' \<le> m_cachedLastVisibleFloor s'
               \<and> m_cachedLastVisibleFloor s' \<le> MAX_Z"
proof -
  define s0 where "s0 = sweepStart w s"
  define t where "t = sweepFloors (visitCell w (getCameraPosition w s)) (m_drawDimension s0)
                        (m_cachedFirstVisibleFloor s0) (m_cachedLastVisibleFloor s0) s0"
  define s' where "s' = t\<lparr>m_mustUpdateVisibleCreaturesCache := False,
                          m_mustUpdateVisibleTilesCache := False\<rparr>"
  have res: "updateVisibleTilesCache w s = Some s'"
    using valid inArray by (simp add: updateVisibleTilesCache_valid s'_def t_def s0_def)
  have fl: "0 \<le> m_cachedFirstVisibleFloor s0"
    "m_cachedFirstVisibleFloor s0 \<le> m_cachedLastVisibleFloor s0"
    "m_cachedLastVisibleFloor s0 \<le> MAX_Z"
    using sweepStart_floors [of w s] by (simp_all add: s0_def)
  have start: "m_floorMin s0 = pos_z (getCameraPosition w s)"
    "m_floorMax s0 = pos_z (getCameraPosition w s)"
    using z by (simp_all add: s0_def sweepStart_fields u8_floor)
  have b: "m_floorMin t \<le> m_floorMax t \<and> 0 \<le> m_floorMin t \<and> m_floorMax t \<le> MAX_Z"
    unfolding t_def using start z fl by (intro sweep_bounds) simp_all
  have fr: "sweepFrame t = sweepFrame s0"
    by (simp add: t_def sweep_frame)
  have c: "m_cachedFirstVisibleFloor t = m_cachedFirstVisibleFloor s0"
    "m_cachedLastVisibleFloor t = m_cachedLastVisibleFloor s0"
    using sweepFrame_eqD [OF fr] by simp_all
  show ?thesis
    using res b c fl by (simp add: s'_def)
qed

lemma finish_fields:
  "m_floorMin (t\<lparr>m_mustUpdateVisibleCreaturesCache := a, m_mustUpdateVisibleTilesCache := b\<rparr>) = m_floorMin t"
  "m_floorMax (t\<lparr>m_mustUpdateVisibleCreaturesCache := a, m_mustUpdateVisibleTilesCache := b\<rparr>) = m_floorMax t"
  "bucketTiles (t\<lparr>m_mustUpdateVisibleCreaturesCache := a, m_mustUpdateVisibleTilesCache := b\<rparr>) z = bucketTiles t z"
  by (simp_all add: bucketTiles_def)

lemma updateVisibleTilesCache_result:
  assumes "isValid (getCameraPosition w s)" "floorBoundsInArray s"
  shows "\<exists>t. updateVisibleTilesCache w s
               = Some (t\<lparr>m_mustUpdateVisibleCreaturesCache := False,
                         m_mustUpdateVisibleTilesCache := False\<rparr>)
           \<and> sweepFrame t = sweepFrame (sweepStart w s)
           \<and> filter isPositionChange (trace t) = filter isPositionChange (trace (sweepStart w s))
           \<and> t = sweepFloors (visitCell w (getCameraPosition w s)) (m_drawDimension (sweepStart w s))
                    (m_cachedFirstVisibleFloor (sweepStart w s))
                    (m_cachedLastVisibleFloor (sweepStart w s)) (sweepStart w s)"
  using assms by (simp add: updateVisibleTilesCache_valid sweep_frame sweep_positionChange)

lemma updateVisibleTilesCache_positionChange:
  assumes "isValid (getCameraPosition w s)" "floorBoundsInArray s"
  shows "\<exists>s'. updateVisibleTilesCache w s = Some s'
           \<and> filter isPositionChange (trace s')
               = filter isPositionChange (trace s)
                 @ (if m_lastCameraPosition s \<noteq> getCameraPosition w s
                    then [OnPositionChange (getCameraPosition w s) (m_lastCameraPosition s)]
                    else [])
           \<and> m_lastCameraPosition s' = getCameraPosition w s
           \<and> \<not> m_mustUpdateVisibleTilesCache s'"
proof -
  obtain t where t: "updateVisibleTilesCache w s
               = Some (t\<lparr>m_mustUpdateVisibleCreaturesCache := False,
                         m_mustUpdateVisibleTilesCache := False\<rparr>)"
           "sweepFrame t = sweepFrame (sweepStart w s)"
           "filter isPositionChange (trace t) = filter isPositionChange (trace (sweepStart w s))"
    using updateVisibleTilesCache_result [OF assms] by blast
  have "m_lastCameraPosition t = getCameraPosition w s"
    using sweepFrame_eqD(11) [OF t(2)] by (simp add: sweepStart_fields)
  then show ?thesis
    using t by (simp add: sweepStart_positionChange)
qed

lemma Position0_invalid: "\<not> isValid Position0"
  by (simp add: isValid_def Position0_def)

lemma followCreature_fields:
  "m_lastCameraPosition (followCreature creature s) = Position0"
  "m_follow (followCreature creature s)"
  "m_followingCreature (followCreature creature s) = creature"
  "m_mustUpdateVisibleTilesCache (followCreature creature s)"
  "trace (followCreature creature s) = trace s"
  "floorBoundsInArray (followCreature creature s) = floorBoundsInArray s"
  by (simp_all add: followCreature_def requestVisibleTilesCacheUpdate_def floorBoundsInArray_def)

lemma setCameraPosition_fields:
  "m_lastCameraPosition (setCameraPosition pos s) = m_lastCameraPosition s"
  "\<not> m_follow (setCameraPosition pos s)"
  "getCameraPosition w (setCameraPosition pos s) = pos"
  "m_mustUpdateVisibleTilesCache (setCameraPosition pos s)"
  "trace (setCameraPosition pos s) = trace s"
  "floorBoundsInArray (setCameraPosition pos s) = floorBoundsInArray s"
  by (simp_all add: setCameraPosition_def requestVisibleTilesCacheUpdate_def floorBoundsInArray_def
      getCameraPosition_def split: option.splits)

lemma getCameraPosition_frame:
  "sweepFrame u = sweepFrame v \<Longrightarrow> getCameraPosition w u = getCameraPosition w v"
  using sweepFrame_eqD [of u v] by (intro getCameraPosition_cong) simp_all

lemma tilePosAt_frame:
  "sweepFrame u = sweepFrame v \<Longrightarrow> tilePosAt u cam iz ix iy = tilePosAt v cam iz ix iy"
  using sweepFrame_eqD(7) [of u v] by (simp add: tilePosAt_def)

lemma isInRange_frame:
  "sweepFrame u = sweepFrame v \<Longrightarrow> isInRange w u pos ignoreZ = isInRange w v pos ignoreZ"
  using sweepFrame_eqD(6) [of u v] getCameraPosition_frame [of u v w]
  by (simp add: isInRange_def)

lemma sweepStart_tilePosAt: "tilePosAt (sweepStart w s) cam iz ix iy = tilePosAt s cam iz ix iy"
  by (simp add: tilePosAt_def sweepStart_fields)

lemma sweepStart_isInRange: "isInRange w (sweepStart w s) pos ignoreZ = isInRange w s pos ignoreZ"
  by (simp add: isInRange_def sweepStart_fields sweepStart_camera)

lemma fold_visitCell_creatures:
  assumes "m_mustUpdateVisibleCreaturesCache s0"
  shows "sweepFrame u = sweepFrame s0 \<Longrightarrow>
     m_visibleCreatures (fold (\<lambda>(iz, ix, iy). visitCell w (getCameraPosition w s0) iz ix iy) cells u)
       = m_visibleCreatures u @ concat (map (cellCreatures w s0) cells)"
proof (induction cells arbitrary: u)
  case Nil
  then show ?case by simp
next
  case (Cons c cells)
  obtain iz ix iy where c: "c = (iz, ix, iy)" by (cases c) auto
  define u' where "u' = visitCell w (getCameraPosition w s0) iz ix iy u"
  have fr: "sweepFrame u' = sweepFrame s0"
    using Cons.prems by (simp add: u'_def visitCell_frame)
  have flag: "m_mustUpdateVisibleCreaturesCache u"
    using sweepFrame_eqD(1) [OF Cons.prems] assms by simp
  have step: "m_visibleCreatures u' = m_visibleCreatures u @ cellCreatures w s0 c"
    using flag
    by (simp add: u'_def c visitCell_creatures cellCreatures_def
        tilePosAt_frame [OF Cons.prems] isInRange_frame [OF Cons.prems] split: option.splits)
  show ?case
    using Cons.IH [OF fr] step by (simp add: c u'_def)
qed

lemma visitCell_culled_tile:
  assumes "getTile w (tilePosAt u cam iz ix iy) = Some tile" "isDrawable tile"
    "isCompletelyCovered tile (m_cachedFirstVisibleFloor u)" "\<not> hasLight tile"
  shows "m_cachedVisibleTiles (visitCell w cam iz ix iy u) = m_cachedVisibleTiles u
       \<and> (m_mustUpdateVisibleCreaturesCache u \<and> isInRange w u (tilePosAt u cam iz ix iy) False \<longrightarrow>
            m_visibleCreatures (visitCell w cam iz ix iy u)
              = m_visibleCreatures u @ rev (getCreatures tile))"
  using assms by (simp add: visitCell_def Let_def)


section \<open>The visible floor range\<close>

text \<open>
  Claim C1. For every floor lock (an 8-bit value) and every camera position
  (invalid, or valid with its floor in \<open>[0, MAX_Z]\<close>, as positions of the world are),
  the first visible floor is at most the last visible floor and both lie in
  \<open>[0, MAX_Z]\<close>. After a cache rebuild (the camera is valid and the floor bounds are
  inside the array, so the rebuild runs and returns), \<open>m_floorMin \<le> m_floorMax\<close>, the
  cached first visible floor is at most the cached last one, and all four lie in
  \<open>[0, MAX_Z]\<close>.
\<close>

theorem visible_floor_range_ordered:
  assumes cam: "isValid (getCameraPosition w s) \<longrightarrow>
                  0 \<le> pos_z (getCameraPosition w s) \<and> pos_z (getCameraPosition w s) \<le> MAX_Z"
    and lock: "0 \<le> m_lockedFirstVisibleFloor s \<and> m_lockedFirstVisibleFloor s \<le> 255"
  shows "0 \<le> calcFirstVisibleFloor w s
       \<and> calcFirstVisibleFloor w s \<le> calcLastVisibleFloor w s
       \<and> calcLastVisibleFloor w s \<le> MAX_Z
       \<and> (isValid (getCameraPosition w s) \<and> floorBoundsInArray s \<longrightarrow>
            (\<exists>s'. updateVisibleTilesCache w s = Some s'
               \<and> 0 \<le> m_floorMin s' \<and> m_floorMin s' \<le> m_floorMax s' \<and> m_floorMax s' \<le> MAX_Z
               \<and> 0 \<le> m_cachedFirstVisibleFloor s'
               \<and> m_cachedFirstVisibleFloor s' \<le> m_cachedLastVisibleFloor s'
               \<and> m_cachedLastVisibleFloor s' \<le> MAX_Z))"
proof -
  have calc: "0 \<le> calcFirstVisibleFloor w s
       \<and> calcFirstVisibleFloor w s \<le> calcLastVisibleFloor w s
       \<and> calcLastVisibleFloor w s \<le> MAX_Z"
    using calcFirstVisibleFloor_range [of w s] calcLastVisibleFloor_range [of w s]
      calcFirst_le_calcLast [OF cam] lock by simp
  have rebuild: "\<exists>s'. updateVisibleTilesCache w s = Some s'
               \<and> 0 \<le> m_floorMin s' \<and> m_floorMin s' \<le> m_floorMax s' \<and> m_floorMax s' \<le> MAX_Z
               \<and> 0 \<le> m_cachedFirstVisibleFloor s'
               \<and> m_cachedFirstVisibleFloor s' \<le> m_cachedLastVisibleFloor s'
               \<and> m_cachedLastVisibleFloor s' \<le> MAX_Z"
    if valid: "isValid (getCameraPosition w s)" and inArray: "floorBoundsInArray s"
    using valid inArray cam by (intro updateVisibleTilesCache_bounds) simp_all
  show ?thesis using calc rebuild by blast
qed

lemma exampleView_camera:
  "getCameraPosition exampleWorld exampleView = \<lparr>pos_x = 100, pos_y = 100, pos_z = 7\<rparr>"
  "isValid (getCameraPosition exampleWorld exampleView)"
  by (simp_all add: getCameraPosition_def exampleView_def isValid_def)

lemma exampleView_cacheInv: "cacheInv exampleView"
  by (simp add: cacheInv_def exampleView_def MAX_Z_def)

lemma exampleView_rebuilt:
  "map_option
     (\<lambda>s. (m_floorMin s, m_floorMax s, m_cachedFirstVisibleFloor s, m_cachedLastVisibleFloor s,
           m_visibleCreatures s,
           map getPosition (grounds (m_cachedVisibleTiles s 7)),
           map getPosition (borders (m_cachedVisibleTiles s 7)),
           map getPosition (bottomTops (m_cachedVisibleTiles s 7))))
     (updateVisibleTilesCache exampleWorld exampleView)
   = Some (7, 7, 0, 7, [1, 3, 2],
           [\<lparr>pos_x = 100, pos_y = 100, pos_z = 7\<rparr>], [],
           [\<lparr>pos_x = 100, pos_y = 100, pos_z = 7\<rparr>])"
  by code_simp

theorem visible_floor_range_ordered_witness:
  "isValid (getCameraPosition exampleWorld exampleView)
   \<and> pos_z (getCameraPosition exampleWorld exampleView) = 7
   \<and> m_lockedFirstVisibleFloor exampleView = 255
   \<and> floorBoundsInArray exampleView
   \<and> calcFirstVisibleFloor exampleWorld exampleView \<le> calcLastVisibleFloor exampleWorld exampleView
   \<and> (\<exists>s'. updateVisibleTilesCache exampleWorld exampleView = Some s'
          \<and> m_floorMin s' \<le> m_floorMax s' \<and> m_floorMax s' \<le> MAX_Z
          \<and> m_cachedFirstVisibleFloor s' \<le> m_cachedLastVisibleFloor s'
          \<and> m_floorMin s' = 7 \<and> m_floorMax s' = 7
          \<and> m_cachedFirstVisibleFloor s' = 0 \<and> m_cachedLastVisibleFloor s' = 7)"
proof -
  have z: "pos_z (getCameraPosition exampleWorld exampleView) = 7"
    by (simp add: exampleView_camera)
  have h1: "isValid (getCameraPosition exampleWorld exampleView) \<longrightarrow>
              0 \<le> pos_z (getCameraPosition exampleWorld exampleView)
              \<and> pos_z (getCameraPosition exampleWorld exampleView) \<le> MAX_Z"
    by (simp add: z MAX_Z_def)
  have l: "m_lockedFirstVisibleFloor exampleView = 255"
    by (simp add: exampleView_def)
  have h2: "0 \<le> m_lockedFirstVisibleFloor exampleView \<and> m_lockedFirstVisibleFloor exampleView \<le> 255"
    by (simp add: l)
  have b: "floorBoundsInArray exampleView"
    using exampleView_cacheInv by (rule cacheInv_bounds)
  note T = visible_floor_range_ordered [OF h1 h2]
  from T exampleView_camera(2) b obtain s' where
    s': "updateVisibleTilesCache exampleWorld exampleView = Some s'"
    by blast
  have conc: "m_floorMin s' = 7" "m_floorMax s' = 7"
    "m_cachedFirstVisibleFloor s' = 0" "m_cachedLastVisibleFloor s' = 7"
    using exampleView_rebuilt by (simp_all add: s')
  have r: "\<exists>s'. updateVisibleTilesCache exampleWorld exampleView = Some s'
          \<and> m_floorMin s' \<le> m_floorMax s' \<and> m_floorMax s' \<le> MAX_Z
          \<and> m_cachedFirstVisibleFloor s' \<le> m_cachedLastVisibleFloor s'
          \<and> m_floorMin s' = 7 \<and> m_floorMax s' = 7
          \<and> m_cachedFirstVisibleFloor s' = 0 \<and> m_cachedLastVisibleFloor s' = 7"
    using s' conc by (intro exI [of _ s']) (simp add: MAX_Z_def)
  show ?thesis
    using T exampleView_camera(2) z l b r by (intro conjI) simp_all
qed


section \<open>Occlusion culling\<close>

text \<open>
  Claim C2. A rebuild from a cache whose floors outside the floor bounds are empty
  (the invariant every rebuild leaves behind) returns, and afterwards no bucket
  (grounds, borders, bottomTops) of any floor holds a tile that is completely
  covered from the first visible floor and has no light. The rebuild keeps the
  invariant when the camera's floor lies in \<open>[0, MAX_Z]\<close>.
\<close>

theorem covered_unlit_tiles_never_cached:
  assumes inv: "cacheInv s" and valid: "isValid (getCameraPosition w s)"
  shows "\<exists>s'. updateVisibleTilesCache w s = Some s'
           \<and> (\<forall>z. \<forall>tile \<in> bucketTiles s' z.
                  \<not> (isCompletelyCovered tile (m_cachedFirstVisibleFloor s') \<and> \<not> hasLight tile))
           \<and> (0 \<le> pos_z (getCameraPosition w s) \<and> pos_z (getCameraPosition w s) \<le> MAX_Z
                \<longrightarrow> cacheInv s')"
proof -
  define s0 where "s0 = sweepStart w s"
  define t where "t = sweepFloors (visitCell w (getCameraPosition w s)) (m_drawDimension s0)
                        (m_cachedFirstVisibleFloor s0) (m_cachedLastVisibleFloor s0) s0"
  define s' where "s' = t\<lparr>m_mustUpdateVisibleCreaturesCache := False,
                          m_mustUpdateVisibleTilesCache := False\<rparr>"
  have res: "updateVisibleTilesCache w s = Some s'"
    using valid cacheInv_bounds [OF inv]
    by (simp add: updateVisibleTilesCache_valid s'_def t_def s0_def)
  have empty: "m_cachedVisibleTiles s0 z = MapList_clear" for z
    using sweepStart_empty [OF inv] by (simp add: s0_def)
  have fr: "sweepFrame t = sweepFrame s0"
    by (simp add: t_def sweep_frame)
  have first: "m_cachedFirstVisibleFloor s' = m_cachedFirstVisibleFloor s0"
    using sweepFrame_eqD(9) [OF fr] by (simp add: s'_def)
  have "\<forall>z. \<forall>tile \<in> bucketTiles s0 z.
          \<not> (isCompletelyCovered tile (m_cachedFirstVisibleFloor s0) \<and> \<not> hasLight tile)"
    using empty by (simp add: bucketTiles_clear)
  then have "\<forall>z. \<forall>tile \<in> bucketTiles t z.
          \<not> (isCompletelyCovered tile (m_cachedFirstVisibleFloor s0) \<and> \<not> hasLight tile)"
    unfolding t_def by (rule sweep_culled)
  then have culled: "\<forall>z. \<forall>tile \<in> bucketTiles s' z.
          \<not> (isCompletelyCovered tile (m_cachedFirstVisibleFloor s') \<and> \<not> hasLight tile)"
    by (simp add: first) (simp add: s'_def finish_fields)
  have keeps: "cacheInv s'"
    if z: "0 \<le> pos_z (getCameraPosition w s) \<and> pos_z (getCameraPosition w s) \<le> MAX_Z"
  proof -
    have fl: "0 \<le> m_cachedFirstVisibleFloor s0"
      "m_cachedFirstVisibleFloor s0 \<le> m_cachedLastVisibleFloor s0"
      "m_cachedLastVisibleFloor s0 \<le> MAX_Z"
      using sweepStart_floors [of w s] by (simp_all add: s0_def)
    have start: "m_floorMin s0 = pos_z (getCameraPosition w s)"
      "m_floorMax s0 = pos_z (getCameraPosition w s)"
      using z by (simp_all add: s0_def sweepStart_fields u8_floor)
    have b: "m_floorMin t \<le> m_floorMax t \<and> 0 \<le> m_floorMin t \<and> m_floorMax t \<le> MAX_Z"
      unfolding t_def using start z fl by (intro sweep_bounds) simp_all
    have "\<forall>z. z < m_floorMin t \<or> m_floorMax t < z \<longrightarrow> m_cachedVisibleTiles t z = MapList_clear"
      unfolding t_def using start empty by (intro sweep_outside_empty) simp_all
    then show ?thesis
      using b by (simp add: cacheInv_def s'_def)
  qed
  show ?thesis using res culled keeps by blast
qed

theorem covered_unlit_tiles_never_cached_witness:
  "cacheInv exampleView \<and> isValid (getCameraPosition exampleWorld exampleView)
   \<and> getTile exampleWorld \<lparr>pos_x = 101, pos_y = 100, pos_z = 7\<rparr> = Some coveredTile
   \<and> isDrawable coveredTile \<and> hasGround coveredTile
   \<and> (\<exists>s'. updateVisibleTilesCache exampleWorld exampleView = Some s'
          \<and> (\<forall>z. \<forall>tile \<in> bucketTiles s' z.
                 \<not> (isCompletelyCovered tile (m_cachedFirstVisibleFloor s') \<and> \<not> hasLight tile))
          \<and> cacheInv s'
          \<and> map getPosition (grounds (m_cachedVisibleTiles s' 7))
              = [\<lparr>pos_x = 100, pos_y = 100, pos_z = 7\<rparr>]
          \<and> map getPosition (borders (m_cachedVisibleTiles s' 7)) = []
          \<and> map getPosition (bottomTops (m_cachedVisibleTiles s' 7))
              = [\<lparr>pos_x = 100, pos_y = 100, pos_z = 7\<rparr>])"
proof -
  have z: "0 \<le> pos_z (getCameraPosition exampleWorld exampleView)
           \<and> pos_z (getCameraPosition exampleWorld exampleView) \<le> MAX_Z"
    by (simp add: exampleView_camera MAX_Z_def)
  have t: "getTile exampleWorld \<lparr>pos_x = 101, pos_y = 100, pos_z = 7\<rparr> = Some coveredTile"
    "isDrawable coveredTile" "hasGround coveredTile"
    by (simp_all add: exampleWorld_def coveredTile_def)
  from covered_unlit_tiles_never_cached [OF exampleView_cacheInv exampleView_camera(2)] z
  obtain s' where s': "updateVisibleTilesCache exampleWorld exampleView = Some s'"
    "\<forall>z. \<forall>tile \<in> bucketTiles s' z.
        \<not> (isCompletelyCovered tile (m_cachedFirstVisibleFloor s') \<and> \<not> hasLight tile)"
    "cacheInv s'"
    by blast
  have conc: "map getPosition (grounds (m_cachedVisibleTiles s' 7))
              = [\<lparr>pos_x = 100, pos_y = 100, pos_z = 7\<rparr>]"
    "map getPosition (borders (m_cachedVisibleTiles s' 7)) = []"
    "map getPosition (bottomTops (m_cachedVisibleTiles s' 7))
              = [\<lparr>pos_x = 100, pos_y = 100, pos_z = 7\<rparr>]"
    using exampleView_rebuilt by (simp_all add: s'(1))
  have r: "\<exists>s'. updateVisibleTilesCache exampleWorld exampleView = Some s'
          \<and> (\<forall>z. \<forall>tile \<in> bucketTiles s' z.
                 \<not> (isCompletelyCovered tile (m_cachedFirstVisibleFloor s') \<and> \<not> hasLight tile))
          \<and> cacheInv s'
          \<and> map getPosition (grounds (m_cachedVisibleTiles s' 7))
              = [\<lparr>pos_x = 100, pos_y = 100, pos_z = 7\<rparr>]
          \<and> map getPosition (borders (m_cachedVisibleTiles s' 7)) = []
          \<and> map getPosition (bottomTops (m_cachedVisibleTiles s' 7))
              = [\<lparr>pos_x = 100, pos_y = 100, pos_z = 7\<rparr>]"
    using s' conc by (intro exI [of _ s'] conjI)
  show ?thesis
    using exampleView_cacheInv exampleView_camera(2) t r by (intro conjI)
qed


text \<open>
  Claim C10. In a rebuild with the creature refresh pending, the list of visible
  creatures is the concatenation, over the cells in sweep order, of the creatures
  of each drawable in-range tile, topmost first; whether a tile is covered plays
  no part in it. For a single cell whose drawable tile is completely covered and
  unlit, the visit leaves all buckets as they are and still appends the tile's
  creatures in reverse order.
\<close>

theorem culled_tiles_keep_their_creatures:
  assumes pending: "m_mustUpdateVisibleCreaturesCache s"
    and valid: "isValid (getCameraPosition w s)"
    and inArray: "floorBoundsInArray s"
  shows "(\<exists>s'. updateVisibleTilesCache w s = Some s'
            \<and> m_visibleCreatures s'
                = concat (map (cellCreatures w s)
                            (sweepCells (m_drawDimension s) (m_cachedFirstVisibleFloor s')
                               (m_cachedLastVisibleFloor s'))))
       \<and> (getTile w (tilePosAt u cam iz ix iy) = Some tile \<and> isDrawable tile
             \<and> isCompletelyCovered tile (m_cachedFirstVisibleFloor u) \<and> \<not> hasLight tile
             \<and> m_mustUpdateVisibleCreaturesCache u \<and> isInRange w u (tilePosAt u cam iz ix iy) False
             \<longrightarrow> m_cachedVisibleTiles (visitCell w cam iz ix iy u) = m_cachedVisibleTiles u
                 \<and> m_visibleCreatures (visitCell w cam iz ix iy u)
                     = m_visibleCreatures u @ rev (getCreatures tile))"
proof -
  define s0 where "s0 = sweepStart w s"
  define cells where "cells = sweepCells (m_drawDimension s0) (m_cachedFirstVisibleFloor s0)
                                (m_cachedLastVisibleFloor s0)"
  define t where "t = sweepFloors (visitCell w (getCameraPosition w s)) (m_drawDimension s0)
                        (m_cachedFirstVisibleFloor s0) (m_cachedLastVisibleFloor s0) s0"
  define s' where "s' = t\<lparr>m_mustUpdateVisibleCreaturesCache := False,
                          m_mustUpdateVisibleTilesCache := False\<rparr>"
  have res: "updateVisibleTilesCache w s = Some s'"
    using valid inArray by (simp add: updateVisibleTilesCache_valid s'_def t_def s0_def)
  have flag0: "m_mustUpdateVisibleCreaturesCache s0"
    using pending by (simp add: s0_def sweepStart_flag)
  have cam0: "getCameraPosition w s0 = getCameraPosition w s"
    by (simp add: s0_def sweepStart_camera)
  have empty0: "m_visibleCreatures s0 = []"
    using flag0 sweepStart_creatures [of w s] by (simp add: s0_def)
  have t_fold: "t = fold (\<lambda>(iz, ix, iy). visitCell w (getCameraPosition w s0) iz ix iy) cells s0"
    by (simp add: t_def cells_def sweepFloors_fold cam0)
  have "m_visibleCreatures t = m_visibleCreatures s0 @ concat (map (cellCreatures w s0) cells)"
    unfolding t_fold using flag0 by (intro fold_visitCell_creatures) simp_all
  moreover have "cellCreatures w s0 = cellCreatures w s"
  proof (rule ext)
    fix c
    show "cellCreatures w s0 c = cellCreatures w s c"
      by (cases c) (simp add: cellCreatures_def s0_def sweepStart_tilePosAt sweepStart_isInRange
          sweepStart_camera split: option.splits)
  qed
  ultimately have vc: "m_visibleCreatures t = concat (map (cellCreatures w s) cells)"
    using empty0 by simp
  have fr: "sweepFrame t = sweepFrame s0"
    by (simp add: t_def sweep_frame)
  have c: "m_cachedFirstVisibleFloor s' = m_cachedFirstVisibleFloor s0"
    "m_cachedLastVisibleFloor s' = m_cachedLastVisibleFloor s0"
    using sweepFrame_eqD [OF fr] by (simp_all add: s'_def)
  have d: "m_drawDimension s0 = m_drawDimension s"
    by (simp add: s0_def sweepStart_fields)
  have one: "\<exists>s'. updateVisibleTilesCache w s = Some s'
            \<and> m_visibleCreatures s'
                = concat (map (cellCreatures w s)
                            (sweepCells (m_drawDimension s) (m_cachedFirstVisibleFloor s')
                               (m_cachedLastVisibleFloor s')))"
    using res vc c d by (simp add: s'_def cells_def)
  have two: "getTile w (tilePosAt u cam iz ix iy) = Some tile \<and> isDrawable tile
             \<and> isCompletelyCovered tile (m_cachedFirstVisibleFloor u) \<and> \<not> hasLight tile
             \<and> m_mustUpdateVisibleCreaturesCache u \<and> isInRange w u (tilePosAt u cam iz ix iy) False
             \<longrightarrow> m_cachedVisibleTiles (visitCell w cam iz ix iy u) = m_cachedVisibleTiles u
                 \<and> m_visibleCreatures (visitCell w cam iz ix iy u)
                     = m_visibleCreatures u @ rev (getCreatures tile)"
    by (intro impI) (simp add: visitCell_culled_tile)
  show ?thesis
    using one two by (rule conjI)
qed

lemma exampleView_covered_cell:
  "tilePosAt exampleView \<lparr>pos_x = 100, pos_y = 100, pos_z = 7\<rparr> 7 9 6
     = \<lparr>pos_x = 101, pos_y = 100, pos_z = 7\<rparr>"
  by (simp add: tilePosAt_def exampleView_def translated_def coveredUp_def Let_def MAX_Z_def)

theorem culled_tiles_keep_their_creatures_witness:
  "m_mustUpdateVisibleCreaturesCache exampleView
   \<and> isValid (getCameraPosition exampleWorld exampleView)
   \<and> floorBoundsInArray exampleView
   \<and> (\<exists>s'. updateVisibleTilesCache exampleWorld exampleView = Some s'
          \<and> m_visibleCreatures s'
              = concat (map (cellCreatures exampleWorld exampleView)
                          (sweepCells (m_drawDimension exampleView) (m_cachedFirstVisibleFloor s')
                             (m_cachedLastVisibleFloor s')))
          \<and> m_visibleCreatures s' = [1, 3, 2]
          \<and> map getPosition (grounds (m_cachedVisibleTiles s' 7))
              = [\<lparr>pos_x = 100, pos_y = 100, pos_z = 7\<rparr>])
   \<and> isCompletelyCovered coveredTile (m_cachedFirstVisibleFloor exampleView)
   \<and> \<not> hasLight coveredTile
   \<and> m_cachedVisibleTiles
        (visitCell exampleWorld \<lparr>pos_x = 100, pos_y = 100, pos_z = 7\<rparr> 7 9 6 exampleView)
       = m_cachedVisibleTiles exampleView
   \<and> m_visibleCreatures
        (visitCell exampleWorld \<lparr>pos_x = 100, pos_y = 100, pos_z = 7\<rparr> 7 9 6 exampleView)
       = [3, 2]"
proof -
  have p: "m_mustUpdateVisibleCreaturesCache exampleView"
    by (simp add: exampleView_def)
  have b: "floorBoundsInArray exampleView"
    using exampleView_cacheInv by (rule cacheInv_bounds)
  have tile: "getTile exampleWorld \<lparr>pos_x = 101, pos_y = 100, pos_z = 7\<rparr> = Some coveredTile"
    by (simp add: exampleWorld_def)
  have c: "isDrawable coveredTile" "isCompletelyCovered coveredTile (m_cachedFirstVisibleFloor exampleView)"
    "\<not> hasLight coveredTile" "getCreatures coveredTile = [2, 3]"
    by (simp_all add: coveredTile_def)
  have r: "isInRange exampleWorld exampleView \<lparr>pos_x = 101, pos_y = 100, pos_z = 7\<rparr> False"
    by (simp add: isInRange_def exampleWorld_def)
  have e: "m_visibleCreatures exampleView = []"
    by (simp add: exampleView_def)
  note T = culled_tiles_keep_their_creatures [OF p exampleView_camera(2) b,
        of exampleView "\<lparr>pos_x = 100, pos_y = 100, pos_z = 7\<rparr>" 7 9 6 coveredTile]
  from T obtain s' where s': "updateVisibleTilesCache exampleWorld exampleView = Some s'"
    "m_visibleCreatures s'
              = concat (map (cellCreatures exampleWorld exampleView)
                          (sweepCells (m_drawDimension exampleView) (m_cachedFirstVisibleFloor s')
                             (m_cachedLastVisibleFloor s')))"
    by blast
  have conc: "m_visibleCreatures s' = [1, 3, 2]"
    "map getPosition (grounds (m_cachedVisibleTiles s' 7))
              = [\<lparr>pos_x = 100, pos_y = 100, pos_z = 7\<rparr>]"
    using exampleView_rebuilt by (simp_all add: s'(1))
  have one: "\<exists>s'. updateVisibleTilesCache exampleWorld exampleView = Some s'
          \<and> m_visibleCreatures s'
              = concat (map (cellCreatures exampleWorld exampleView)
                          (sweepCells (m_drawDimension exampleView) (m_cachedFirstVisibleFloor s')
                             (m_cachedLastVisibleFloor s')))
          \<and> m_visibleCreatures s' = [1, 3, 2]
          \<and> map getPosition (grounds (m_cachedVisibleTiles s' 7))
              = [\<lparr>pos_x = 100, pos_y = 100, pos_z = 7\<rparr>]"
    using s' conc by (intro exI [of _ s'] conjI)
  have two: "m_cachedVisibleTiles
        (visitCell exampleWorld \<lparr>pos_x = 100, pos_y = 100, pos_z = 7\<rparr> 7 9 6 exampleView)
       = m_cachedVisibleTiles exampleView
   \<and> m_visibleCreatures
        (visitCell exampleWorld \<lparr>pos_x = 100, pos_y = 100, pos_z = 7\<rparr> 7 9 6 exampleView)
       = [3, 2]"
    using T p tile c r e by (simp add: exampleView_covered_cell)
  show ?thesis
    using p exampleView_camera(2) b one c(2,3) two by (intro conjI) simp_all
qed


section \<open>Switching the camera mode\<close>

lemma visitCell_refresh:
  "filter isRefreshEvent (trace (visitCell w cam iz ix iy s)) = filter isRefreshEvent (trace s)"
  by (simp add: visitCell_def addVisibleTile_def emit_def Let_def split: option.splits)

lemma sweep_refresh:
  "filter isRefreshEvent (trace (sweepFloors (visitCell w cam) drawDim firstFloor lastFloor s))
     = filter isRefreshEvent (trace s)"
  by (rule sweepFloors_inv [where P = "\<lambda>t::MapView. filter isRefreshEvent (trace t) = filter isRefreshEvent (trace s)"])
     (simp_all add: visitCell_refresh)

lemma sweep_creatures_idle:
  assumes "\<not> m_mustUpdateVisibleCreaturesCache s"
  shows "m_visibleCreatures (sweepFloors (visitCell w cam) drawDim firstFloor lastFloor s)
           = m_visibleCreatures s"
proof -
  have "sweepFrame (sweepFloors (visitCell w cam) drawDim firstFloor lastFloor s) = sweepFrame s
        \<and> m_visibleCreatures (sweepFloors (visitCell w cam) drawDim firstFloor lastFloor s)
            = m_visibleCreatures s"
  proof (rule sweepFloors_inv [where P = "\<lambda>t::MapView. sweepFrame t = sweepFrame s
             \<and> m_visibleCreatures t = m_visibleCreatures s"])
    show "sweepFrame s = sweepFrame s \<and> m_visibleCreatures s = m_visibleCreatures s"
      by simp
  next
    fix iz ix iy and t :: MapView
    assume t: "sweepFrame t = sweepFrame s \<and> m_visibleCreatures t = m_visibleCreatures s"
    then have "\<not> m_mustUpdateVisibleCreaturesCache t"
      using sweepFrame_eqD(1) [of t s] assms by simp
    then show "sweepFrame (visitCell w cam iz ix iy t) = sweepFrame s
             \<and> m_visibleCreatures (visitCell w cam iz ix iy t) = m_visibleCreatures s"
      using t by (simp add: visitCell_frame visitCell_creatures split: option.splits)
  qed
  then show ?thesis by simp
qed

lemma sweepStart_refresh:
  "filter isRefreshEvent (trace (sweepStart w s))
     = filter isRefreshEvent (trace s)
       @ (if m_lastCameraPosition s \<noteq> getCameraPosition w s
             \<and> pos_z (m_lastCameraPosition s) \<noteq> pos_z (getCameraPosition w s)
          then OnFloorChange (u8 (pos_z (getCameraPosition w s))) (u8 (pos_z (m_lastCameraPosition s)))
               # (if m_drawLights s then [SetGlobalLight] else [])
          else [])"
  by (simp add: sweepStart_def Let_def cameraChanged_def onFloorChange_def updateLight_def emit_def)

lemma updateVisibleTilesCache_refresh:
  assumes valid: "isValid (getCameraPosition w s)" and inArray: "floorBoundsInArray s"
  shows "\<exists>s'. updateVisibleTilesCache w s = Some s'
           \<and> filter isRefreshEvent (trace s') = filter isRefreshEvent (trace (sweepStart w s))
           \<and> m_visibleCreatures s'
               = (if m_mustUpdateVisibleCreaturesCache (sweepStart w s)
                  then concat (map (cellCreatures w s)
                                 (sweepCells (m_drawDimension s) (m_cachedFirstVisibleFloor s')
                                    (m_cachedLastVisibleFloor s')))
                  else m_visibleCreatures s)"
proof -
  define s0 where "s0 = sweepStart w s"
  define cells where "cells = sweepCells (m_drawDimension s0) (m_cachedFirstVisibleFloor s0)
                                (m_cachedLastVisibleFloor s0)"
  define t where "t = sweepFloors (visitCell w (getCameraPosition w s)) (m_drawDimension s0)
                        (m_cachedFirstVisibleFloor s0) (m_cachedLastVisibleFloor s0) s0"
  define s' where "s' = t\<lparr>m_mustUpdateVisibleCreaturesCache := False,
                          m_mustUpdateVisibleTilesCache := False\<rparr>"
  have res: "updateVisibleTilesCache w s = Some s'"
    using valid inArray by (simp add: updateVisibleTilesCache_valid s'_def t_def s0_def)
  have tr: "filter isRefreshEvent (trace s') = filter isRefreshEvent (trace s0)"
    by (simp add: s'_def t_def sweep_refresh)
  have fr: "sweepFrame t = sweepFrame s0"
    by (simp add: t_def sweep_frame)
  have c: "m_cachedFirstVisibleFloor s' = m_cachedFirstVisibleFloor s0"
    "m_cachedLastVisibleFloor s' = m_cachedLastVisibleFloor s0"
    using sweepFrame_eqD [OF fr] by (simp_all add: s'_def)
  have d: "m_drawDimension s0 = m_drawDimension s"
    by (simp add: s0_def sweepStart_fields)
  have idle: "m_visibleCreatures s' = m_visibleCreatures s"
    if "\<not> m_mustUpdateVisibleCreaturesCache s0"
    using that sweepStart_creatures [of w s]
    by (simp add: s'_def t_def sweep_creatures_idle s0_def)
  have pending: "m_visibleCreatures s' = concat (map (cellCreatures w s) cells)"
    if flag0: "m_mustUpdateVisibleCreaturesCache s0"
  proof -
    have cam0: "getCameraPosition w s0 = getCameraPosition w s"
      by (simp add: s0_def sweepStart_camera)
    have empty0: "m_visibleCreatures s0 = []"
      using flag0 sweepStart_creatures [of w s] by (simp add: s0_def)
    have t_fold: "t = fold (\<lambda>(iz, ix, iy). visitCell w (getCameraPosition w s0) iz ix iy) cells s0"
      by (simp add: t_def cells_def sweepFloors_fold cam0)
    have "m_visibleCreatures t = m_visibleCreatures s0 @ concat (map (cellCreatures w s0) cells)"
      unfolding t_fold using flag0 by (intro fold_visitCell_creatures) simp_all
    moreover have "cellCreatures w s0 = cellCreatures w s"
    proof (rule ext)
      fix c
      show "cellCreatures w s0 c = cellCreatures w s c"
        by (cases c) (simp add: cellCreatures_def s0_def sweepStart_tilePosAt sweepStart_isInRange
            sweepStart_camera split: option.splits)
    qed
    ultimately show ?thesis
      using empty0 by (simp add: s'_def)
  qed
  show ?thesis
    using res tr idle pending c d by (auto simp add: s0_def cells_def)
qed


lemma followCreature_keeps:
  "m_drawLights (followCreature creature s) = m_drawLights s"
  "m_drawDimension (followCreature creature s) = m_drawDimension s"
  by (simp_all add: followCreature_def requestVisibleTilesCacheUpdate_def)

lemma setCameraPosition_keeps:
  "m_mustUpdateVisibleCreaturesCache (setCameraPosition pos s) = m_mustUpdateVisibleCreaturesCache s"
  "m_visibleCreatures (setCameraPosition pos s) = m_visibleCreatures s"
  by (simp_all add: setCameraPosition_def requestVisibleTilesCacheUpdate_def)

text \<open>
  Claim C6. Switching the camera mode is meant to reset the last camera position,
  so that the next rebuild of the cache takes the camera as moved from nowhere and
  refreshes everything. \<open>followCreature\<close> does so: it stores the invalid position,
  and the next rebuild with a valid camera (its floor in \<open>[0, MAX_Z]\<close>) calls the
  position-change hook and the floor-change hook, updates the light and collects
  the visible creatures anew. \<open>setCameraPosition\<close> does not: it leaves the last
  camera position as it is. When the new position lies on the floor of the last
  one and no creature refresh is pending, the next rebuild calls the
  position-change hook only if the position differs, calls neither the
  floor-change hook nor the light update, and keeps the list of visible creatures
  collected at the old position.
\<close>

theorem setCameraPosition_leaves_sentinel:
  "m_lastCameraPosition (followCreature creature s) = Position0
   \<and> m_lastCameraPosition (setCameraPosition pos s) = m_lastCameraPosition s
   \<and> (isValid (getCameraPosition w (followCreature creature s))
        \<and> 0 \<le> pos_z (getCameraPosition w (followCreature creature s))
        \<and> pos_z (getCameraPosition w (followCreature creature s)) \<le> MAX_Z
        \<and> floorBoundsInArray s \<longrightarrow>
        (\<exists>s'. updateVisibleTilesCache w (followCreature creature s) = Some s'
           \<and> filter isPositionChange (trace s')
               = filter isPositionChange (trace s)
                 @ [OnPositionChange (getCameraPosition w (followCreature creature s)) Position0]
           \<and> filter isRefreshEvent (trace s')
               = filter isRefreshEvent (trace s)
                 @ OnFloorChange (pos_z (getCameraPosition w (followCreature creature s))) 255
                   # (if m_drawLights s then [SetGlobalLight] else [])
           \<and> m_visibleCreatures s'
               = concat (map (cellCreatures w (followCreature creature s))
                           (sweepCells (m_drawDimension s) (m_cachedFirstVisibleFloor s')
                              (m_cachedLastVisibleFloor s')))))
   \<and> (isValid pos \<and> floorBoundsInArray s \<and> pos_z pos = pos_z (m_lastCameraPosition s)
        \<and> \<not> m_mustUpdateVisibleCreaturesCache s \<longrightarrow>
        (\<exists>s'. updateVisibleTilesCache w (setCameraPosition pos s) = Some s'
           \<and> filter isPositionChange (trace s')
               = filter isPositionChange (trace s)
                 @ (if pos \<noteq> m_lastCameraPosition s
                    then [OnPositionChange pos (m_lastCameraPosition s)] else [])
           \<and> filter isRefreshEvent (trace s') = filter isRefreshEvent (trace s)
           \<and> m_visibleCreatures s' = m_visibleCreatures s))"
proof -
  define f where "f = followCreature creature s"
  define c where "c = setCameraPosition pos s"
  have follow: "\<exists>s'. updateVisibleTilesCache w f = Some s'
           \<and> filter isPositionChange (trace s')
               = filter isPositionChange (trace s) @ [OnPositionChange (getCameraPosition w f) Position0]
           \<and> filter isRefreshEvent (trace s')
               = filter isRefreshEvent (trace s)
                 @ OnFloorChange (pos_z (getCameraPosition w f)) 255
                   # (if m_drawLights s then [SetGlobalLight] else [])
           \<and> m_visibleCreatures s'
               = concat (map (cellCreatures w f)
                           (sweepCells (m_drawDimension s) (m_cachedFirstVisibleFloor s')
                              (m_cachedLastVisibleFloor s')))"
    if v: "isValid (getCameraPosition w f)"
      and z: "0 \<le> pos_z (getCameraPosition w f)" "pos_z (getCameraPosition w f) \<le> MAX_Z"
      and b: "floorBoundsInArray s"
  proof -
    have bf: "floorBoundsInArray f"
      using b by (simp add: f_def followCreature_fields)
    have last: "m_lastCameraPosition f = Position0"
      by (simp add: f_def followCreature_fields)
    have ne: "Position0 \<noteq> getCameraPosition w f"
      using v Position0_invalid by auto
    have nz: "pos_z Position0 \<noteq> pos_z (getCameraPosition w f)"
      using z by (simp add: Position0_def MAX_Z_def)
    have flag: "m_mustUpdateVisibleCreaturesCache (sweepStart w f)"
      using ne nz by (simp add: sweepStart_flag last)
    have start: "filter isRefreshEvent (trace (sweepStart w f))
                   = filter isRefreshEvent (trace s)
                     @ OnFloorChange (pos_z (getCameraPosition w f)) 255
                       # (if m_drawLights s then [SetGlobalLight] else [])"
      using ne nz z
      by (simp add: sweepStart_refresh last u8_floor f_def followCreature_fields followCreature_keeps)
         (simp add: Position0_def u8_def)
    obtain s' where r: "updateVisibleTilesCache w f = Some s'"
      "filter isRefreshEvent (trace s') = filter isRefreshEvent (trace (sweepStart w f))"
      "m_visibleCreatures s'
         = (if m_mustUpdateVisibleCreaturesCache (sweepStart w f)
            then concat (map (cellCreatures w f)
                           (sweepCells (m_drawDimension f) (m_cachedFirstVisibleFloor s')
                              (m_cachedLastVisibleFloor s')))
            else m_visibleCreatures f)"
      using updateVisibleTilesCache_refresh [OF v bf] by blast
    obtain s'' where p: "updateVisibleTilesCache w f = Some s''"
      "filter isPositionChange (trace s'')
         = filter isPositionChange (trace f)
           @ (if m_lastCameraPosition f \<noteq> getCameraPosition w f
              then [OnPositionChange (getCameraPosition w f) (m_lastCameraPosition f)] else [])"
      using updateVisibleTilesCache_positionChange [OF v bf] by blast
    have same: "s'' = s'"
      using r(1) p(1) by simp
    have pc: "filter isPositionChange (trace s')
               = filter isPositionChange (trace s) @ [OnPositionChange (getCameraPosition w f) Position0]"
      using p(2) ne by (simp add: same last) (simp add: f_def followCreature_fields)
    have cr: "m_visibleCreatures s'
               = concat (map (cellCreatures w f)
                           (sweepCells (m_drawDimension s) (m_cachedFirstVisibleFloor s')
                              (m_cachedLastVisibleFloor s')))"
      using r(3) flag by (simp add: f_def followCreature_keeps)
    show ?thesis
      using r(1) pc r(2) start cr by (intro exI [of _ s']) simp
  qed
  have fixed: "\<exists>s'. updateVisibleTilesCache w c = Some s'
           \<and> filter isPositionChange (trace s')
               = filter isPositionChange (trace s)
                 @ (if pos \<noteq> m_lastCameraPosition s
                    then [OnPositionChange pos (m_lastCameraPosition s)] else [])
           \<and> filter isRefreshEvent (trace s') = filter isRefreshEvent (trace s)
           \<and> m_visibleCreatures s' = m_visibleCreatures s"
    if v: "isValid pos" and b: "floorBoundsInArray s"
      and z: "pos_z pos = pos_z (m_lastCameraPosition s)"
      and idle: "\<not> m_mustUpdateVisibleCreaturesCache s"
  proof -
    have cam: "getCameraPosition w c = pos"
      by (simp add: c_def setCameraPosition_fields)
    have vc: "isValid (getCameraPosition w c)"
      using v by (simp add: cam)
    have bc: "floorBoundsInArray c"
      using b by (simp add: c_def setCameraPosition_fields)
    have last: "m_lastCameraPosition c = m_lastCameraPosition s"
      by (simp add: c_def setCameraPosition_fields)
    have keeps: "m_mustUpdateVisibleCreaturesCache c = m_mustUpdateVisibleCreaturesCache s"
      "m_visibleCreatures c = m_visibleCreatures s" "trace c = trace s"
      by (simp_all add: c_def setCameraPosition_keeps setCameraPosition_fields)
    have flag: "\<not> m_mustUpdateVisibleCreaturesCache (sweepStart w c)"
      using z idle by (simp add: sweepStart_flag last cam keeps)
    have start: "filter isRefreshEvent (trace (sweepStart w c)) = filter isRefreshEvent (trace s)"
      using z by (simp add: sweepStart_refresh last cam keeps)
    obtain s' where r: "updateVisibleTilesCache w c = Some s'"
      "filter isRefreshEvent (trace s') = filter isRefreshEvent (trace (sweepStart w c))"
      "m_visibleCreatures s'
         = (if m_mustUpdateVisibleCreaturesCache (sweepStart w c)
            then concat (map (cellCreatures w c)
                           (sweepCells (m_drawDimension c) (m_cachedFirstVisibleFloor s')
                              (m_cachedLastVisibleFloor s')))
            else m_visibleCreatures c)"
      using updateVisibleTilesCache_refresh [OF vc bc] by blast
    obtain s'' where p: "updateVisibleTilesCache w c = Some s''"
      "filter isPositionChange (trace s'')
         = filter isPositionChange (trace c)
           @ (if m_lastCameraPosition c \<noteq> getCameraPosition w c
              then [OnPositionChange (getCameraPosition w c) (m_lastCameraPosition c)] else [])"
      using updateVisibleTilesCache_positionChange [OF vc bc] by blast
    have same: "s'' = s'"
      using r(1) p(1) by simp
    have pc: "filter isPositionChange (trace s')
               = filter isPositionChange (trace s)
                 @ (if pos \<noteq> m_lastCameraPosition s
                    then [OnPositionChange pos (m_lastCameraPosition s)] else [])"
      using p(2) by (auto simp add: same last cam keeps)
    have cr: "m_visibleCreatures s' = m_visibleCreatures s"
      using r(3) flag by (simp add: keeps)
    show ?thesis
      using r(1) pc r(2) start cr by (intro exI [of _ s']) simp
  qed
  have l1: "m_lastCameraPosition f = Position0"
    by (simp add: f_def followCreature_fields)
  have l2: "m_lastCameraPosition c = m_lastCameraPosition s"
    by (simp add: c_def setCameraPosition_fields)
  show ?thesis
    using l1 l2 follow fixed unfolding f_def c_def by blast
qed

lemma litView_settled:
  "map_option
     (\<lambda>s. (m_visibleCreatures s, m_mustUpdateVisibleCreaturesCache s, m_lastCameraPosition s,
           m_floorMin s, m_floorMax s, m_drawLights s,
           length (filter isRefreshEvent (trace s)), length (filter isPositionChange (trace s))))
     (updateVisibleTilesCache farWorld litView)
   = Some ([1, 3, 2], False, \<lparr>pos_x = 100, pos_y = 100, pos_z = 7\<rparr>, 7, 7, True, 0, 0)"
  by code_simp

lemma litView_fixed_far:
  "map_option
     (\<lambda>s. (m_visibleCreatures s, map getPosition (grounds (m_cachedVisibleTiles s 7)),
           map getPosition (bottomTops (m_cachedVisibleTiles s 7))))
     (case updateVisibleTilesCache farWorld litView of
        None \<Rightarrow> None
      | Some s1 \<Rightarrow>
          updateVisibleTilesCache farWorld
            (setCameraPosition \<lparr>pos_x = 5000, pos_y = 5000, pos_z = 7\<rparr> s1))
   = Some ([1, 3, 2], [], [])"
  by code_simp

lemma litView_follow_far:
  "map_option
     (\<lambda>s. (m_visibleCreatures s, map getPosition (grounds (m_cachedVisibleTiles s 7)),
           map getPosition (bottomTops (m_cachedVisibleTiles s 7))))
     (case updateVisibleTilesCache farWorld litView of
        None \<Rightarrow> None
      | Some s1 \<Rightarrow> updateVisibleTilesCache farWorld (followCreature (Some 4) s1))
   = Some ([], [], [])"
  by code_simp

text \<open>
  The example viewport, once its cache has been built at \<open>(100, 100, 7)\<close>, is sent
  to \<open>(5000, 5000, 7)\<close>, where the map has no tile. After \<open>followCreature\<close> (creature
  4 stands there) the rebuild reports the floor change, updates the light and
  finds no creature. After \<open>setCameraPosition\<close> the last camera position is still
  \<open>(100, 100, 7)\<close>, and the rebuild does neither and keeps the creatures 1, 3 and 2
  of the old position, although it caches no tile.
\<close>

theorem setCameraPosition_leaves_sentinel_witness:
  "\<exists>s1. updateVisibleTilesCache farWorld litView = Some s1
      \<and> m_visibleCreatures s1 = [1, 3, 2]
      \<and> \<not> m_mustUpdateVisibleCreaturesCache s1
      \<and> floorBoundsInArray s1
      \<and> m_lastCameraPosition s1 = \<lparr>pos_x = 100, pos_y = 100, pos_z = 7\<rparr>
      \<and> isValid \<lparr>pos_x = 5000, pos_y = 5000, pos_z = 7\<rparr>
      \<and> getCameraPosition farWorld (followCreature (Some 4) s1)
          = \<lparr>pos_x = 5000, pos_y = 5000, pos_z = 7\<rparr>
      \<and> m_lastCameraPosition (followCreature (Some 4) s1) = Position0
      \<and> m_lastCameraPosition (setCameraPosition \<lparr>pos_x = 5000, pos_y = 5000, pos_z = 7\<rparr> s1)
          = \<lparr>pos_x = 100, pos_y = 100, pos_z = 7\<rparr>
      \<and> (\<exists>s'. updateVisibleTilesCache farWorld (followCreature (Some 4) s1) = Some s'
             \<and> filter isPositionChange (trace s')
                 = [OnPositionChange \<lparr>pos_x = 5000, pos_y = 5000, pos_z = 7\<rparr> Position0]
             \<and> filter isRefreshEvent (trace s') = [OnFloorChange 7 255, SetGlobalLight]
             \<and> m_visibleCreatures s' = []
             \<and> grounds (m_cachedVisibleTiles s' 7) = [])
      \<and> (\<exists>s'. updateVisibleTilesCache farWorld
                  (setCameraPosition \<lparr>pos_x = 5000, pos_y = 5000, pos_z = 7\<rparr> s1) = Some s'
             \<and> filter isPositionChange (trace s')
                 = [OnPositionChange \<lparr>pos_x = 5000, pos_y = 5000, pos_z = 7\<rparr>
                      \<lparr>pos_x = 100, pos_y = 100, pos_z = 7\<rparr>]
             \<and> filter isRefreshEvent (trace s') = []
             \<and> m_visibleCreatures s' = [1, 3, 2]
             \<and> grounds (m_cachedVisibleTiles s' 7) = [])"
proof -
  define far where "far = \<lparr>pos_x = 5000, pos_y = 5000, pos_z = (7::int)\<rparr>"
  define near where "near = \<lparr>pos_x = 100, pos_y = 100, pos_z = (7::int)\<rparr>"
  obtain s1 where s1: "updateVisibleTilesCache farWorld litView = Some s1"
    using litView_settled by (cases "updateVisibleTilesCache farWorld litView") simp_all
  have f1: "m_visibleCreatures s1 = [1, 3, 2]" "\<not> m_mustUpdateVisibleCreaturesCache s1"
    "m_lastCameraPosition s1 = near" "m_floorMin s1 = 7" "m_floorMax s1 = 7" "m_drawLights s1"
    "filter isRefreshEvent (trace s1) = []" "filter isPositionChange (trace s1) = []"
    using litView_settled by (simp_all add: s1 near_def)
  have b: "floorBoundsInArray s1"
    by (simp add: floorBoundsInArray_def f1 MAX_Z_def)
  have cam: "getCameraPosition farWorld (followCreature (Some 4) s1) = far"
    by (simp add: getCameraPosition_def followCreature_fields farWorld_def far_def)
  have v: "isValid far" "far \<noteq> near" "pos_z far = 7" "pos_z near = 7"
    by (simp_all add: isValid_def far_def near_def)
  note T = setCameraPosition_leaves_sentinel [of "Some 4" s1 far farWorld]
  have l1: "m_lastCameraPosition (followCreature (Some 4) s1) = Position0"
    using T by blast
  have l2: "m_lastCameraPosition (setCameraPosition far s1) = near"
    using T f1(3) by simp
  obtain u where u: "updateVisibleTilesCache farWorld (followCreature (Some 4) s1) = Some u"
    "filter isPositionChange (trace u)
       = filter isPositionChange (trace s1)
         @ [OnPositionChange (getCameraPosition farWorld (followCreature (Some 4) s1)) Position0]"
    "filter isRefreshEvent (trace u)
       = filter isRefreshEvent (trace s1)
         @ OnFloorChange (pos_z (getCameraPosition farWorld (followCreature (Some 4) s1))) 255
           # (if m_drawLights s1 then [SetGlobalLight] else [])"
    using T b v by (auto simp add: cam MAX_Z_def)
  have u2: "m_visibleCreatures u = []" "grounds (m_cachedVisibleTiles u 7) = []"
    using litView_follow_far by (simp_all add: s1 u(1))
  obtain t where t: "updateVisibleTilesCache farWorld (setCameraPosition far s1) = Some t"
    "filter isPositionChange (trace t)
       = filter isPositionChange (trace s1)
         @ (if far \<noteq> m_lastCameraPosition s1
            then [OnPositionChange far (m_lastCameraPosition s1)] else [])"
    "filter isRefreshEvent (trace t) = filter isRefreshEvent (trace s1)"
    "m_visibleCreatures t = m_visibleCreatures s1"
    using T b v f1(2,3) by auto
  have t2: "grounds (m_cachedVisibleTiles t 7) = []"
    using litView_fixed_far t(1) by (simp add: s1 far_def)
  have follow: "\<exists>s'. updateVisibleTilesCache farWorld (followCreature (Some 4) s1) = Some s'
             \<and> filter isPositionChange (trace s') = [OnPositionChange far Position0]
             \<and> filter isRefreshEvent (trace s') = [OnFloorChange 7 255, SetGlobalLight]
             \<and> m_visibleCreatures s' = []
             \<and> grounds (m_cachedVisibleTiles s' 7) = []"
    using u u2 f1 v by (intro exI [of _ u]) (simp add: cam)
  have fixed: "\<exists>s'. updateVisibleTilesCache farWorld (setCameraPosition far s1) = Some s'
             \<and> filter isPositionChange (trace s') = [OnPositionChange far near]
             \<and> filter isRefreshEvent (trace s') = []
             \<and> m_visibleCreatures s' = [1, 3, 2]
             \<and> grounds (m_cachedVisibleTiles s' 7) = []"
    using t t2 f1 v by (intro exI [of _ t]) simp
  have "updateVisibleTilesCache farWorld litView = Some s1
      \<and> m_visibleCreatures s1 = [1, 3, 2]
      \<and> \<not> m_mustUpdateVisibleCreaturesCache s1
      \<and> floorBoundsInArray s1
      \<and> m_lastCameraPosition s1 = near
      \<and> isValid far
      \<and> getCameraPosition farWorld (followCreature (Some 4) s1) = far
      \<and> m_lastCameraPosition (followCreature (Some 4) s1) = Position0
      \<and> m_lastCameraPosition (setCameraPosition far s1) = near
      \<and> (\<exists>s'. updateVisibleTilesCache farWorld (followCreature (Some 4) s1) = Some s'
             \<and> filter isPositionChange (trace s') = [OnPositionChange far Position0]
             \<and> filter isRefreshEvent (trace s') = [OnFloorChange 7 255, SetGlobalLight]
             \<and> m_visibleCreatures s' = []
             \<and> grounds (m_cachedVisibleTiles s' 7) = [])
      \<and> (\<exists>s'. updateVisibleTilesCache farWorld (setCameraPosition far s1) = Some s'
             \<and> filter isPositionChange (trace s') = [OnPositionChange far near]
             \<and> filter isRefreshEvent (trace s') = []
             \<and> m_visibleCreatures s' = [1, 3, 2]
             \<and> grounds (m_cachedVisibleTiles s' 7) = [])"
    using s1 f1(1,2) b f1(3) v(1) cam l1 l2 follow fixed by (intro conjI)
  from this [unfolded far_def near_def] show ?thesis
    by - (rule exI [of _ s1], assumption)
qed


section \<open>Drawing with an invalid camera\<close>

lemma shadeGround_no_overlay: "e \<in> set (shadeGround w tile) \<Longrightarrow> \<not> isOverlayEvent e"
  by (auto simp add: shadeGround_def split: option.splits if_splits)

lemma drawOneFloor_no_overlay: "e \<in> set (drawOneFloor w s cam z) \<Longrightarrow> \<not> isOverlayEvent e"
  by (auto simp add: drawOneFloor_def dest: shadeGround_no_overlay split: if_splits)

lemma drawFloorCalls_no_overlay: "e \<in> set (drawFloorCalls w s) \<Longrightarrow> \<not> isOverlayEvent e"
  by (auto simp add: drawFloorCalls_def dest: drawOneFloor_no_overlay split: if_splits)

lemma drawFloorCalls_background: "take 2 (drawFloorCalls w s) = [UsePool MAP, AddFilledRect]"
  by (simp add: drawFloorCalls_def)

lemma drawFloor_Some:
  "0 \<le> m_floorMin s \<Longrightarrow> m_floorMax s \<le> MAX_Z \<Longrightarrow>
   drawFloor w s = Some (emit (drawFloorCalls w s) s)"
  by (simp add: drawFloor_def)

lemma getCameraPosition_emit: "getCameraPosition w (emit es s) = getCameraPosition w s"
  by (rule getCameraPosition_cong) (simp_all add: emit_def)

lemma getCameraPosition_rect:
  "getCameraPosition w (s\<lparr>m_rectCache_rect := r\<rparr>) = getCameraPosition w s"
  by (rule getCameraPosition_cong) simp_all

lemma rect_refresh:
  "(if m_rectCache_rect s \<noteq> rect then s\<lparr>m_rectCache_rect := rect\<rparr> else s)
     = s\<lparr>m_rectCache_rect := rect\<rparr>"
  by simp

lemma draw_invalid:
  assumes "\<not> isValid (getCameraPosition w s)" "0 \<le> m_floorMin s" "m_floorMax s \<le> MAX_Z"
  shows "draw w rect s
           = Some (emit (drawFloorCalls w (s\<lparr>m_rectCache_rect := rect\<rparr>))
                     (s\<lparr>m_rectCache_rect := rect\<rparr>))"
proof -
  have u: "(if m_mustUpdateVisibleTilesCache s then updateVisibleTilesCache w s else Some s) = Some s"
    using assms(1) by (simp add: updateVisibleTilesCache_invalid)
  have d: "drawFloor w (s\<lparr>m_rectCache_rect := rect\<rparr>)
             = Some (emit (drawFloorCalls w (s\<lparr>m_rectCache_rect := rect\<rparr>))
                       (s\<lparr>m_rectCache_rect := rect\<rparr>))"
    using assms(2,3) by (intro drawFloor_Some) simp_all
  show ?thesis
    using assms(1)
    by (simp only: draw_def u option.case rect_refresh Let_def d
        getCameraPosition_emit getCameraPosition_rect) simp
qed

lemma draw_valid:
  assumes "(if m_mustUpdateVisibleTilesCache s then updateVisibleTilesCache w s else Some s) = Some u"
    and "drawFloor w (u\<lparr>m_rectCache_rect := rect\<rparr>) = Some v"
    and "isValid (getCameraPosition w v)"
  shows "draw w rect s = Some (overlayPasses w rect v)"
  using assms(3)
  by (simp only: draw_def assms(1,2) option.case rect_refresh Let_def overlayPasses_def)
     simp

text \<open>
  Claim C3. While the camera position is invalid, \<open>updateVisibleTilesCache\<close>
  returns the state as it is (a pending request stays pending), and \<open>draw\<close> makes
  the calls of the floor pass only: they begin with the map pool and the black
  background, and none of them belongs to the creature-information, light or text
  pass. Once the camera position is valid (here: in a later world \<open>w'\<close>), the next
  \<open>draw\<close> runs the pending rebuild, the floor pass and the three other passes.
\<close>

theorem invalid_camera_draws_floor_only:
  assumes invalid: "\<not> isValid (getCameraPosition w s)" and inv: "cacheInv s"
  shows "updateVisibleTilesCache w s = Some s
       \<and> draw w rect s
           = Some (emit (drawFloorCalls w (s\<lparr>m_rectCache_rect := rect\<rparr>))
                     (s\<lparr>m_rectCache_rect := rect\<rparr>))
       \<and> take 2 (drawFloorCalls w (s\<lparr>m_rectCache_rect := rect\<rparr>)) = [UsePool MAP, AddFilledRect]
       \<and> (\<forall>e \<in> set (drawFloorCalls w (s\<lparr>m_rectCache_rect := rect\<rparr>)). \<not> isOverlayEvent e)
       \<and> (isValid (getCameraPosition w' s)
            \<and> 0 \<le> pos_z (getCameraPosition w' s) \<and> pos_z (getCameraPosition w' s) \<le> MAX_Z \<longrightarrow>
            (\<exists>u v. (if m_mustUpdateVisibleTilesCache s
                     then updateVisibleTilesCache w'
                            (emit (drawFloorCalls w (s\<lparr>m_rectCache_rect := rect\<rparr>))
                               (s\<lparr>m_rectCache_rect := rect\<rparr>))
                     else Some (emit (drawFloorCalls w (s\<lparr>m_rectCache_rect := rect\<rparr>))
                                  (s\<lparr>m_rectCache_rect := rect\<rparr>))) = Some u
                 \<and> drawFloor w' (u\<lparr>m_rectCache_rect := rect'\<rparr>) = Some v
                 \<and> draw w' rect'
                      (emit (drawFloorCalls w (s\<lparr>m_rectCache_rect := rect\<rparr>))
                         (s\<lparr>m_rectCache_rect := rect\<rparr>))
                     = Some (overlayPasses w' rect' v)))"
proof -
  define s1 where "s1 = emit (drawFloorCalls w (s\<lparr>m_rectCache_rect := rect\<rparr>))
                          (s\<lparr>m_rectCache_rect := rect\<rparr>)"
  have fb: "0 \<le> m_floorMin s" "m_floorMin s \<le> m_floorMax s" "m_floorMax s \<le> MAX_Z"
    using inv by (simp_all add: cacheInv_def)
  have d: "draw w rect s = Some s1"
    unfolding s1_def using invalid fb(1,3) by (rule draw_invalid)
  have s1_fields: "m_floorMin s1 = m_floorMin s" "m_floorMax s1 = m_floorMax s"
    "m_mustUpdateVisibleTilesCache s1 = m_mustUpdateVisibleTilesCache s"
    by (simp_all add: s1_def emit_def)
  have cam1: "getCameraPosition w' s1 = getCameraPosition w' s"
    by (simp add: s1_def getCameraPosition_emit getCameraPosition_rect)
  have resume: "\<exists>u v. (if m_mustUpdateVisibleTilesCache s
                        then updateVisibleTilesCache w' s1 else Some s1) = Some u
                 \<and> drawFloor w' (u\<lparr>m_rectCache_rect := rect'\<rparr>) = Some v
                 \<and> draw w' rect' s1 = Some (overlayPasses w' rect' v)"
    if valid: "isValid (getCameraPosition w' s)"
      and z: "0 \<le> pos_z (getCameraPosition w' s)" "pos_z (getCameraPosition w' s) \<le> MAX_Z"
  proof -
    have b1: "floorBoundsInArray s1"
      using fb by (simp add: floorBoundsInArray_def s1_fields)
    obtain u where u: "(if m_mustUpdateVisibleTilesCache s
                        then updateVisibleTilesCache w' s1 else Some s1) = Some u"
      and ub: "0 \<le> m_floorMin u" "m_floorMax u \<le> MAX_Z"
    proof (cases "m_mustUpdateVisibleTilesCache s")
      case True
      obtain u where "updateVisibleTilesCache w' s1 = Some u" "0 \<le> m_floorMin u"
        "m_floorMax u \<le> MAX_Z"
        using updateVisibleTilesCache_bounds [of w' s1] valid z b1 by (auto simp add: cam1)
      then show ?thesis using True that by simp
    next
      case False
      then show ?thesis using that [of s1] fb by (simp add: s1_fields)
    qed
    have camu: "getCameraPosition w' u = getCameraPosition w' s"
    proof (cases "m_mustUpdateVisibleTilesCache s")
      case True
      then show ?thesis using u updateVisibleTilesCache_camera [of w' s1 u w'] by (simp add: cam1)
    next
      case False
      then show ?thesis using u cam1 by simp
    qed
    define v where "v = emit (drawFloorCalls w' (u\<lparr>m_rectCache_rect := rect'\<rparr>))
                          (u\<lparr>m_rectCache_rect := rect'\<rparr>)"
    have dv: "drawFloor w' (u\<lparr>m_rectCache_rect := rect'\<rparr>) = Some v"
      unfolding v_def using ub by (intro drawFloor_Some) simp_all
    have "isValid (getCameraPosition w' v)"
      using valid by (simp add: v_def getCameraPosition_emit getCameraPosition_rect camu)
    then have "draw w' rect' s1 = Some (overlayPasses w' rect' v)"
      using u dv by (intro draw_valid) (simp_all add: s1_fields)
    then show ?thesis using u dv by blast
  qed
  have c1: "updateVisibleTilesCache w s = Some s"
    using invalid by (rule updateVisibleTilesCache_invalid)
  have c3: "take 2 (drawFloorCalls w (s\<lparr>m_rectCache_rect := rect\<rparr>)) = [UsePool MAP, AddFilledRect]"
    by (rule drawFloorCalls_background)
  have c4: "\<forall>e \<in> set (drawFloorCalls w (s\<lparr>m_rectCache_rect := rect\<rparr>)). \<not> isOverlayEvent e"
    using drawFloorCalls_no_overlay by blast
  have c5: "isValid (getCameraPosition w' s)
            \<and> 0 \<le> pos_z (getCameraPosition w' s) \<and> pos_z (getCameraPosition w' s) \<le> MAX_Z \<longrightarrow>
            (\<exists>u v. (if m_mustUpdateVisibleTilesCache s
                     then updateVisibleTilesCache w' s1 else Some s1) = Some u
                 \<and> drawFloor w' (u\<lparr>m_rectCache_rect := rect'\<rparr>) = Some v
                 \<and> draw w' rect' s1 = Some (overlayPasses w' rect' v))"
    using resume by blast
  show ?thesis
    by (rule conjI [OF c1 conjI [OF d [unfolded s1_def]
          conjI [OF c3 conjI [OF c4 c5 [unfolded s1_def]]]]])
qed

lemma followingView_facts:
  "getCameraPosition exampleWorld followingView = \<lparr>pos_x = 100, pos_y = 100, pos_z = 7\<rparr>"
  "m_lastCameraPosition followingView = \<lparr>pos_x = 100, pos_y = 100, pos_z = 7\<rparr>"
  "m_follow followingView" "floorBoundsInArray followingView" "trace followingView = []"
  by (simp_all add: followingView_def exampleView_def exampleWorld_def getCameraPosition_def
      floorBoundsInArray_def MAX_Z_def)

lemma followingView_cacheInv: "cacheInv followingView"
  by (simp add: cacheInv_def followingView_def exampleView_def MAX_Z_def)

lemma followingView_resumed:
  "map_option (\<lambda>s. (length (filter isOverlayEvent (trace s)), m_mustUpdateVisibleTilesCache s,
                    m_visibleCreatures s))
     (draw exampleWorld Rect0
        (emit [UsePool MAP, AddFilledRect, OnFloorDrawingStart 7, OnFloorDrawingEnd 7] followingView))
   = Some (4, False, [1, 3, 2])"
  by code_simp

theorem invalid_camera_draws_floor_only_witness:
  "\<not> isValid (getCameraPosition unknownWorld followingView)
   \<and> cacheInv followingView
   \<and> m_mustUpdateVisibleTilesCache followingView
   \<and> updateVisibleTilesCache unknownWorld followingView = Some followingView
   \<and> draw unknownWorld Rect0 followingView
       = Some (emit [UsePool MAP, AddFilledRect, OnFloorDrawingStart 7, OnFloorDrawingEnd 7]
                 followingView)
   \<and> isValid (getCameraPosition exampleWorld followingView)
   \<and> (\<exists>u v. updateVisibleTilesCache exampleWorld
               (emit [UsePool MAP, AddFilledRect, OnFloorDrawingStart 7, OnFloorDrawingEnd 7]
                  followingView) = Some u
          \<and> drawFloor exampleWorld (u\<lparr>m_rectCache_rect := Rect0\<rparr>) = Some v
          \<and> draw exampleWorld Rect0
               (emit [UsePool MAP, AddFilledRect, OnFloorDrawingStart 7, OnFloorDrawingEnd 7]
                  followingView)
              = Some (overlayPasses exampleWorld Rect0 v)
          \<and> length (filter isOverlayEvent (trace (overlayPasses exampleWorld Rect0 v))) = 4
          \<and> \<not> m_mustUpdateVisibleTilesCache (overlayPasses exampleWorld Rect0 v)
          \<and> m_visibleCreatures (overlayPasses exampleWorld Rect0 v) = [1, 3, 2])"
proof -
  have i: "\<not> isValid (getCameraPosition unknownWorld followingView)"
    by (simp add: getCameraPosition_def followingView_def unknownWorld_def Position0_invalid)
  have c: "getCameraPosition exampleWorld followingView = \<lparr>pos_x = 100, pos_y = 100, pos_z = 7\<rparr>"
    by (simp add: followingView_facts)
  have v: "isValid (getCameraPosition exampleWorld followingView)"
    by (simp add: c isValid_def)
  have p: "m_mustUpdateVisibleTilesCache followingView"
    by (simp add: followingView_def exampleView_def)
  have r: "followingView\<lparr>m_rectCache_rect := Rect0\<rparr> = followingView"
    by (simp add: followingView_def exampleView_def)
  have calls: "drawFloorCalls unknownWorld followingView
                 = [UsePool MAP, AddFilledRect, OnFloorDrawingStart 7, OnFloorDrawingEnd 7]"
    by (simp add: drawFloorCalls_def drawOneFloor_def followingView_def exampleView_def
        unknownWorld_def exampleWorld_def MapList_clear_def Position0_invalid)
  define s1 where "s1 = emit [UsePool MAP, AddFilledRect, OnFloorDrawingStart 7, OnFloorDrawingEnd 7]
                          followingView"
  have T: "updateVisibleTilesCache unknownWorld followingView = Some followingView
       \<and> draw unknownWorld Rect0 followingView = Some s1
       \<and> (\<exists>u v. updateVisibleTilesCache exampleWorld s1 = Some u
              \<and> drawFloor exampleWorld (u\<lparr>m_rectCache_rect := Rect0\<rparr>) = Some v
              \<and> draw exampleWorld Rect0 s1 = Some (overlayPasses exampleWorld Rect0 v))"
    using invalid_camera_draws_floor_only [OF i followingView_cacheInv, of Rect0 exampleWorld Rect0]
      v p
    by (simp add: r calls c MAX_Z_def s1_def)
  then obtain u v' where uv: "updateVisibleTilesCache exampleWorld s1 = Some u"
    "drawFloor exampleWorld (u\<lparr>m_rectCache_rect := Rect0\<rparr>) = Some v'"
    "draw exampleWorld Rect0 s1 = Some (overlayPasses exampleWorld Rect0 v')"
    by blast
  have conc: "length (filter isOverlayEvent (trace (overlayPasses exampleWorld Rect0 v'))) = 4"
    "\<not> m_mustUpdateVisibleTilesCache (overlayPasses exampleWorld Rect0 v')"
    "m_visibleCreatures (overlayPasses exampleWorld Rect0 v') = [1, 3, 2]"
    using followingView_resumed [folded s1_def] by (simp_all add: uv(3))
  have ex: "\<exists>u v. updateVisibleTilesCache exampleWorld s1 = Some u
          \<and> drawFloor exampleWorld (u\<lparr>m_rectCache_rect := Rect0\<rparr>) = Some v
          \<and> draw exampleWorld Rect0 s1 = Some (overlayPasses exampleWorld Rect0 v)
          \<and> length (filter isOverlayEvent (trace (overlayPasses exampleWorld Rect0 v))) = 4
          \<and> \<not> m_mustUpdateVisibleTilesCache (overlayPasses exampleWorld Rect0 v)
          \<and> m_visibleCreatures (overlayPasses exampleWorld Rect0 v) = [1, 3, 2]"
    using uv conc by (intro exI [of _ u] exI [of _ v'] conjI)
  show ?thesis
    using i followingView_cacheInv p T v ex unfolding s1_def by (intro conjI) simp_all
qed


section \<open>Shader fading\<close>

lemma setShader_immediate:
  assumes "m_shader s \<noteq> shader" "fadeout \<le> 0"
  shows "m_shader (setShader w t0 shader fadein fadeout s) = shader
       \<and> m_nextShader (setShader w t0 shader fadein fadeout s) = None
       \<and> m_shaderSwitchDone (setShader w t0 shader fadein fadeout s)"
  using assms by (simp add: setShader_def Let_def emit_def split: option.splits)

lemma setShader_fading:
  assumes "m_shader s \<noteq> shader" "fadeout > 0" "m_shader s \<noteq> None"
  shows "m_shader (setShader w t0 shader fadein fadeout s) = m_shader s"
    "m_nextShader (setShader w t0 shader fadein fadeout s) = shader"
    "\<not> m_shaderSwitchDone (setShader w t0 shader fadein fadeout s)"
    "m_fadeTimer (setShader w t0 shader fadein fadeout s) = t0"
    "m_fadeInTime (setShader w t0 shader fadein fadeout s) = fadein"
    "m_fadeOutTime (setShader w t0 shader fadein fadeout s) = fadeout"
  using assms by (simp_all add: setShader_def Let_def emit_def split: option.splits)

lemma frameOpacity_eq:
  "frameOpacity w now s =
     (if m_shaderSwitchDone s
      then (if m_shader s \<noteq> None \<and> m_fadeInTime s > 0
            then min ((now - m_fadeTimer s) / m_fadeInTime s) 1 else 1)
      else if m_fadeOutTime s > 0
      then (if 1 - (now - m_fadeTimer s) / m_fadeOutTime s < 0
            then (if m_nextShader s \<noteq> None \<and> m_fadeInTime s > 0 then 0
                  else 1 - (now - m_fadeTimer s) / m_fadeOutTime s)
            else 1 - (now - m_fadeTimer s) / m_fadeOutTime s)
      else 1)"
  by (simp add: frameOpacity_def onBeforeDraw_def fadeOutOpacity_def Let_def emit_def
      split: option.splits)

lemma frameAt_fields:
  "m_shader (frameAt w now s)
     = (if \<not> m_shaderSwitchDone s \<and> m_fadeOutTime s > 0 \<and> m_fadeOutTime s < now - m_fadeTimer s
        then m_nextShader s else m_shader s)"
  "m_nextShader (frameAt w now s)
     = (if \<not> m_shaderSwitchDone s \<and> m_fadeOutTime s > 0 \<and> m_fadeOutTime s < now - m_fadeTimer s
        then None else m_nextShader s)"
  "m_shaderSwitchDone (frameAt w now s)
     = (m_shaderSwitchDone s \<or> (m_fadeOutTime s > 0 \<and> m_fadeOutTime s < now - m_fadeTimer s))"
  "m_fadeTimer (frameAt w now s)
     = (if \<not> m_shaderSwitchDone s \<and> m_fadeOutTime s > 0 \<and> m_fadeOutTime s < now - m_fadeTimer s
        then now else m_fadeTimer s)"
  "m_fadeInTime (frameAt w now s) = m_fadeInTime s"
  "m_fadeOutTime (frameAt w now s) = m_fadeOutTime s"
  by (auto simp add: frameAt_def onAfterDraw_def onBeforeDraw_def fadeOutOpacity_def Let_def emit_def
      field_simps split: option.splits)

lemma drawFrames_fading:
  "\<not> m_shaderSwitchDone s \<Longrightarrow> m_fadeOutTime s > 0 \<Longrightarrow>
   \<forall>t \<in> set frameTimes. t - m_fadeTimer s \<le> m_fadeOutTime s \<Longrightarrow>
   m_shader (drawFrames w frameTimes s) = m_shader s
   \<and> m_nextShader (drawFrames w frameTimes s) = m_nextShader s
   \<and> \<not> m_shaderSwitchDone (drawFrames w frameTimes s)
   \<and> m_fadeTimer (drawFrames w frameTimes s) = m_fadeTimer s
   \<and> m_fadeInTime (drawFrames w frameTimes s) = m_fadeInTime s
   \<and> m_fadeOutTime (drawFrames w frameTimes s) = m_fadeOutTime s"
proof (induction frameTimes arbitrary: s)
  case Nil
  then show ?case by (simp add: drawFrames_def)
next
  case (Cons t frameTimes)
  have "\<not> m_shaderSwitchDone (frameAt w t s)" "m_fadeOutTime (frameAt w t s) > 0"
    "m_fadeTimer (frameAt w t s) = m_fadeTimer s" "m_shader (frameAt w t s) = m_shader s"
    "m_nextShader (frameAt w t s) = m_nextShader s"
    using Cons.prems by (simp_all add: frameAt_fields)
  then show ?case
    using Cons.IH [of "frameAt w t s"] Cons.prems
    by (simp add: drawFrames_def frameAt_fields)
qed

lemma drawFrames_done:
  "m_shaderSwitchDone s \<Longrightarrow>
   m_shader (drawFrames w frameTimes s) = m_shader s
   \<and> m_shaderSwitchDone (drawFrames w frameTimes s)
   \<and> m_fadeTimer (drawFrames w frameTimes s) = m_fadeTimer s
   \<and> m_fadeInTime (drawFrames w frameTimes s) = m_fadeInTime s"
proof (induction frameTimes arbitrary: s)
  case Nil
  then show ?case by (simp add: drawFrames_def)
next
  case (Cons t frameTimes)
  then show ?case
    using Cons.IH [of "frameAt w t s"] by (simp add: drawFrames_def frameAt_fields)
qed

text \<open>
  Claim C7, as the code has it. \<open>setShader\<close> with a shader other than the active
  one and \<open>fadeout \<le> 0\<close> makes it the active shader at once, with no next shader
  and the switch done. With \<open>fadeout > 0\<close> and a shader active, the active shader
  stays through every frame drawn up to \<open>fadeout\<close> after the call, and such a frame
  is drawn at opacity \<open>1 - elapsed / fadeout\<close>; the first frame later than that
  makes the next shader the active one; and when the next shader is not null and
  \<open>fadein > 0\<close>, that frame is drawn at opacity 0 and every later frame at
  \<open>min (elapsed since the swap / fadein) 1\<close>. Time is the frame's clock reading,
  and the float arithmetic is read as exact.
\<close>

theorem shader_switch_fades:
  assumes new: "m_shader s \<noteq> shader"
  shows "(fadeout \<le> 0 \<longrightarrow>
            m_shader (setShader w t0 shader fadein fadeout s) = shader
            \<and> m_nextShader (setShader w t0 shader fadein fadeout s) = None
            \<and> m_shaderSwitchDone (setShader w t0 shader fadein fadeout s))
       \<and> (fadeout > 0 \<and> m_shader s \<noteq> None \<and> (\<forall>t \<in> set during. t - t0 \<le> fadeout)
            \<and> fadeout < tswap - t0 \<longrightarrow>
            (let fading = drawFrames w during (setShader w t0 shader fadein fadeout s);
                 swapped = frameAt w tswap fading
             in m_shader fading = m_shader s \<and> \<not> m_shaderSwitchDone fading
                \<and> (t - t0 \<le> fadeout \<longrightarrow> frameOpacity w t fading = 1 - (t - t0) / fadeout)
                \<and> m_shader swapped = shader \<and> m_shaderSwitchDone swapped
                \<and> (shader \<noteq> None \<and> fadein > 0 \<longrightarrow>
                     frameOpacity w tswap fading = 0
                     \<and> m_shader (drawFrames w after swapped) = shader
                     \<and> frameOpacity w t' (drawFrames w after swapped)
                         = min ((t' - tswap) / fadein) 1)))"
proof -
  have fade: "let fading = drawFrames w during (setShader w t0 shader fadein fadeout s);
                 swapped = frameAt w tswap fading
             in m_shader fading = m_shader s \<and> \<not> m_shaderSwitchDone fading
                \<and> (t - t0 \<le> fadeout \<longrightarrow> frameOpacity w t fading = 1 - (t - t0) / fadeout)
                \<and> m_shader swapped = shader \<and> m_shaderSwitchDone swapped
                \<and> (shader \<noteq> None \<and> fadein > 0 \<longrightarrow>
                     frameOpacity w tswap fading = 0
                     \<and> m_shader (drawFrames w after swapped) = shader
                     \<and> frameOpacity w t' (drawFrames w after swapped)
                         = min ((t' - tswap) / fadein) 1)"
    if pos: "fadeout > 0" and active: "m_shader s \<noteq> None"
      and during: "\<forall>t \<in> set during. t - t0 \<le> fadeout" and swap: "fadeout < tswap - t0"
  proof -
    define s1 where "s1 = setShader w t0 shader fadein fadeout s"
    define fading where "fading = drawFrames w during s1"
    define swapped where "swapped = frameAt w tswap fading"
    note s1 = setShader_fading [OF new pos active, of w t0 fadein, folded s1_def]
    have f: "m_shader fading = m_shader s" "m_nextShader fading = shader"
      "\<not> m_shaderSwitchDone fading" "m_fadeTimer fading = t0" "m_fadeInTime fading = fadein"
      "m_fadeOutTime fading = fadeout"
      using drawFrames_fading [of s1 during w] s1 pos during by (simp_all add: fading_def)
    have ramp: "frameOpacity w t fading = 1 - (t - t0) / fadeout" if "t - t0 \<le> fadeout" for t
      using that pos f by (simp add: frameOpacity_eq field_simps)
    have sw: "m_shader swapped = shader" "m_shaderSwitchDone swapped" "m_fadeTimer swapped = tswap"
      "m_fadeInTime swapped = fadein"
      using f pos swap by (simp_all add: swapped_def frameAt_fields)
    have zero: "frameOpacity w tswap fading = 0" if "shader \<noteq> None" "fadein > 0"
      using that f pos swap by (simp add: frameOpacity_eq field_simps)
    have after: "m_shader (drawFrames w after swapped) = shader
                 \<and> frameOpacity w t (drawFrames w after swapped) = min ((t - tswap) / fadein) 1"
      if "shader \<noteq> None" "fadein > 0" for after t
      using that drawFrames_done [of swapped w after] sw by (simp add: frameOpacity_eq)
    show ?thesis
      using f ramp sw zero after
      by (simp add: Let_def s1_def [symmetric] fading_def [symmetric] swapped_def [symmetric])
  qed
  show ?thesis
    using setShader_immediate [OF new, of fadeout w t0 fadein] fade by blast
qed

theorem shader_switch_fades_witness:
  "m_shader exampleView \<noteq> Some 1 \<and> m_shader exampleView \<noteq> None
   \<and> (100 :: real) - 0 \<le> 500 \<and> (250 :: real) - 0 \<le> 500 \<and> (500 :: real) < 600 - 0
   \<and> m_shader (drawFrames exampleWorld [100, 250]
                  (setShader exampleWorld 0 (Some 1) 300 500 exampleView)) = Some 0
   \<and> frameOpacity exampleWorld 375
        (drawFrames exampleWorld [100, 250] (setShader exampleWorld 0 (Some 1) 300 500 exampleView))
       = 1 / 4
   \<and> m_shader (frameAt exampleWorld 600
                  (drawFrames exampleWorld [100, 250]
                     (setShader exampleWorld 0 (Some 1) 300 500 exampleView))) = Some 1
   \<and> frameOpacity exampleWorld 600
        (drawFrames exampleWorld [100, 250] (setShader exampleWorld 0 (Some 1) 300 500 exampleView))
       = 0
   \<and> frameOpacity exampleWorld 750
        (drawFrames exampleWorld [650, 700]
           (frameAt exampleWorld 600
              (drawFrames exampleWorld [100, 250]
                 (setShader exampleWorld 0 (Some 1) 300 500 exampleView))))
       = 1 / 2"
proof -
  have a: "m_shader exampleView = Some 0"
    by (simp add: exampleView_def)
  have n: "m_shader exampleView \<noteq> Some 1"
    by (simp add: a)
  show ?thesis
    using shader_switch_fades [OF n, of 500 exampleWorld 0 300 "[100, 250]" 600 375 "[650, 700]" 750] a
    by (simp add: Let_def)
qed

text \<open>
  The claim as stated fails when the next shader is null: after fading shader 0
  out over 500 towards no shader with \<open>fadein = 300\<close>, the frame at 600 swaps and is
  drawn at opacity \<open>-1/5\<close>, and the frame 150 later is drawn at opacity 1, not 1/2.
\<close>

theorem shader_fade_in_counterexample:
  "m_shader exampleView = Some 0
   \<and> m_shader (frameAt exampleWorld 600 (setShader exampleWorld 0 None 300 500 exampleView)) = None
   \<and> frameOpacity exampleWorld 600 (setShader exampleWorld 0 None 300 500 exampleView) = - (1 / 5)
   \<and> frameOpacity exampleWorld 750
        (frameAt exampleWorld 600 (setShader exampleWorld 0 None 300 500 exampleView)) = 1"
proof -
  define s1 where "s1 = setShader exampleWorld 0 None 300 500 exampleView"
  have a: "m_shader exampleView = Some 0" by (simp add: exampleView_def)
  then have n: "m_shader exampleView \<noteq> None" by simp
  have f: "m_shader s1 = Some 0" "m_nextShader s1 = None" "\<not> m_shaderSwitchDone s1"
    "m_fadeTimer s1 = 0" "m_fadeInTime s1 = 300" "m_fadeOutTime s1 = 500"
    using setShader_fading [where s = exampleView and shader = None and fadeout = 500
        and w = exampleWorld and ?t0.0 = 0 and fadein = 300] a
    by (simp_all add: s1_def)
  have "m_shader (frameAt exampleWorld 600 s1) = None"
    "m_shaderSwitchDone (frameAt exampleWorld 600 s1)"
    using f by (simp_all add: frameAt_fields)
  moreover have "frameOpacity exampleWorld 600 s1 = - (1 / 5)"
    using f by (simp add: frameOpacity_eq)
  moreover have "frameOpacity exampleWorld 750 (frameAt exampleWorld 600 s1) = 1"
    using f by (simp add: frameOpacity_eq frameAt_fields)
  ultimately show ?thesis using a by (simp add: s1_def)
qed

end
